theory Spec2Isabelle
  imports Main
begin

section \<open>Identifiers and the lodash helpers\<close>

text \<open>
  An entry of an \<^verbatim>\<open>associatedWords\<close> array is either an ObjectId object or a plain
  string. JavaScript compares objects by reference, so an ObjectId object carries the
  reference of the object next to its 24-digit hexadecimal text; HOL equality on
  \<open>ident\<close> is then the element equality (SameValueZero) that lodash \<^verbatim>\<open>uniq\<close> uses.
  \<open>toString\<close> is the method \<^verbatim>\<open>.toString()\<close>.
\<close>

datatype ident = ObjectId nat string | IdString string

fun toString :: "ident \<Rightarrow> string" where
  "toString (ObjectId r h) = h"
| "toString (IdString s) = s"

definition isHexChar :: "char \<Rightarrow> bool" where
  "isHexChar c = (c \<in> set ''0123456789abcdefABCDEF'')"

text \<open>
  \<^verbatim>\<open>mongoose.Types.ObjectId.isValid\<close> (library code): an ObjectId object is valid; a string
  is valid when it has 12 characters, or 24 characters that are all hexadecimal digits.
\<close>

fun ObjectId_isValid :: "ident \<Rightarrow> bool" where
  "ObjectId_isValid (ObjectId r h) = True"
| "ObjectId_isValid (IdString s) = (length s = 12 \<or> (length s = 24 \<and> list_all isHexChar s))"

text \<open>
  The cast of mongoose (library code). An id given to a query on \<^verbatim>\<open>_id\<close>, or on an array
  of references, is cast to an ObjectId before it is compared: a string of 24
  hexadecimal digits denotes the ObjectId with these digits, whose text is written in
  lower case; a string of 12 characters denotes the ObjectId with these 12 bytes, whose
  text is their 24 hexadecimal digits; any other string is refused (a CastError). An
  ObjectId object denotes itself. \<open>castObjectId\<close> gives the text of the ObjectId denoted.
\<close>

definition lowerHex :: "char \<Rightarrow> char" where
  "lowerHex c =
     (if c = CHR ''A'' then CHR ''a'' else if c = CHR ''B'' then CHR ''b''
      else if c = CHR ''C'' then CHR ''c'' else if c = CHR ''D'' then CHR ''d''
      else if c = CHR ''E'' then CHR ''e'' else if c = CHR ''F'' then CHR ''f'' else c)"

definition hexByte :: "char \<Rightarrow> string" where
  "hexByte c = [''0123456789abcdef'' ! (of_char c div 16), ''0123456789abcdef'' ! (of_char c mod 16)]"

definition castObjectId :: "string \<Rightarrow> string option" where
  "castObjectId i =
     (if length i = 24 \<and> list_all isHexChar i then Some (map lowerHex i)
      else if length i = 12 then Some (concat (map hexByte i))
      else None)"

fun castIdent :: "ident \<Rightarrow> string option" where
  "castIdent (ObjectId r h) = Some h"
| "castIdent (IdString i) = castObjectId i"

text \<open>
  lodash \<^verbatim>\<open>uniqBy(array, iteratee)\<close>: scan from the left, keep an element when the value
  of the iteratee on it has not been seen yet. \<^verbatim>\<open>uniq(array)\<close> is the same with the
  elements themselves as keys.
\<close>

fun uniqBy_seen :: "'b list \<Rightarrow> 'a list \<Rightarrow> ('a \<Rightarrow> 'b) \<Rightarrow> 'a list" where
  "uniqBy_seen seen [] f = []"
| "uniqBy_seen seen (x # xs) f =
     (if f x \<in> set seen then uniqBy_seen seen xs f else x # uniqBy_seen (f x # seen) xs f)"

definition uniqBy :: "'a list \<Rightarrow> ('a \<Rightarrow> 'b) \<Rightarrow> 'a list" where
  "uniqBy xs f = uniqBy_seen [] xs f"

definition uniq :: "'a list \<Rightarrow> 'a list" where
  "uniq xs = uniqBy xs (\<lambda>x. x)"

text \<open>
  The union of the specification (section 4.1), in its own words: the values of both
  arrays in first-seen order, each value once. \<open>remdups\<close> keeps the last occurrence of a
  value, so it is applied to the reversed list.
\<close>

definition first_seen_union :: "'a list \<Rightarrow> 'a list \<Rightarrow> 'a list" where
  "first_seen_union xs ys = rev (remdups (rev (xs @ ys)))"

text \<open>JavaScript truthiness of an optional string: \<^verbatim>\<open>undefined\<close>, \<^verbatim>\<open>null\<close> and \<^verbatim>\<open>''\<close> are falsy.\<close>

fun truthy :: "string option \<Rightarrow> bool" where
  "truthy None = False"
| "truthy (Some s) = (s \<noteq> [])"

text \<open>
  The value of an optional identifier where the code uses it after having tested that
  it is set (the empty string, which is no document's id, where it is not).
\<close>

fun idOf :: "string option \<Rightarrow> string" where
  "idOf None = []"
| "idOf (Some i) = i"

text \<open>\<^verbatim>\<open>x || []\<close> on an optional array.\<close>

fun orEmpty :: "'a list option \<Rightarrow> 'a list" where
  "orEmpty None = []"
| "orEmpty (Some xs) = xs"

section \<open>Errors\<close>

datatype jserror = JSError (errorName: string) (message: string)

definition Error :: "string \<Rightarrow> jserror" where
  "Error m = JSError ''Error'' m"

definition TypeError :: "string \<Rightarrow> jserror" where
  "TypeError m = JSError ''TypeError'' m"

definition castError :: jserror where
  "castError = JSError ''CastError'' ''Cast to ObjectId failed''"

section \<open>Documents\<close>

text \<open>
  A Word holds references to its Examples; \<^verbatim>\<open>authorId\<close> is no attribute of a Word in the
  data model (section 3) and no code of these sources sets it, but
  \<^verbatim>\<open>handleSendingMergedEmail\<close> reads it from the Word it is given: \<open>word_authorId\<close> is
  what it finds there.
\<close>

record exampleData =
  igbo :: string
  english :: string
  associatedWords :: "ident list"

record example =
  example_id :: string
  example_data :: exampleData

record exampleSuggestion =
  es_id :: string
  es_data :: exampleData
  originalExampleId :: "string option"
  es_authorId :: "string option"
  es_merged :: "string option"
  es_mergedBy :: "string option"

record wordData =
  word :: string
  wordClass :: string
  definitions :: "string list option"
  variations :: "string list option"
  stems :: "string list option"

record wordDoc =
  word_id :: string
  word_data :: wordData
  word_examples :: "string list"
  word_authorId :: "string option"

record wordSuggestion =
  ws_id :: string
  ws_data :: wordData
  ws_examples :: "exampleData list"
  originalWordId :: "string option"
  ws_authorId :: "string option"
  ws_merged :: "string option"
  ws_mergedBy :: "string option"

record user =
  email :: "string option"

record mergedEmail =
  to :: string
  suggestionType :: string
  submissionLink :: string
  payload :: wordDoc

section \<open>The document store and its collaborators\<close>

text \<open>
  The collections are lists of documents in insertion order; a document is found under
  its \<^verbatim>\<open>_id\<close> at its first position. The store may refuse a write: \<open>faults\<close> lists, for
  the writes to come in the order in which they reach the store, whether the write is
  refused and with which error (an exhausted list refuses nothing). Reads are answered
  from the collections. \<open>newObjectIds\<close> is the driver's generator of identifiers and
  \<open>idCount\<close> the number of identifiers handed out.

  The schema of a Word is not among the sources. \<^verbatim>\<open>mergeIntoWord\<close> gives the nested
  examples of a suggestion to an update of a Word, which holds references to Examples:
  what the schema's cast makes of them (references, or an error) is the parameter
  \<open>castExampleRefs\<close>.

  \<open>userDirectory\<close> is the external user lookup, \<open>outbox\<close> the notifications handed to
  the sender, \<open>delivery\<close> the error with which the sender fails to deliver a
  notification, if it does, and \<open>DICTIONARY_APP_URL\<close> the configured address.
\<close>

record db =
  Words :: "wordDoc list"
  Examples :: "example list"
  ExampleSuggestions :: "exampleSuggestion list"
  WordSuggestions :: "wordSuggestion list"
  faults :: "jserror option list"
  newObjectIds :: "nat \<Rightarrow> string"
  idCount :: nat
  castExampleRefs :: "exampleData list \<Rightarrow> jserror + string list"
  userDirectory :: "string \<Rightarrow> user"
  outbox :: "mergedEmail list"
  delivery :: "mergedEmail \<Rightarrow> jserror option"
  DICTIONARY_APP_URL :: string

text \<open>
  A promise is a computation on the store that settles with an error (rejected) or a
  value (resolved) and leaves the store as its writes made it: nothing is rolled back.
\<close>

type_synonym 'a promise = "db \<Rightarrow> (jserror + 'a) \<times> db"

definition resolve :: "'a \<Rightarrow> 'a promise" where
  "resolve a s = (Inr a, s)"

definition reject :: "jserror \<Rightarrow> 'a promise" where
  "reject e s = (Inl e, s)"

definition thenP :: "'a promise \<Rightarrow> ('a \<Rightarrow> 'b promise) \<Rightarrow> 'b promise" where
  "thenP m f s = (case m s of (Inl e, s') \<Rightarrow> (Inl e, s') | (Inr a, s') \<Rightarrow> f a s')"

definition catchP :: "'a promise \<Rightarrow> (jserror \<Rightarrow> 'a promise) \<Rightarrow> 'a promise" where
  "catchP m h s = (case m s of (Inl e, s') \<Rightarrow> h e s' | (Inr a, s') \<Rightarrow> (Inr a, s'))"

text \<open>
  \<^verbatim>\<open>Promise.all(map(xs, f))\<close>. Every callback is started, and a callback that has been
  started runs on to its end whatever becomes of the others: the store that is returned
  is the store once all the callbacks have settled. The promise resolves with the
  values in order when every callback resolves, and rejects with the first rejection
  otherwise. Nothing in the controllers writes to the store after such a rejection, so
  this is also the store in which the request ends.

  The writes of the callbacks reach the store in an order that JavaScript does not
  fix. The order taken here is one of those it allows: the writes of each callback in
  their own order, callback after callback from the left. Different callbacks of the
  controllers write different documents, so the documents stored in the end do not
  depend on this choice, only the write that a given entry of \<open>faults\<close> refuses does.
\<close>

fun Promise_all_map :: "('a \<Rightarrow> 'b promise) \<Rightarrow> 'a list \<Rightarrow> 'b list promise" where
  "Promise_all_map f [] s = (Inr [], s)"
| "Promise_all_map f (x # xs) s =
     (case f x s of (r, s1) \<Rightarrow>
        (case Promise_all_map f xs s1 of (rs, s2) \<Rightarrow>
           ((case r of
               Inl e \<Rightarrow> Inl e
             | Inr y \<Rightarrow> (case rs of Inl e \<Rightarrow> Inl e | Inr ys \<Rightarrow> Inr (y # ys))), s2)))"

text \<open>
  A call whose promise is not awaited: the caller goes on at once, and whether the
  promise resolves or rejects is not reported to it.
\<close>

definition notAwaited :: "'a promise \<Rightarrow> unit promise" where
  "notAwaited m s = (Inr (), snd (m s))"

text \<open>One write reaches the store: the next entry of the fault schedule decides it.\<close>

definition commit :: "unit promise" where
  "commit s =
     (case faults s of
        [] \<Rightarrow> (Inr (), s)
      | None # fs \<Rightarrow> (Inr (), s\<lparr>faults := fs\<rparr>)
      | Some e # fs \<Rightarrow> (Inl e, s\<lparr>faults := fs\<rparr>))"

definition newObjectId :: "string promise" where
  "newObjectId s = (Inr (newObjectIds s (idCount s)), s\<lparr>idCount := Suc (idCount s)\<rparr>)"

text \<open>Lookup by \<^verbatim>\<open>_id\<close>, replacement of the document stored under an \<^verbatim>\<open>_id\<close>, removal.\<close>

definition findDoc :: "('d \<Rightarrow> string) \<Rightarrow> 'd list \<Rightarrow> string \<Rightarrow> 'd option" where
  "findDoc key c i = find (\<lambda>d. key d = i) c"

fun replaceDoc :: "('d \<Rightarrow> string) \<Rightarrow> 'd \<Rightarrow> 'd list \<Rightarrow> 'd list" where
  "replaceDoc key d [] = []"
| "replaceDoc key d (x # xs) = (if key x = key d then d # xs else x # replaceDoc key d xs)"

definition removeDoc :: "('d \<Rightarrow> string) \<Rightarrow> string \<Rightarrow> 'd list \<Rightarrow> 'd list" where
  "removeDoc key i c = filter (\<lambda>d. key d \<noteq> i) c"

section \<open>Store operations (the mongoose models)\<close>

text \<open>
  \<^verbatim>\<open>new Model(data).save()\<close> inserts; the store refuses a second document under an
  existing \<^verbatim>\<open>_id\<close>. \<^verbatim>\<open>doc.save()\<close> on a loaded document rewrites the document stored
  under its \<^verbatim>\<open>_id\<close> and fails when there is none any more. A query casts the id it is
  given and fails with the CastError, before anything is sent to the store, when the id
  cannot be cast. \<^verbatim>\<open>findOneAndUpdate\<close> overwrites the fields of the document that the
  update names and resolves with the document as it was before, or with \<^verbatim>\<open>null\<close> when no
  document matched. \<^verbatim>\<open>_id\<close> is unique in a collection, so \<^verbatim>\<open>deleteOne\<close> by \<^verbatim>\<open>_id\<close> removes
  whatever is stored under it. A query on \<^verbatim>\<open>associatedWords\<close> matches the documents with
  an entry whose text is the text of the ObjectId the query was given.
\<close>

definition duplicateKey :: jserror where
  "duplicateKey = JSError ''MongoError'' ''E11000 duplicate key error''"

definition documentNotFound :: jserror where
  "documentNotFound = JSError ''DocumentNotFoundError'' ''No document found for query''"

definition Word_findById :: "ident \<Rightarrow> wordDoc option promise" where
  "Word_findById i s =
     (case castIdent i of
        None \<Rightarrow> (Inl castError, s)
      | Some c \<Rightarrow> (Inr (findDoc word_id (Words s) c), s))"

definition Word_insert :: "wordDoc \<Rightarrow> wordDoc promise" where
  "Word_insert d =
     thenP commit (\<lambda>_ s.
       if findDoc word_id (Words s) (word_id d) \<noteq> None then (Inl duplicateKey, s)
       else (Inr d, s\<lparr>Words := Words s @ [d]\<rparr>))"

definition Word_save :: "wordDoc \<Rightarrow> wordDoc promise" where
  "Word_save d =
     thenP commit (\<lambda>_ s.
       if findDoc word_id (Words s) (word_id d) = None then (Inl documentNotFound, s)
       else (Inr d, s\<lparr>Words := replaceDoc word_id d (Words s)\<rparr>))"

text \<open>
  \<^verbatim>\<open>Word.findOneAndUpdate({ _id: id }, suggestionDoc.toObject())\<close>. Of the properties of
  the suggestion's object, those that are attributes of a Word (section 3) are written:
  the word fields and \<^verbatim>\<open>examples\<close>, the latter as the cast of the schema reads them.
\<close>

definition Word_findOneAndUpdate :: "string \<Rightarrow> wordSuggestion \<Rightarrow> wordDoc option promise" where
  "Word_findOneAndUpdate i sug s =
     (case castObjectId i of
        None \<Rightarrow> (Inl castError, s)
      | Some c \<Rightarrow>
          (case castExampleRefs s (ws_examples sug) of
             Inl e \<Rightarrow> (Inl e, s)
           | Inr refs \<Rightarrow>
               thenP commit (\<lambda>_ s.
                 case findDoc word_id (Words s) c of
                   None \<Rightarrow> (Inr None, s)
                 | Some w \<Rightarrow>
                     (Inr (Some w),
                      s\<lparr>Words := replaceDoc word_id
                           (w\<lparr>word_data := ws_data sug, word_examples := refs\<rparr>) (Words s)\<rparr>)) s))"

definition Word_deleteOne :: "string \<Rightarrow> unit promise" where
  "Word_deleteOne i s =
     (case castObjectId i of
        None \<Rightarrow> (Inl castError, s)
      | Some c \<Rightarrow>
          thenP commit (\<lambda>_ s. (Inr (), s\<lparr>Words := removeDoc word_id c (Words s)\<rparr>)) s)"

definition Example_insert :: "example \<Rightarrow> example promise" where
  "Example_insert d =
     thenP commit (\<lambda>_ s.
       if findDoc example_id (Examples s) (example_id d) \<noteq> None then (Inl duplicateKey, s)
       else (Inr d, s\<lparr>Examples := Examples s @ [d]\<rparr>))"

definition Example_save :: "example \<Rightarrow> example promise" where
  "Example_save d =
     thenP commit (\<lambda>_ s.
       if findDoc example_id (Examples s) (example_id d) = None then (Inl documentNotFound, s)
       else (Inr d, s\<lparr>Examples := replaceDoc example_id d (Examples s)\<rparr>))"

definition Example_findOneAndUpdate :: "string \<Rightarrow> exampleData \<Rightarrow> example option promise" where
  "Example_findOneAndUpdate i dat s =
     (case castObjectId i of
        None \<Rightarrow> (Inl castError, s)
      | Some c \<Rightarrow>
          thenP commit (\<lambda>_ s.
            case findDoc example_id (Examples s) c of
              None \<Rightarrow> (Inr None, s)
            | Some ex \<Rightarrow>
                (Inr (Some ex),
                 s\<lparr>Examples := replaceDoc example_id (ex\<lparr>example_data := dat\<rparr>) (Examples s)\<rparr>)) s)"

definition ExampleSuggestion_find :: "string \<Rightarrow> exampleSuggestion list promise" where
  "ExampleSuggestion_find i s =
     (case castObjectId i of
        None \<Rightarrow> (Inl castError, s)
      | Some c \<Rightarrow>
          (Inr (filter (\<lambda>d. c \<in> set (map toString (associatedWords (es_data d))))
                  (ExampleSuggestions s)), s))"

definition ExampleSuggestion_save :: "exampleSuggestion \<Rightarrow> exampleSuggestion promise" where
  "ExampleSuggestion_save d =
     thenP commit (\<lambda>_ s.
       if findDoc es_id (ExampleSuggestions s) (es_id d) = None then (Inl documentNotFound, s)
       else (Inr d, s\<lparr>ExampleSuggestions := replaceDoc es_id d (ExampleSuggestions s)\<rparr>))"

definition WordSuggestion_save :: "wordSuggestion \<Rightarrow> wordSuggestion promise" where
  "WordSuggestion_save d =
     thenP commit (\<lambda>_ s.
       if findDoc ws_id (WordSuggestions s) (ws_id d) = None then (Inl documentNotFound, s)
       else (Inr d, s\<lparr>WordSuggestions := replaceDoc ws_id d (WordSuggestions s)\<rparr>))"

section \<open>Helpers of the repository that are not among the sources\<close>

text \<open>
  Modelled from the spec: \<^verbatim>\<open>updateDocumentMerge\<close> of \<^verbatim>\<open>./utils\<close>, as the example engine
  uses it. The suggestion is stamped with the canonical identifier and the merger's
  identity, and "the suggestion is mutated and persisted with merge metadata regardless
  of branch" (4.3): \<^verbatim>\<open>mergeIntoExample\<close> and \<^verbatim>\<open>createExampleFromSuggestion\<close> await this
  helper and save nothing themselves, so here the stamp is persisted with it.
\<close>

definition updateDocumentMerge_example ::
  "exampleSuggestion \<Rightarrow> string \<Rightarrow> string \<Rightarrow> exampleSuggestion promise" where
  "updateDocumentMerge_example suggestionDoc originalDocId mergedBy =
     ExampleSuggestion_save
       (suggestionDoc\<lparr>es_merged := Some originalDocId, es_mergedBy := Some mergedBy\<rparr>)"

text \<open>
  Modelled from the spec: \<^verbatim>\<open>updateDocumentMerge\<close> of \<^verbatim>\<open>./utils\<close>, as the cascade of the
  word engine uses it (4.4.1): "stamp the suggestion with merge metadata", and "persist
  the outer suggestion's stamp last, after all nested merges complete"; after a failed
  cascade "the outer Word Suggestion's own stamp is not yet written" (7). The helper
  sets the stamp on the document and resolves with the document; it is the
  \<^verbatim>\<open>updatedSuggestionDoc.save()\<close> that ends \<^verbatim>\<open>updateSuggestionAfterMerge\<close> which persists it.
\<close>

definition updateDocumentMerge_word ::
  "wordSuggestion \<Rightarrow> string \<Rightarrow> string \<Rightarrow> wordSuggestion promise" where
  "updateDocumentMerge_word suggestionDoc originalDocId mergedBy =
     resolve (suggestionDoc\<lparr>ws_merged := Some originalDocId, ws_mergedBy := Some mergedBy\<rparr>)"

text \<open>
  Modelled from the spec: \<^verbatim>\<open>findExampleSuggestionById\<close> of \<^verbatim>\<open>./exampleSuggestions\<close>:
  "fetch the Example Suggestion by id", \<^verbatim>\<open>null\<close> when there is none.
\<close>

definition findExampleSuggestionById :: "string \<Rightarrow> exampleSuggestion option promise" where
  "findExampleSuggestionById i s = (Inr (findDoc es_id (ExampleSuggestions s) i), s)"

text \<open>
  Modelled from the spec: \<^verbatim>\<open>findWordsWithMatch\<close> of \<^verbatim>\<open>./utils/buildDocs\<close> with a match on
  \<^verbatim>\<open>_id\<close> and \<^verbatim>\<open>limit: 1\<close>: "re-fetch the canonical Word", the Word under the ObjectId
  that the id denotes. The resolution of the example references of the word is left
  out.
\<close>

definition findWordsWithMatch :: "string \<Rightarrow> wordDoc list promise" where
  "findWordsWithMatch i s =
     (Inr (case castObjectId i of
             None \<Rightarrow> []
           | Some c \<Rightarrow> take 1 (filter (\<lambda>w. word_id w = c) (Words s))), s)"

text \<open>
  Modelled from the spec: \<^verbatim>\<open>deleteWordSuggestionsByOriginalWordId\<close> of
  \<^verbatim>\<open>./wordSuggestions\<close>: "delete all Word Suggestions whose originalWordId equals the
  deleted id".
\<close>

definition deleteWordSuggestionsByOriginalWordId :: "string \<Rightarrow> unit promise" where
  "deleteWordSuggestionsByOriginalWordId i s =
     (case castObjectId i of
        None \<Rightarrow> (Inl castError, s)
      | Some c \<Rightarrow>
          thenP commit (\<lambda>_ s.
            (Inr (), s\<lparr>WordSuggestions :=
                          filter (\<lambda>d. originalWordId d \<noteq> Some c) (WordSuggestions s)\<rparr>)) s)"

text \<open>
  Modelled from the spec: \<^verbatim>\<open>getDocumentsIds\<close> of \<^verbatim>\<open>../shared/utils/documentUtils\<close>:
  "collect the resulting example ids".
\<close>

definition getDocumentsIds :: "example list \<Rightarrow> string list" where
  "getDocumentsIds docs = map example_id docs"

text \<open>
  Modelled from the spec: \<^verbatim>\<open>findUser\<close> of \<^verbatim>\<open>./users\<close>: "a user-lookup collaborator
  returning the address given a submitter identity, or absent data if none" (6). The
  caller destructures what the lookup resolves with, so it resolves with an object;
  absent data is an object without address.
\<close>

definition findUser :: "string \<Rightarrow> user promise" where
  "findUser uid s = (Inr (userDirectory s uid), s)"

text \<open>
  Modelled from the spec: \<^verbatim>\<open>sendMergedEmail\<close> of \<^verbatim>\<open>./email\<close>: "a notification sender
  performing best-effort delivery" (6). The notification is handed over; the promise
  of the sender rejects when the delivery fails.
\<close>

definition sendMergedEmail :: "mergedEmail \<Rightarrow> unit promise" where
  "sendMergedEmail m s =
     ((case delivery s m of None \<Rightarrow> Inr () | Some e \<Rightarrow> Inl e), s\<lparr>outbox := outbox s @ [m]\<rparr>)"

section \<open>The example controller\<close>

text \<open>\<^verbatim>\<open>createExample\<close>: \<^verbatim>\<open>new Example(data)\<close>, then \<^verbatim>\<open>example.save()\<close>.\<close>

definition createExample :: "exampleData \<Rightarrow> example promise" where
  "createExample dat =
     thenP newObjectId (\<lambda>i. Example_insert \<lparr>example_id = i, example_data = dat\<rparr>)"

text \<open>\<^verbatim>\<open>Example.find({ associatedWords: { $in: [id] } })\<close>.\<close>

definition findExampleByAssociatedWordId :: "string \<Rightarrow> example list promise" where
  "findExampleByAssociatedWordId i s =
     (case castObjectId i of
        None \<Rightarrow> (Inl castError, s)
      | Some c \<Rightarrow>
          (Inr (filter (\<lambda>d. c \<in> set (map toString (associatedWords (example_data d))))
                  (Examples s)), s))"

definition mergeIntoExample :: "exampleSuggestion \<Rightarrow> string \<Rightarrow> example promise" where
  "mergeIntoExample exampleSuggestion mergedBy =
     thenP (Example_findOneAndUpdate (idOf (originalExampleId exampleSuggestion))
              (es_data exampleSuggestion))
       (\<lambda>found.
         case found of
           None \<Rightarrow> reject (Error ''Example doesn't exist'')
         | Some ex \<Rightarrow>
             thenP (updateDocumentMerge_example exampleSuggestion (example_id ex) mergedBy)
               (\<lambda>_. resolve ex))"

definition createExampleFromSuggestion :: "exampleSuggestion \<Rightarrow> string \<Rightarrow> example promise" where
  "createExampleFromSuggestion exampleSuggestion mergedBy =
     catchP
       (thenP (createExample (es_data exampleSuggestion)) (\<lambda>ex.
          thenP (updateDocumentMerge_example exampleSuggestion (example_id ex) mergedBy)
            (\<lambda>_. resolve ex)))
       (\<lambda>_. reject (Error ''An error occurred while saving the new example.''))"

definition executeMergeExample :: "string \<Rightarrow> string \<Rightarrow> example promise" where
  "executeMergeExample exampleSuggestionId mergedBy =
     thenP (findExampleSuggestionById exampleSuggestionId) (\<lambda>found.
       case found of
         None \<Rightarrow>
           reject (Error
             ''There is no associated example suggestion, double check your provided data'')
       | Some exampleSuggestion \<Rightarrow>
           if igbo (es_data exampleSuggestion) = [] \<and> english (es_data exampleSuggestion) = []
           then reject (Error ''Required information is missing, double check your provided data'')
           else if list_ex (\<lambda>associatedWord. \<not> ObjectId_isValid associatedWord)
                     (associatedWords (es_data exampleSuggestion))
           then reject (Error ''Invalid id found in associatedWords'')
           else
             thenP (Promise_all_map
                      (\<lambda>associatedWordId.
                         thenP (Word_findById associatedWordId) (\<lambda>w.
                           if w = None
                           then reject (Error
                             ''Example suggestion associated words can only contain Word ids before merging'')
                           else resolve ()))
                      (associatedWords (es_data exampleSuggestion)))
               (\<lambda>_.
                 if length (associatedWords (es_data exampleSuggestion))
                      \<noteq> length (uniq (associatedWords (es_data exampleSuggestion)))
                 then reject (Error ''Duplicates are not allows in associated words'')
                 else if truthy (originalExampleId exampleSuggestion)
                 then mergeIntoExample exampleSuggestion mergedBy
                 else createExampleFromSuggestion exampleSuggestion mergedBy))"

section \<open>The word controller\<close>

text \<open>
  \<^verbatim>\<open>createWord(data)\<close>: \<open>dat\<close> are the word fields of \<^verbatim>\<open>data\<close> and \<open>exs\<close> its
  \<^verbatim>\<open>examples\<close>. The new word is saved, an Example is created for each example of the
  data with the new word as its only associated word, and the word is saved again with
  the identifiers of the examples.
\<close>

definition createWord :: "wordData \<Rightarrow> exampleData list \<Rightarrow> wordDoc promise" where
  "createWord dat exs =
     thenP newObjectId (\<lambda>i.
       thenP (Word_insert \<lparr>word_id = i, word_data = dat, word_examples = [], word_authorId = None\<rparr>)
         (\<lambda>newWord.
           thenP (Promise_all_map
                    (\<lambda>ex. createExample (ex\<lparr>associatedWords := [IdString (word_id newWord)]\<rparr>))
                    exs)
             (\<lambda>resolvedExamples.
               Word_save (newWord\<lparr>word_examples := getDocumentsIds resolvedExamples\<rparr>))))"

text \<open>
  The callback of \<^verbatim>\<open>updateSuggestionAfterMerge\<close> on one Example Suggestion. First the
  document \<^verbatim>\<open>removeSuggestionAssociatedIds\<close>: the entries whose text is the text of the
  suggestion's id are filtered out, and the id of the word is pushed unless the array
  includes it. The array is the array of the document, whose \<^verbatim>\<open>includes\<close> compares the
  id with the entries by their text. Then the document is saved and merged.
\<close>

definition removeSuggestionAssociatedIds ::
  "wordSuggestion \<Rightarrow> wordDoc \<Rightarrow> exampleSuggestion \<Rightarrow> exampleSuggestion" where
  "removeSuggestionAssociatedIds suggestionDoc originalWordDoc exampleSuggestion =
     (let filtered = filter (\<lambda>associatedWord. toString associatedWord \<noteq> ws_id suggestionDoc)
                       (associatedWords (es_data exampleSuggestion))
      in exampleSuggestion\<lparr>es_data := (es_data exampleSuggestion)\<lparr>associatedWords :=
           (if word_id originalWordDoc \<in> set (map toString filtered) then filtered
            else filtered @ [IdString (word_id originalWordDoc)])\<rparr>\<rparr>)"

definition cascadeExampleSuggestion ::
  "wordSuggestion \<Rightarrow> wordDoc \<Rightarrow> string \<Rightarrow> exampleSuggestion \<Rightarrow> example promise" where
  "cascadeExampleSuggestion suggestionDoc originalWordDoc mergedBy exampleSuggestion =
     thenP (ExampleSuggestion_save
              (removeSuggestionAssociatedIds suggestionDoc originalWordDoc exampleSuggestion))
       (\<lambda>updatedExampleSuggestion.
          executeMergeExample (es_id updatedExampleSuggestion) mergedBy)"

definition updateSuggestionAfterMerge ::
  "wordSuggestion \<Rightarrow> wordDoc \<Rightarrow> string \<Rightarrow> wordSuggestion promise" where
  "updateSuggestionAfterMerge suggestionDoc originalWordDoc mergedBy =
     thenP (updateDocumentMerge_word suggestionDoc (word_id originalWordDoc) mergedBy)
       (\<lambda>updatedSuggestionDoc.
         thenP (ExampleSuggestion_find (ws_id suggestionDoc)) (\<lambda>exampleSuggestions.
           thenP (Promise_all_map
                    (cascadeExampleSuggestion suggestionDoc originalWordDoc mergedBy)
                    exampleSuggestions)
             (\<lambda>_. WordSuggestion_save updatedSuggestionDoc)))"

text \<open>The promise chain of \<^verbatim>\<open>mergeIntoWord\<close> before its \<^verbatim>\<open>.catch\<close>.\<close>

definition mergeIntoWord_chain :: "wordSuggestion \<Rightarrow> string \<Rightarrow> wordDoc option promise" where
  "mergeIntoWord_chain suggestionDoc mergedBy =
     thenP (Word_findOneAndUpdate (idOf (originalWordId suggestionDoc)) suggestionDoc)
       (\<lambda>found.
         case found of
           None \<Rightarrow> reject (Error ''Word doesn't exist'')
         | Some originalWord \<Rightarrow>
             thenP (updateSuggestionAfterMerge suggestionDoc originalWord mergedBy) (\<lambda>_.
               thenP (findWordsWithMatch (idOf (originalWordId suggestionDoc))) (\<lambda>ws.
                 resolve (case ws of [] \<Rightarrow> None | w # _ \<Rightarrow> Some w))))"

definition mergeIntoWord :: "wordSuggestion \<Rightarrow> string \<Rightarrow> wordDoc option promise" where
  "mergeIntoWord suggestionDoc mergedBy =
     catchP (mergeIntoWord_chain suggestionDoc mergedBy)
       (\<lambda>error. reject (Error (message error)))"

definition createWordFromSuggestion :: "wordSuggestion \<Rightarrow> string \<Rightarrow> wordDoc option promise" where
  "createWordFromSuggestion suggestionDoc mergedBy =
     catchP
       (thenP (createWord (ws_data suggestionDoc) (ws_examples suggestionDoc)) (\<lambda>w.
          thenP (updateSuggestionAfterMerge suggestionDoc w mergedBy) (\<lambda>_. resolve (Some w))))
       (\<lambda>_. reject (Error ''An error occurred while saving the new word.''))"

text \<open>
  \<^verbatim>\<open>handleSendingMergedEmail(result)\<close>: reading a property of \<^verbatim>\<open>undefined\<close> throws a
  TypeError. The lookup of the user is awaited; \<^verbatim>\<open>sendMergedEmail\<close> is called and not
  awaited.
\<close>

definition handleSendingMergedEmail :: "wordDoc option \<Rightarrow> unit promise" where
  "handleSendingMergedEmail result =
     (case result of
        None \<Rightarrow> reject (TypeError ''Cannot read property 'authorId' of undefined'')
      | Some w \<Rightarrow>
          if truthy (word_authorId w)
          then thenP (findUser (idOf (word_authorId w))) (\<lambda>usr.
                 if truthy (email usr)
                 then (\<lambda>s. notAwaited
                         (sendMergedEmail
                            \<lparr>to = idOf (email usr),
                             suggestionType = ''word'',
                             submissionLink =
                               DICTIONARY_APP_URL s @ ''/word?word='' @ word (word_data w),
                             payload = w\<rparr>) s)
                 else resolve ())
          else resolve ())"

text \<open>
  \<^verbatim>\<open>mergeWord(req, res, next)\<close> with \<^verbatim>\<open>req.user.uid\<close> and \<^verbatim>\<open>req.suggestionDoc\<close>: \<open>Inr\<close> is
  what \<^verbatim>\<open>res.send\<close> receives, \<open>Inl\<close> what \<^verbatim>\<open>next\<close> receives.
\<close>

definition mergeWord :: "string \<Rightarrow> wordSuggestion \<Rightarrow> wordDoc option promise" where
  "mergeWord uid suggestionDoc =
     thenP (if truthy (originalWordId suggestionDoc)
            then mergeIntoWord suggestionDoc uid
            else createWordFromSuggestion suggestionDoc uid)
       (\<lambda>result. thenP (handleSendingMergedEmail result) (\<lambda>_. resolve result))"

definition findAndUpdateWord :: "string \<Rightarrow> (wordDoc \<Rightarrow> wordDoc promise) \<Rightarrow> wordDoc promise" where
  "findAndUpdateWord i cb =
     (if \<not> ObjectId_isValid (IdString i)
      then reject (Error (if i = [] then ''No word id provided'' else ''Invalid word id provided''))
      else thenP (Word_findById (IdString i)) (\<lambda>found.
             case found of
               None \<Rightarrow> reject (Error ''Word doesn't exist'')
             | Some w \<Rightarrow> cb w))"

text \<open>
  The callback of \<^verbatim>\<open>replaceWordIdsFromExampleAssociatedWords\<close> up to the save: \<^verbatim>\<open>newId\<close>
  is pushed, the entries whose text is the text of \<^verbatim>\<open>oldId\<close> are filtered out, and
  the rest is made unique by text.
\<close>

definition cleanedWordExample :: "ident \<Rightarrow> ident \<Rightarrow> example \<Rightarrow> example" where
  "cleanedWordExample oldId newId ex =
     ex\<lparr>example_data := (example_data ex)\<lparr>associatedWords :=
        uniqBy (filter (\<lambda>associatedWord. toString associatedWord \<noteq> toString oldId)
                  (associatedWords (example_data ex) @ [newId]))
          toString\<rparr>\<rparr>"

definition replaceWordIdsFromExampleAssociatedWords ::
  "example list \<Rightarrow> ident \<Rightarrow> ident \<Rightarrow> example list promise" where
  "replaceWordIdsFromExampleAssociatedWords examples oldId newId =
     Promise_all_map (\<lambda>ex. Example_save (cleanedWordExample oldId newId ex)) examples"

text \<open>
  \<^verbatim>\<open>deleteWord(req, res, next)\<close> with \<^verbatim>\<open>req.params.id\<close> and \<^verbatim>\<open>req.body.primaryWordId\<close>
  (the empty string stands for a missing \<^verbatim>\<open>primaryWordId\<close>: both are falsy and neither
  is a valid id). Destructuring the \<^verbatim>\<open>null\<close> of a word that is not found throws.
\<close>

definition deleteWord :: "string \<Rightarrow> string \<Rightarrow> wordDoc promise" where
  "deleteWord toBeDeletedWordId primaryWordId =
     thenP (Word_findById (IdString toBeDeletedWordId)) (\<lambda>found.
       case found of
         None \<Rightarrow> reject (TypeError ''Cannot destructure property 'word' of null'')
       | Some deleted \<Rightarrow>
           thenP (findExampleByAssociatedWordId toBeDeletedWordId) (\<lambda>toBeDeletedWordExamples.
             findAndUpdateWord primaryWordId (\<lambda>combineWord.
               let updatedWord = combineWord\<lparr>word_data := (word_data combineWord)
                     \<lparr>definitions := Some (uniqBy
                        (orEmpty (definitions (word_data combineWord))
                           @ orEmpty (definitions (word_data deleted))) (\<lambda>definition. definition)),
                      variations := Some (uniqBy
                        (orEmpty (variations (word_data combineWord))
                           @ orEmpty (variations (word_data deleted))
                           @ [word (word_data deleted)]) (\<lambda>variation. variation)),
                      stems := Some (uniqBy
                        (orEmpty (stems (word_data combineWord))
                           @ orEmpty (stems (word_data deleted))) (\<lambda>stem. stem))\<rparr>\<rparr>
               in thenP (Word_deleteOne toBeDeletedWordId) (\<lambda>_.
                    thenP (deleteWordSuggestionsByOriginalWordId toBeDeletedWordId) (\<lambda>_.
                      thenP (replaceWordIdsFromExampleAssociatedWords toBeDeletedWordExamples
                               (IdString toBeDeletedWordId) (IdString primaryWordId)) (\<lambda>_.
                        Word_save updatedWord))))))"

section \<open>A small dictionary\<close>

text \<open>
  The store used for the concrete runs. Three words, \<^verbatim>\<open>ji\<close>, \<^verbatim>\<open>ede\<close> and \<^verbatim>\<open>oke\<close>, the last
  one a document that carries an \<^verbatim>\<open>authorId\<close>; two examples that refer to \<^verbatim>\<open>ji\<close>; five
  word suggestions (two new words, and an edit of each of the three words) with their
  example suggestions; and four example suggestions of their own: one that lists an
  ObjectId object and a string of the same text, one without text, one that lists the
  same string twice and one that lists the same id twice as two ObjectId objects.
  \<open>id_JI\<close> is the id of \<^verbatim>\<open>ji\<close> written in upper case.
\<close>

definition id_ji :: string where "id_ji = ''aaaaaaaaaaaaaaaaaaaaaaaa''"
definition id_JI :: string where "id_JI = ''AAAAAAAAAAAAAAAAAAAAAAAA''"
definition id_ede :: string where "id_ede = ''bbbbbbbbbbbbbbbbbbbbbbbb''"
definition id_oke :: string where "id_oke = ''cccccccccccccccccccccccc''"
definition id_x1 :: string where "id_x1 = ''111111111111111111111111''"
definition id_x2 :: string where "id_x2 = ''222222222222222222222222''"
definition id_s1 :: string where "id_s1 = ''5a5a5a5a5a5a5a5a5a5a5a5a''"
definition id_s2 :: string where "id_s2 = ''5b5b5b5b5b5b5b5b5b5b5b5b''"
definition id_s3 :: string where "id_s3 = ''5c5c5c5c5c5c5c5c5c5c5c5c''"
definition id_s4 :: string where "id_s4 = ''5d5d5d5d5d5d5d5d5d5d5d5d''"
definition id_s5 :: string where "id_s5 = ''5e5e5e5e5e5e5e5e5e5e5e5e''"
definition id_e1 :: string where "id_e1 = ''e1e1e1e1e1e1e1e1e1e1e1e1''"
definition id_e2 :: string where "id_e2 = ''e2e2e2e2e2e2e2e2e2e2e2e2''"
definition id_e3 :: string where "id_e3 = ''e3e3e3e3e3e3e3e3e3e3e3e3''"
definition id_e4 :: string where "id_e4 = ''e4e4e4e4e4e4e4e4e4e4e4e4''"
definition id_e5 :: string where "id_e5 = ''e5e5e5e5e5e5e5e5e5e5e5e5''"
definition id_e6 :: string where "id_e6 = ''e6e6e6e6e6e6e6e6e6e6e6e6''"
definition id_e7 :: string where "id_e7 = ''e7e7e7e7e7e7e7e7e7e7e7e7''"
definition id_e8 :: string where "id_e8 = ''e8e8e8e8e8e8e8e8e8e8e8e8''"
definition id_e9 :: string where "id_e9 = ''e9e9e9e9e9e9e9e9e9e9e9e9''"
definition id_n0 :: string where "id_n0 = ''000000000000000000000c00''"
definition id_n1 :: string where "id_n1 = ''000000000000000000000c01''"
definition id_n2 :: string where "id_n2 = ''000000000000000000000c02''"
definition id_n3 :: string where "id_n3 = ''000000000000000000000c03''"

definition word_ji :: wordDoc where
  "word_ji = \<lparr>word_id = id_ji,
     word_data = \<lparr>word = ''ji'', wordClass = ''NNC'', definitions = Some [''yam''],
                  variations = Some [''jii''], stems = None\<rparr>,
     word_examples = [id_x1, id_x2], word_authorId = None\<rparr>"

definition word_ede :: wordDoc where
  "word_ede = \<lparr>word_id = id_ede,
     word_data = \<lparr>word = ''ede'', wordClass = ''NNC'', definitions = Some [''cocoyam'', ''yam''],
                  variations = None, stems = Some [''ede'']\<rparr>,
     word_examples = [], word_authorId = None\<rparr>"

definition word_oke :: wordDoc where
  "word_oke = \<lparr>word_id = id_oke,
     word_data = \<lparr>word = ''oke'', wordClass = ''NNC'', definitions = Some [''rat''],
                  variations = None, stems = None\<rparr>,
     word_examples = [], word_authorId = Some ''A1''\<rparr>"

definition example_x1 :: example where
  "example_x1 = \<lparr>example_id = id_x1,
     example_data = \<lparr>igbo = ''Ji di mma'', english = ''Yam is good'',
                     associatedWords = [ObjectId 0 id_ji, ObjectId 1 id_ede]\<rparr>\<rparr>"

definition example_x2 :: example where
  "example_x2 = \<lparr>example_id = id_x2,
     example_data = \<lparr>igbo = ''O riri ji'', english = ''He ate yam'',
                     associatedWords = [ObjectId 2 id_ji]\<rparr>\<rparr>"

definition suggestion_s1 :: wordSuggestion where
  "suggestion_s1 = \<lparr>ws_id = id_s1,
     ws_data = \<lparr>word = ''nri'', wordClass = ''NNC'', definitions = Some [''food''],
                variations = None, stems = None\<rparr>,
     ws_examples = [\<lparr>igbo = ''Ana m eri nri'', english = ''I am eating food'',
                     associatedWords = []\<rparr>],
     originalWordId = None, ws_authorId = Some ''A1'', ws_merged = None, ws_mergedBy = None\<rparr>"

definition suggestion_s2 :: wordSuggestion where
  "suggestion_s2 = \<lparr>ws_id = id_s2,
     ws_data = \<lparr>word = ''ji'', wordClass = ''NNC'', definitions = Some [''yam'', ''tuber''],
                variations = Some [''jii''], stems = None\<rparr>,
     ws_examples = [],
     originalWordId = Some id_ji, ws_authorId = Some ''A1'', ws_merged = None,
     ws_mergedBy = None\<rparr>"

definition suggestion_s3 :: wordSuggestion where
  "suggestion_s3 = \<lparr>ws_id = id_s3,
     ws_data = \<lparr>word = ''mmiri'', wordClass = ''NNC'', definitions = Some [''water''],
                variations = None, stems = None\<rparr>,
     ws_examples = [],
     originalWordId = None, ws_authorId = Some ''A2'', ws_merged = None, ws_mergedBy = None\<rparr>"

definition suggestion_s4 :: wordSuggestion where
  "suggestion_s4 = \<lparr>ws_id = id_s4,
     ws_data = \<lparr>word = ''ede'', wordClass = ''NNC'', definitions = Some [''cocoyam''],
                variations = None, stems = Some [''ede'']\<rparr>,
     ws_examples = [],
     originalWordId = Some id_ede, ws_authorId = Some ''A2'', ws_merged = None,
     ws_mergedBy = None\<rparr>"

definition suggestion_s5 :: wordSuggestion where
  "suggestion_s5 = \<lparr>ws_id = id_s5,
     ws_data = \<lparr>word = ''oke'', wordClass = ''NNC'', definitions = Some [''rat'', ''male''],
                variations = None, stems = None\<rparr>,
     ws_examples = [],
     originalWordId = Some id_oke, ws_authorId = Some ''A1'', ws_merged = None,
     ws_mergedBy = None\<rparr>"

definition esuggestion_e1 :: exampleSuggestion where
  "esuggestion_e1 = \<lparr>es_id = id_e1,
     es_data = \<lparr>igbo = ''Nri di'', english = ''There is food'',
                associatedWords = [IdString id_s1, ObjectId 3 id_ede]\<rparr>,
     originalExampleId = None, es_authorId = Some ''A1'', es_merged = None,
     es_mergedBy = None\<rparr>"

definition esuggestion_e2 :: exampleSuggestion where
  "esuggestion_e2 = \<lparr>es_id = id_e2,
     es_data = \<lparr>igbo = ''Ji di mma'', english = ''Yam is tasty'',
                associatedWords = [ObjectId 4 id_ji, IdString id_s2]\<rparr>,
     originalExampleId = Some id_x1, es_authorId = Some ''A1'', es_merged = None,
     es_mergedBy = None\<rparr>"

definition esuggestion_e3 :: exampleSuggestion where
  "esuggestion_e3 = \<lparr>es_id = id_e3,
     es_data = \<lparr>igbo = ''Ede di'', english = ''There is cocoyam'',
                associatedWords = [ObjectId 5 id_ede, IdString id_ede]\<rparr>,
     originalExampleId = None, es_authorId = None, es_merged = None, es_mergedBy = None\<rparr>"

definition esuggestion_e4 :: exampleSuggestion where
  "esuggestion_e4 = \<lparr>es_id = id_e4,
     es_data = \<lparr>igbo = ''Mmiri di'', english = ''There is water'',
                associatedWords = [IdString id_s3]\<rparr>,
     originalExampleId = None, es_authorId = None, es_merged = None, es_mergedBy = None\<rparr>"

definition esuggestion_e5 :: exampleSuggestion where
  "esuggestion_e5 = \<lparr>es_id = id_e5,
     es_data = \<lparr>igbo = [], english = [], associatedWords = [ObjectId 8 id_ede]\<rparr>,
     originalExampleId = None, es_authorId = None, es_merged = None, es_mergedBy = None\<rparr>"

definition esuggestion_e6 :: exampleSuggestion where
  "esuggestion_e6 = \<lparr>es_id = id_e6,
     es_data = \<lparr>igbo = ''Ede na ede'', english = ''Cocoyam and cocoyam'',
                associatedWords = [IdString id_ede, IdString id_ede]\<rparr>,
     originalExampleId = None, es_authorId = None, es_merged = None, es_mergedBy = None\<rparr>"

definition esuggestion_e7 :: exampleSuggestion where
  "esuggestion_e7 = \<lparr>es_id = id_e7,
     es_data = \<lparr>igbo = ''Ede abuo'', english = ''Two cocoyams'',
                associatedWords = [ObjectId 6 id_ede, ObjectId 7 id_ede]\<rparr>,
     originalExampleId = None, es_authorId = None, es_merged = None, es_mergedBy = None\<rparr>"

definition esuggestion_e8 :: exampleSuggestion where
  "esuggestion_e8 = \<lparr>es_id = id_e8,
     es_data = \<lparr>igbo = ''Ede di uto'', english = ''Cocoyam is sweet'',
                associatedWords = [IdString id_s4]\<rparr>,
     originalExampleId = None, es_authorId = None, es_merged = None, es_mergedBy = None\<rparr>"

definition esuggestion_e9 :: exampleSuggestion where
  "esuggestion_e9 = \<lparr>es_id = id_e9,
     es_data = \<lparr>igbo = ''Mmiri na-ezo'', english = ''It is raining'',
                associatedWords = [IdString id_s3]\<rparr>,
     originalExampleId = None, es_authorId = None, es_merged = None, es_mergedBy = None\<rparr>"

definition dictionary :: db where
  "dictionary = \<lparr>Words = [word_ji, word_ede, word_oke],
     Examples = [example_x1, example_x2],
     ExampleSuggestions =
       [esuggestion_e1, esuggestion_e2, esuggestion_e3, esuggestion_e4, esuggestion_e5,
        esuggestion_e6, esuggestion_e7, esuggestion_e8, esuggestion_e9],
     WordSuggestions =
       [suggestion_s1, suggestion_s2, suggestion_s3, suggestion_s4, suggestion_s5],
     faults = [],
     newObjectIds =
       (\<lambda>n. if n = 0 then id_n0 else if n = 1 then id_n1 else if n = 2 then id_n2 else id_n3),
     idCount = 0,
     castExampleRefs = (\<lambda>exs. if exs = [] then Inr [] else Inl castError),
     userDirectory = (\<lambda>uid. if uid = ''A1'' then \<lparr>email = Some ''a1@example.com''\<rparr>
                             else \<lparr>email = None\<rparr>),
     outbox = [],
     delivery = (\<lambda>m. if to m = ''a1@example.com'' then Some (Error ''mailbox unavailable'')
                      else None),
     DICTIONARY_APP_URL = ''https://dictionary.example''\<rparr>"







section \<open>Auxiliary notions\<close>

text \<open>
  A promise preserves a component of the store when no run of it changes that
  component. It shrinks the fault schedule when every refusal still scheduled after a
  run of it was scheduled before.
\<close>

definition preserves :: "(db \<Rightarrow> 'x) \<Rightarrow> 'a promise \<Rightarrow> bool" where
  "preserves g m \<longleftrightarrow> (\<forall>s. g (snd (m s)) = g s)"

definition shrinks :: "'a promise \<Rightarrow> bool" where
  "shrinks m \<longleftrightarrow> (\<forall>s. set (faults (snd (m s))) \<subseteq> set (faults s))"


definition validationErrors :: "jserror list" where
  "validationErrors =
     [Error ''There is no associated example suggestion, double check your provided data'',
      Error ''Required information is missing, double check your provided data'',
      Error ''Invalid id found in associatedWords'',
      Error ''Example suggestion associated words can only contain Word ids before merging'',
      Error ''Duplicates are not allows in associated words'']"


text \<open>
  For the cascade of \<^verbatim>\<open>updateSuggestionAfterMerge\<close>. A run from \<open>s\<close> to \<open>s'\<close> touches
  the Example Suggestion \<open>i\<close> with the data \<open>dat\<close> when every other Example Suggestion
  is stored as before and every Example that was stored is still stored, as it was or
  with the data \<open>dat\<close>. A list of associated words is relinked when it has no entry
  with the text of the suggestion's id and an entry with the text of the word's id.
  The Example Suggestion \<open>i\<close> is cascaded in \<open>s\<close> when it is stored as one of the
  suggestions found, with the suggestion's id removed and the word's id included,
  stamped with the merger and with the id of a stored Example whose list is relinked.
\<close>

definition touches :: "string \<Rightarrow> exampleData \<Rightarrow> db \<Rightarrow> db \<Rightarrow> bool" where
  "touches i dat s s' \<longleftrightarrow>
     (\<forall>j. j \<noteq> i \<longrightarrow>
        findDoc es_id (ExampleSuggestions s') j = findDoc es_id (ExampleSuggestions s) j) \<and>
     (\<forall>j ex. findDoc example_id (Examples s) j = Some ex \<longrightarrow>
        (\<exists>ex'. findDoc example_id (Examples s') j = Some ex' \<and>
               (ex' = ex \<or> example_data ex' = dat)))"

definition relinked :: "wordSuggestion \<Rightarrow> wordDoc \<Rightarrow> exampleData \<Rightarrow> bool" where
  "relinked suggestionDoc originalWordDoc dat \<longleftrightarrow>
     ws_id suggestionDoc \<notin> toString ` set (associatedWords dat) \<and>
     word_id originalWordDoc \<in> toString ` set (associatedWords dat)"

definition cascaded ::
  "wordSuggestion \<Rightarrow> wordDoc \<Rightarrow> string \<Rightarrow> exampleSuggestion list \<Rightarrow> db \<Rightarrow> string \<Rightarrow> bool" where
  "cascaded suggestionDoc originalWordDoc mergedBy found s i \<longleftrightarrow>
     (\<exists>E exid ex. E \<in> set found \<and> es_id E = i \<and>
        findDoc es_id (ExampleSuggestions s) i =
          Some ((removeSuggestionAssociatedIds suggestionDoc originalWordDoc E)
                  \<lparr>es_merged := Some exid, es_mergedBy := Some mergedBy\<rparr>) \<and>
        findDoc example_id (Examples s) exid = Some ex \<and>
        relinked suggestionDoc originalWordDoc (example_data ex))"

section \<open>Properties of \<open>uniqBy\<close>\<close>

lemma uniqBy_seen_subset: "set (uniqBy_seen seen xs f) \<subseteq> set xs"
  by (induction xs arbitrary: seen) auto

lemma uniqBy_seen_keys: "f ` set (uniqBy_seen seen xs f) = f ` set xs - set seen"
  by (induction xs arbitrary: seen) auto

lemma uniqBy_seen_distinct: "distinct (map f (uniqBy_seen seen xs f))"
proof (induction xs arbitrary: seen)
  case Nil
  then show ?case by simp
next
  case (Cons x xs)
  have "f x \<notin> f ` set (uniqBy_seen (f x # seen) xs f)"
    by (simp add: uniqBy_seen_keys)
  with Cons show ?case by simp
qed

lemma uniqBy_seen_fixed:
  "distinct (map f xs) \<Longrightarrow> f ` set xs \<inter> set seen = {} \<Longrightarrow> uniqBy_seen seen xs f = xs"
  by (induction xs arbitrary: seen) auto

lemma uniqBy_seen_snoc:
  "f n \<in> set seen \<union> f ` set xs \<Longrightarrow> uniqBy_seen seen (xs @ [n]) f = uniqBy_seen seen xs f"
  by (induction xs arbitrary: seen) auto

lemma remdups_snoc: "remdups (ys @ [x]) = filter (\<lambda>y. y \<noteq> x) (remdups ys) @ [x]"
  by (induction ys) auto

lemma uniqBy_seen_first_seen:
  "uniqBy_seen seen xs (\<lambda>x. x) = filter (\<lambda>x. x \<notin> set seen) (rev (remdups (rev xs)))"
proof (induction xs arbitrary: seen)
  case Nil
  then show ?case by simp
next
  case (Cons x xs)
  have r: "rev (remdups (rev xs @ [x])) = x # filter (\<lambda>y. y \<noteq> x) (rev (remdups (rev xs)))"
    by (simp add: remdups_snoc rev_filter)
  show ?case
  proof (cases "x \<in> set seen")
    case True
    have "filter (\<lambda>y. y \<notin> set seen) (filter (\<lambda>y. y \<noteq> x) (rev (remdups (rev xs))))
        = filter (\<lambda>y. y \<notin> set seen) (rev (remdups (rev xs)))"
      using True by (auto intro: filter_cong)
    with True Cons show ?thesis by (simp add: r)
  next
    case False
    have "filter (\<lambda>y. y \<notin> set seen) (filter (\<lambda>y. y \<noteq> x) (rev (remdups (rev xs))))
        = filter (\<lambda>y. y \<notin> set (x # seen)) (rev (remdups (rev xs)))"
      by (auto intro: filter_cong)
    with False Cons show ?thesis by (simp add: r)
  qed
qed

lemma uniqBy_first_seen_union: "uniqBy (xs @ ys) (\<lambda>x. x) = first_seen_union xs ys"
  by (simp add: uniqBy_def first_seen_union_def uniqBy_seen_first_seen)

lemma uniqBy_seen_length: "length (uniqBy_seen seen xs f) \<le> length xs"
  by (induction xs arbitrary: seen) (auto intro: le_SucI)

lemma uniqBy_seen_length_eq:
  "length (uniqBy_seen seen xs f) = length xs
     \<longleftrightarrow> distinct (map f xs) \<and> f ` set xs \<inter> set seen = {}"
proof (induction xs arbitrary: seen)
  case Nil
  then show ?case by simp
next
  case (Cons x xs)
  have l: "length (uniqBy_seen seen xs f) \<le> length xs" for seen
    by (rule uniqBy_seen_length)
  show ?case
  proof (cases "f x \<in> set seen")
    case True
    then show ?thesis using l[of seen] by auto
  next
    case False
    then show ?thesis using Cons[of "f x # seen"] by auto
  qed
qed

lemma uniq_length_distinct: "length xs \<noteq> length (uniq xs) \<longleftrightarrow> \<not> distinct xs"
  using uniqBy_seen_length_eq[of "[]" xs "\<lambda>x. x"] by (auto simp: uniq_def uniqBy_def)

section \<open>Properties of promises and of the store operations\<close>

lemma thenP_Inr:
  "thenP m f s = (Inr b, s') \<longleftrightarrow> (\<exists>a s1. m s = (Inr a, s1) \<and> f a s1 = (Inr b, s'))"
  by (auto simp: thenP_def split: prod.splits sum.splits)


lemma commit_Inr: "commit s = (Inr u, s') \<Longrightarrow> \<exists>fs. s' = s\<lparr>faults := fs\<rparr>"
  by (auto simp: commit_def split: list.splits option.splits intro: exI[of _ "faults s"])

lemma find_snoc:
  "find P (xs @ [y]) =
     (case find P xs of Some x \<Rightarrow> Some x | None \<Rightarrow> if P y then Some y else None)"
  by (induction xs) auto

lemma findDoc_replaceDoc:
  "findDoc key (replaceDoc key d c) i =
     (if i = key d \<and> findDoc key c i \<noteq> None then Some d else findDoc key c i)"
  by (induction c) (auto simp: findDoc_def)

lemma findDoc_append:
  "findDoc key (c @ [d]) i =
     (case findDoc key c i of Some x \<Rightarrow> Some x | None \<Rightarrow> if key d = i then Some d else None)"
  by (induction c) (auto simp: findDoc_def)

lemma findDoc_removeDoc:
  "findDoc key (removeDoc key j c) i = (if i = j then None else findDoc key c i)"
  by (induction c) (auto simp: findDoc_def removeDoc_def)

lemma findDoc_Some_key: "findDoc key c i = Some d \<Longrightarrow> key d = i \<and> d \<in> set c"
  by (induction c) (auto simp: findDoc_def split: if_splits)

lemma findDoc_None_iff: "findDoc key c i = None \<longleftrightarrow> i \<notin> key ` set c"
  by (induction c) (auto simp: findDoc_def)

lemma Example_save_Inr:
  "Example_save d s = (Inr r, s') \<Longrightarrow>
     r = d \<and> findDoc example_id (Examples s) (example_id d) \<noteq> None \<and>
     (\<exists>fs. s' = s\<lparr>faults := fs, Examples := replaceDoc example_id d (Examples s)\<rparr>)"
  unfolding Example_save_def thenP_Inr
  by (auto split: if_splits dest!: commit_Inr)

lemma Promise_all_map_Inr:
  "Promise_all_map f (x # xs) s = (Inr rs, s') \<longleftrightarrow>
     (\<exists>y s1 ys. f x s = (Inr y, s1) \<and> Promise_all_map f xs s1 = (Inr ys, s') \<and> rs = y # ys)"
  by (auto split: prod.splits sum.splits)


lemma Promise_all_map_snd:
  "snd (Promise_all_map f (x # xs) s) = snd (Promise_all_map f xs (snd (f x s)))"
  by (simp split: prod.splits)


lemma Promise_all_map_map:
  "Promise_all_map (\<lambda>x. f (g x)) xs s = Promise_all_map f (map g xs) s"
  by (induction xs arbitrary: s) simp_all

lemma save_all_lookup:
  "Promise_all_map Example_save ds s = (Inr rs, s') \<Longrightarrow>
     rs = ds \<and>
     (\<forall>i. findDoc example_id (Examples s') i =
        (case find (\<lambda>d. example_id d = i) (rev ds) of
           Some d \<Rightarrow> Some d | None \<Rightarrow> findDoc example_id (Examples s) i))"
proof (induction ds arbitrary: s rs)
  case Nil
  then show ?case by simp
next
  case (Cons d ds)
  from Cons.prems obtain r s1 rs' where
    1: "Example_save d s = (Inr r, s1)" and 2: "Promise_all_map Example_save ds s1 = (Inr rs', s')"
    and 3: "rs = r # rs'"
    unfolding Promise_all_map_Inr by blast
  from Example_save_Inr[OF 1] have r: "r = d"
    and ex: "findDoc example_id (Examples s) (example_id d) \<noteq> None"
    and s1: "Examples s1 = replaceDoc example_id d (Examples s)"
    by auto
  from Cons.IH[OF 2] have rs': "rs' = ds"
    and look: "\<And>i. findDoc example_id (Examples s') i =
        (case find (\<lambda>d. example_id d = i) (rev ds) of
           Some d \<Rightarrow> Some d | None \<Rightarrow> findDoc example_id (Examples s1) i)"
    by auto
  show ?case
    using ex by (auto simp: 3 r rs' look s1 findDoc_replaceDoc find_snoc split: option.splits)
qed

lemma settled: "fst p = a \<Longrightarrow> p = (a, snd p)"
  by (cases p) simp


lemma castIdent_valid: "castIdent a \<noteq> None \<longleftrightarrow> ObjectId_isValid a"
  by (cases a) (auto simp: castObjectId_def)
section \<open>The cross-reference relinker\<close>

lemma relink_list_idem:
  "uniqBy (filter (\<lambda>a. toString a \<noteq> toString oldId)
       (uniqBy (filter (\<lambda>a. toString a \<noteq> toString oldId) (L @ [newId])) toString @ [newId]))
     toString
   = uniqBy (filter (\<lambda>a. toString a \<noteq> toString oldId) (L @ [newId])) toString"
proof -
  define p where "p = (\<lambda>a. toString a \<noteq> toString oldId)"
  define M where "M = uniqBy (filter p (L @ [newId])) toString"
  have d: "distinct (map toString M)"
    by (simp add: M_def uniqBy_def uniqBy_seen_distinct)
  have sub: "set M \<subseteq> set (filter p (L @ [newId]))"
    unfolding M_def uniqBy_def by (rule uniqBy_seen_subset)
  have "p x" if "x \<in> set M" for x
    using subsetD[OF sub that] by (auto split: if_splits)
  then have allp: "filter p M = M"
    by (simp add: filter_id_conv)
  have keys: "toString ` set M = toString ` set (filter p (L @ [newId]))"
    unfolding M_def uniqBy_def using uniqBy_seen_keys[of toString "[]"] by simp
  have same: "uniqBy M toString = M"
    unfolding uniqBy_def using d by (intro uniqBy_seen_fixed) auto
  have "uniqBy (filter p (M @ [newId])) toString = M"
  proof (cases "p newId")
    case True
    then have "toString newId \<in> toString ` set M"
      unfolding keys by simp
    then have "uniqBy (M @ [newId]) toString = uniqBy M toString"
      unfolding uniqBy_def by (intro uniqBy_seen_snoc) simp
    also note same
    finally show ?thesis
      by (simp add: True allp)
  next
    case False
    then show ?thesis
      by (simp add: allp same)
  qed
  then show ?thesis
    unfolding M_def p_def .
qed

lemma cleanedWordExample_idem:
  "cleanedWordExample oldId newId (cleanedWordExample oldId newId ex)
     = cleanedWordExample oldId newId ex"
  unfolding cleanedWordExample_def
  by (simp del: filter_append add: relink_list_idem)

lemma relinker_saved:
  assumes "replaceWordIdsFromExampleAssociatedWords examples oldId newId s = (Inr saved, s')"
  shows "saved = map (cleanedWordExample oldId newId) examples"
    and "\<And>i. findDoc example_id (Examples s') i =
        (case find (\<lambda>d. example_id d = i) (rev saved) of
           Some d \<Rightarrow> Some d | None \<Rightarrow> findDoc example_id (Examples s) i)"
proof -
  from assms have
    "Promise_all_map Example_save (map (cleanedWordExample oldId newId) examples) s = (Inr saved, s')"
    by (simp add: replaceWordIdsFromExampleAssociatedWords_def Promise_all_map_map)
  from save_all_lookup[OF this]
  show "saved = map (cleanedWordExample oldId newId) examples"
    and "\<And>i. findDoc example_id (Examples s') i =
        (case find (\<lambda>d. example_id d = i) (rev saved) of
           Some d \<Rightarrow> Some d | None \<Rightarrow> findDoc example_id (Examples s) i)"
    by auto
qed

lemma find_Some_set: "find P xs = Some x \<Longrightarrow> x \<in> set xs \<and> P x"
  by (induction xs) (auto split: if_splits)

lemma find_rev_member:
  assumes "d \<in> set ds"
  shows "\<exists>d' \<in> set ds. key d' = key d \<and> find (\<lambda>x. key x = key d) (rev ds) = Some d'"
proof -
  from assms have "find (\<lambda>x. key x = key d) (rev ds) \<noteq> None"
    by (auto simp: find_None_iff)
  then obtain d' where f: "find (\<lambda>x. key x = key d) (rev ds) = Some d'"
    by auto
  from find_Some_set[OF f] have "d' \<in> set ds \<and> key d' = key d"
    by simp
  with f show ?thesis by auto
qed

lemma distinct_map_same_key:
  "distinct (map f xs) \<Longrightarrow> x \<in> set xs \<Longrightarrow> y \<in> set xs \<Longrightarrow> f x = f y \<Longrightarrow> x = y"
  by (auto simp: distinct_map dest: inj_onD)

lemma cleanedWordExample_id: "example_id (cleanedWordExample oldId newId ex) = example_id ex"
  by (simp add: cleanedWordExample_def)


text \<open>
  Claim C4. For every call of \<^verbatim>\<open>replaceWordIdsFromExampleAssociatedWords\<close> that resolves,
  the documents saved are the given examples, each with its associated-word list
  replaced by the result of appending \<^verbatim>\<open>newId\<close>, removing every entry whose text equals
  the text of \<^verbatim>\<open>oldId\<close>, and making the rest unique by text; under the id of every
  given example the store then holds such a document (that of the example itself when
  the given examples have different ids), and what is stored under any other id is as
  before. The operation is idempotent: it leaves the saved documents as they are, and a
  second call with the same pair on them that resolves returns the same documents and
  leaves every example of the store as the first call left it.
\<close>

theorem relinker_contract_idempotent:
  "replaceWordIdsFromExampleAssociatedWords examples oldId newId s = (Inr saved, s1) \<longrightarrow>
     saved = map (cleanedWordExample oldId newId) examples \<and>
     map (\<lambda>ex. associatedWords (example_data ex)) saved =
       map (\<lambda>ex. uniqBy (filter (\<lambda>associatedWord. toString associatedWord \<noteq> toString oldId)
                           (associatedWords (example_data ex) @ [newId])) toString) examples \<and>
     (\<forall>ex \<in> set examples. \<exists>ex0 \<in> set examples.
        example_id ex0 = example_id ex \<and>
        findDoc example_id (Examples s1) (example_id ex)
          = Some (cleanedWordExample oldId newId ex0)) \<and>
     (distinct (map example_id examples) \<longrightarrow>
        (\<forall>ex \<in> set examples.
           findDoc example_id (Examples s1) (example_id ex)
             = Some (cleanedWordExample oldId newId ex))) \<and>
     (\<forall>i. i \<notin> example_id ` set examples \<longrightarrow>
        findDoc example_id (Examples s1) i = findDoc example_id (Examples s) i) \<and>
     map (cleanedWordExample oldId newId) saved = saved \<and>
     (\<forall>saved2 s2.
        replaceWordIdsFromExampleAssociatedWords saved oldId newId s1 = (Inr saved2, s2) \<longrightarrow>
          saved2 = saved \<and> findDoc example_id (Examples s2) = findDoc example_id (Examples s1))"
proof (intro impI)
  assume a: "replaceWordIdsFromExampleAssociatedWords examples oldId newId s = (Inr saved, s1)"
  let ?c = "cleanedWordExample oldId newId"
  note saved = relinker_saved(1)[OF a] and look1 = relinker_saved(2)[OF a]
  have mapfix: "map ?c saved = saved"
    by (simp add: saved cleanedWordExample_idem)
  have lists: "map (\<lambda>ex. associatedWords (example_data ex)) saved =
       map (\<lambda>ex. uniqBy (filter (\<lambda>associatedWord. toString associatedWord \<noteq> toString oldId)
                           (associatedWords (example_data ex) @ [newId])) toString) examples"
    by (simp add: saved cleanedWordExample_def)
  have stored: "\<exists>ex0 \<in> set examples. example_id ex0 = example_id ex \<and>
        findDoc example_id (Examples s1) (example_id ex) = Some (?c ex0)"
    if "ex \<in> set examples" for ex
  proof -
    from that have "?c ex \<in> set saved" by (simp add: saved)
    from find_rev_member[OF this, of example_id]
    obtain d where d: "d \<in> set saved" and k: "example_id d = example_id ex"
      and f: "find (\<lambda>x. example_id x = example_id ex) (rev saved) = Some d"
      by (auto simp: cleanedWordExample_id)
    from d obtain ex0 where ex0: "ex0 \<in> set examples" and dd: "d = ?c ex0"
      by (auto simp: saved)
    from k have "example_id ex0 = example_id ex"
      by (simp add: dd cleanedWordExample_id)
    moreover from f have "findDoc example_id (Examples s1) (example_id ex) = Some (?c ex0)"
      by (simp add: look1 dd)
    ultimately show ?thesis using ex0 by blast
  qed
  have own: "findDoc example_id (Examples s1) (example_id ex) = Some (?c ex)"
    if dist: "distinct (map example_id examples)" and ex: "ex \<in> set examples" for ex
  proof -
    from stored[OF ex] obtain ex0 where ex0: "ex0 \<in> set examples"
      and k: "example_id ex0 = example_id ex"
      and f: "findDoc example_id (Examples s1) (example_id ex) = Some (?c ex0)"
      by blast
    from distinct_map_same_key[OF dist ex0 ex k] f show ?thesis by simp
  qed
  have other: "findDoc example_id (Examples s1) i = findDoc example_id (Examples s) i"
    if "i \<notin> example_id ` set examples" for i
  proof -
    from that have "find (\<lambda>d. example_id d = i) (rev saved) = None"
      by (auto simp: find_None_iff saved cleanedWordExample_id)
    then show ?thesis by (simp add: look1)
  qed
  have twice: "saved2 = saved \<and> findDoc example_id (Examples s2) = findDoc example_id (Examples s1)"
    if b: "replaceWordIdsFromExampleAssociatedWords saved oldId newId s1 = (Inr saved2, s2)"
    for saved2 s2
  proof -
    note saved2 = relinker_saved(1)[OF b] and look2 = relinker_saved(2)[OF b]
    have eq: "saved2 = saved" by (simp add: saved2 mapfix)
    have "findDoc example_id (Examples s2) i = findDoc example_id (Examples s1) i" for i
      by (simp add: look2 look1 eq split: option.splits)
    with eq show ?thesis by auto
  qed
  show "saved = map ?c examples \<and>
     map (\<lambda>ex. associatedWords (example_data ex)) saved =
       map (\<lambda>ex. uniqBy (filter (\<lambda>associatedWord. toString associatedWord \<noteq> toString oldId)
                           (associatedWords (example_data ex) @ [newId])) toString) examples \<and>
     (\<forall>ex \<in> set examples. \<exists>ex0 \<in> set examples.
        example_id ex0 = example_id ex \<and>
        findDoc example_id (Examples s1) (example_id ex) = Some (?c ex0)) \<and>
     (distinct (map example_id examples) \<longrightarrow>
        (\<forall>ex \<in> set examples.
           findDoc example_id (Examples s1) (example_id ex) = Some (?c ex))) \<and>
     (\<forall>i. i \<notin> example_id ` set examples \<longrightarrow>
        findDoc example_id (Examples s1) i = findDoc example_id (Examples s) i) \<and>
     map ?c saved = saved \<and>
     (\<forall>saved2 s2.
        replaceWordIdsFromExampleAssociatedWords saved oldId newId s1 = (Inr saved2, s2) \<longrightarrow>
          saved2 = saved \<and> findDoc example_id (Examples s2) = findDoc example_id (Examples s1))"
  proof (intro conjI allI impI ballI)
    show "saved = map ?c examples" by (rule saved)
    show "map (\<lambda>ex. associatedWords (example_data ex)) saved =
       map (\<lambda>ex. uniqBy (filter (\<lambda>associatedWord. toString associatedWord \<noteq> toString oldId)
                           (associatedWords (example_data ex) @ [newId])) toString) examples"
      by (rule lists)
    show "map ?c saved = saved" by (rule mapfix)
  next
    fix ex assume "ex \<in> set examples"
    then show "\<exists>ex0 \<in> set examples. example_id ex0 = example_id ex \<and>
        findDoc example_id (Examples s1) (example_id ex) = Some (?c ex0)"
      by (rule stored)
  next
    fix ex assume "distinct (map example_id examples)" "ex \<in> set examples"
    then show "findDoc example_id (Examples s1) (example_id ex) = Some (?c ex)"
      by (rule own)
  next
    fix i assume "i \<notin> example_id ` set examples"
    then show "findDoc example_id (Examples s1) i = findDoc example_id (Examples s) i"
      by (rule other)
  next
    fix saved2 s2
    assume b: "replaceWordIdsFromExampleAssociatedWords saved oldId newId s1 = (Inr saved2, s2)"
    from twice[OF b] show "saved2 = saved" by (rule conjunct1)
    from twice[OF b] show "findDoc example_id (Examples s2) = findDoc example_id (Examples s1)"
      by (rule conjunct2)
  qed
qed

theorem relinker_contract_idempotent_witness:
  "\<exists>saved s1 s2.
     replaceWordIdsFromExampleAssociatedWords [example_x1, example_x2]
       (IdString id_ji) (IdString id_ede) dictionary = (Inr saved, s1) \<and>
     distinct (map example_id [example_x1, example_x2]) \<and>
     replaceWordIdsFromExampleAssociatedWords saved (IdString id_ji) (IdString id_ede) s1
       = (Inr saved, s2) \<and>
     map (\<lambda>ex. associatedWords (example_data ex)) saved
       = [[ObjectId 1 id_ede], [IdString id_ede]] \<and>
     findDoc example_id (Examples s1) id_x1
       = Some (example_x1\<lparr>example_data :=
                 (example_data example_x1)\<lparr>associatedWords := [ObjectId 1 id_ede]\<rparr>\<rparr>) \<and>
     findDoc example_id (Examples s1) id_x2
       = Some (example_x2\<lparr>example_data :=
                 (example_data example_x2)\<lparr>associatedWords := [IdString id_ede]\<rparr>\<rparr>) \<and>
     findDoc example_id (Examples s2) = findDoc example_id (Examples s1)"
proof -
  let ?run = "replaceWordIdsFromExampleAssociatedWords [example_x1, example_x2]
       (IdString id_ji) (IdString id_ede) dictionary"
  let ?c = "cleanedWordExample (IdString id_ji) (IdString id_ede)"
  let ?saved = "map ?c [example_x1, example_x2]"
  have "fst ?run = Inr ?saved"
    by code_simp
  then have run1: "?run = (Inr ?saved, snd ?run)"
    by (rule settled)
  let ?run2 = "replaceWordIdsFromExampleAssociatedWords ?saved (IdString id_ji) (IdString id_ede)
       (snd ?run)"
  have "fst ?run2 = Inr ?saved"
    by code_simp
  then have run2: "?run2 = (Inr ?saved, snd ?run2)"
    by (rule settled)
  have dist: "distinct (map example_id [example_x1, example_x2])"
    by code_simp
  have lists: "map (\<lambda>ex. associatedWords (example_data ex)) ?saved
       = [[ObjectId 1 id_ede], [IdString id_ede]]"
    by code_simp
  note t = relinker_contract_idempotent[of "[example_x1, example_x2]" "IdString id_ji"
      "IdString id_ede" dictionary ?saved "snd ?run", THEN mp, OF run1]
  note own = t[THEN conjunct2, THEN conjunct2, THEN conjunct2, THEN conjunct1, THEN mp, OF dist,
      rule_format]
  have c1: "?c example_x1 = example_x1\<lparr>example_data :=
                 (example_data example_x1)\<lparr>associatedWords := [ObjectId 1 id_ede]\<rparr>\<rparr>"
    by code_simp
  have c2: "?c example_x2 = example_x2\<lparr>example_data :=
                 (example_data example_x2)\<lparr>associatedWords := [IdString id_ede]\<rparr>\<rparr>"
    by code_simp
  have k1: "example_id example_x1 = id_x1" and k2: "example_id example_x2 = id_x2"
    by (simp_all add: example_x1_def example_x2_def)
  have st1: "findDoc example_id (Examples (snd ?run)) id_x1
       = Some (example_x1\<lparr>example_data :=
                 (example_data example_x1)\<lparr>associatedWords := [ObjectId 1 id_ede]\<rparr>\<rparr>)"
    using own[of example_x1] unfolding c1 k1 by simp
  have st2: "findDoc example_id (Examples (snd ?run)) id_x2
       = Some (example_x2\<lparr>example_data :=
                 (example_data example_x2)\<lparr>associatedWords := [IdString id_ede]\<rparr>\<rparr>)"
    using own[of example_x2] unfolding c2 k2 by simp
  note same = t[THEN conjunct2, THEN conjunct2, THEN conjunct2, THEN conjunct2, THEN conjunct2,
      THEN conjunct2, rule_format, OF run2, THEN conjunct2]
  show ?thesis
    apply (rule exI[of _ ?saved])
    apply (rule exI[of _ "snd ?run"])
    apply (rule exI[of _ "snd ?run2"])
    apply (intro conjI)
          apply (rule run1)
         apply (rule dist)
        apply (rule run2)
       apply (rule lists)
      apply (rule st1)
     apply (rule st2)
    apply (rule same)
    done
qed

lemma cleanedWordExample_same_text:
  assumes "toString oldId = toString newId"
  shows "associatedWords (example_data (cleanedWordExample oldId newId ex)) =
           uniqBy (filter (\<lambda>associatedWord. toString associatedWord \<noteq> toString oldId)
                     (associatedWords (example_data ex))) toString"
    and "toString newId \<notin> toString ` set (associatedWords (example_data (cleanedWordExample oldId newId ex)))"
proof -
  show 1: "associatedWords (example_data (cleanedWordExample oldId newId ex)) =
           uniqBy (filter (\<lambda>associatedWord. toString associatedWord \<noteq> toString oldId)
                     (associatedWords (example_data ex))) toString"
    using assms by (simp add: cleanedWordExample_def)
  have "set (uniqBy (filter (\<lambda>a. toString a \<noteq> toString oldId) (associatedWords (example_data ex))) toString)
      \<subseteq> set (filter (\<lambda>a. toString a \<noteq> toString oldId) (associatedWords (example_data ex)))"
    unfolding uniqBy_def by (rule uniqBy_seen_subset)
  then show "toString newId \<notin> toString ` set (associatedWords (example_data (cleanedWordExample oldId newId ex)))"
    unfolding 1 using assms by auto
qed

text \<open>
  Claim C9. When the texts of \<^verbatim>\<open>oldId\<close> and \<^verbatim>\<open>newId\<close> are equal, the relinker removes
  every occurrence of that identifier, the \<^verbatim>\<open>newId\<close> it has just appended included
  (the append comes before the filter): each saved list is the old list without the
  entries of that text, made unique, and every example given is stored afterwards with
  no reference to the word at all.
\<close>

theorem relink_to_itself_leaves_no_reference:
  assumes same: "toString oldId = toString newId"
    and run: "replaceWordIdsFromExampleAssociatedWords examples oldId newId s = (Inr saved, s')"
  shows "map (\<lambda>ex. associatedWords (example_data ex)) saved =
           map (\<lambda>ex. uniqBy (filter (\<lambda>associatedWord. toString associatedWord \<noteq> toString oldId)
                               (associatedWords (example_data ex))) toString) examples \<and>
         (\<forall>ex \<in> set examples. \<exists>stored.
            findDoc example_id (Examples s') (example_id ex) = Some stored \<and>
            (\<forall>associatedWord \<in> set (associatedWords (example_data stored)).
               toString associatedWord \<noteq> toString newId \<and>
               toString associatedWord \<noteq> toString oldId))"
proof (intro conjI ballI)
  let ?c = "cleanedWordExample oldId newId"
  note saved = relinker_saved(1)[OF run] and look = relinker_saved(2)[OF run]
  show "map (\<lambda>ex. associatedWords (example_data ex)) saved =
           map (\<lambda>ex. uniqBy (filter (\<lambda>associatedWord. toString associatedWord \<noteq> toString oldId)
                               (associatedWords (example_data ex))) toString) examples"
    by (simp add: saved cleanedWordExample_same_text(1)[OF same])
  fix ex assume "ex \<in> set examples"
  then have "?c ex \<in> set saved" by (simp add: saved)
  from find_rev_member[OF this, of example_id]
  obtain d where d: "d \<in> set saved"
    and f: "find (\<lambda>x. example_id x = example_id (?c ex)) (rev saved) = Some d"
    by auto
  have id: "example_id (?c ex) = example_id ex"
    by (simp add: cleanedWordExample_def)
  from f have stored: "findDoc example_id (Examples s') (example_id ex) = Some d"
    by (simp add: look id)
  from d obtain ex0 where "d = ?c ex0"
    by (auto simp: saved)
  with cleanedWordExample_same_text(2)[OF same, of ex0]
  have "\<forall>associatedWord \<in> set (associatedWords (example_data d)).
               toString associatedWord \<noteq> toString newId \<and>
               toString associatedWord \<noteq> toString oldId"
    using same by (metis imageI)
  with stored show "\<exists>stored.
            findDoc example_id (Examples s') (example_id ex) = Some stored \<and>
            (\<forall>associatedWord \<in> set (associatedWords (example_data stored)).
               toString associatedWord \<noteq> toString newId \<and>
               toString associatedWord \<noteq> toString oldId)"
    by blast
qed

theorem relink_to_itself_leaves_no_reference_witness:
  "toString (IdString id_ji) = toString (ObjectId 0 id_ji) \<and>
   (\<exists>saved s'.
      replaceWordIdsFromExampleAssociatedWords [example_x1, example_x2]
        (IdString id_ji) (ObjectId 0 id_ji) dictionary = (Inr saved, s') \<and>
      map (\<lambda>ex. associatedWords (example_data ex)) saved = [[ObjectId 1 id_ede], []])"
proof -
  let ?run = "replaceWordIdsFromExampleAssociatedWords [example_x1, example_x2]
        (IdString id_ji) (ObjectId 0 id_ji) dictionary"
  let ?saved = "map (cleanedWordExample (IdString id_ji) (ObjectId 0 id_ji)) [example_x1, example_x2]"
  have same: "toString (IdString id_ji) = toString (ObjectId 0 id_ji)"
    by simp
  have "fst ?run = Inr ?saved"
    by code_simp
  then have run: "?run = (Inr ?saved, snd ?run)"
    by (rule settled)
  have "map (\<lambda>ex. uniqBy (filter (\<lambda>associatedWord. toString associatedWord \<noteq> toString (IdString id_ji))
                               (associatedWords (example_data ex))) toString) [example_x1, example_x2]
          = [[ObjectId 1 id_ede], []]"
    by code_simp
  with relink_to_itself_leaves_no_reference[OF same run, THEN conjunct1]
  have lists: "map (\<lambda>ex. associatedWords (example_data ex)) ?saved = [[ObjectId 1 id_ede], []]"
    by (rule trans)
  show ?thesis
    apply (rule conjI)
     apply (rule same)
    apply (rule exI[of _ ?saved])
    apply (rule exI[of _ "snd ?run"])
    apply (rule conjI)
     apply (rule run)
    apply (rule lists)
    done
qed

section \<open>The example merge engine\<close>

text \<open>
  Claim C10. The duplicate check of \<^verbatim>\<open>executeMergeExample\<close> compares the entries
  themselves (lodash \<^verbatim>\<open>uniq\<close>), not their texts: the suggestion \<open>esuggestion_e3\<close> lists an
  ObjectId object and a string with the same text, \<^verbatim>\<open>uniq\<close> keeps both, no duplicate
  error is raised and the merge resolves with an example that holds both entries,
  although \<^verbatim>\<open>uniqBy\<close> by text, which the relinker uses, keeps only one of the two.
\<close>

theorem duplicate_check_by_element_equality:
  "\<exists>a b.
     a \<noteq> b \<and> toString a = toString b \<and>
     associatedWords (es_data esuggestion_e3) = [a, b] \<and>
     findDoc es_id (ExampleSuggestions dictionary) id_e3 = Some esuggestion_e3 \<and>
     length [a, b] = length (uniq [a, b]) \<and>
     fst (executeMergeExample id_e3 ''U1'' dictionary)
       = Inr \<lparr>example_id = id_n0, example_data = es_data esuggestion_e3\<rparr> \<and>
     uniqBy [a, b] toString = [a]"
proof -
  have 1: "ObjectId 5 id_ede \<noteq> IdString id_ede" by simp
  have 2: "toString (ObjectId 5 id_ede) = toString (IdString id_ede)" by simp
  have 3: "associatedWords (es_data esuggestion_e3) = [ObjectId 5 id_ede, IdString id_ede]"
    by (simp add: esuggestion_e3_def)
  have 4: "findDoc es_id (ExampleSuggestions dictionary) id_e3 = Some esuggestion_e3"
    by code_simp
  have 5: "length [ObjectId 5 id_ede, IdString id_ede] = length (uniq [ObjectId 5 id_ede, IdString id_ede])"
    by code_simp
  have 6: "fst (executeMergeExample id_e3 ''U1'' dictionary)
       = Inr \<lparr>example_id = id_n0, example_data = es_data esuggestion_e3\<rparr>"
    by code_simp
  have 7: "uniqBy [ObjectId 5 id_ede, IdString id_ede] toString = [ObjectId 5 id_ede]"
    by code_simp
  show ?thesis
    by (rule exI[of _ "ObjectId 5 id_ede"], rule exI[of _ "IdString id_ede"])
      (intro conjI 1 2 3 4 5 6 7)
qed
section \<open>What the operations leave unchanged, and how they settle\<close>

lemma preservesD: "preserves g m \<Longrightarrow> m s = (r, s') \<Longrightarrow> g s' = g s"
  by (auto simp: preserves_def dest: spec[of _ s])

lemma preserves_resolve: "preserves g (resolve a)"
  by (simp add: preserves_def resolve_def)

lemma preserves_reject: "preserves g (reject e)"
  by (simp add: preserves_def reject_def)

lemma preserves_thenP:
  "preserves g m \<Longrightarrow> (\<And>a. preserves g (f a)) \<Longrightarrow> preserves g (thenP m f)"
  by (auto simp: preserves_def thenP_def split: prod.splits sum.splits)
     (metis snd_conv)+

lemma preserves_catchP:
  "preserves g m \<Longrightarrow> (\<And>e. preserves g (h e)) \<Longrightarrow> preserves g (catchP m h)"
  by (auto simp: preserves_def catchP_def split: prod.splits sum.splits)
     (metis snd_conv)+

lemma preserves_Promise_all_map:
  assumes "\<And>x. preserves g (f x)"
  shows "preserves g (Promise_all_map f xs)"
  unfolding preserves_def
proof
  fix s show "g (snd (Promise_all_map f xs s)) = g s"
  proof (induction xs arbitrary: s)
    case Nil
    then show ?case by simp
  next
    case (Cons x xs)
    from assms[of x] have "g (snd (f x s)) = g s" by (simp add: preserves_def)
    with Cons[of "snd (f x s)"] show ?case
      by (simp only: Promise_all_map_snd)
  qed
qed

lemma shrinksD: "shrinks m \<Longrightarrow> m s = (r, s') \<Longrightarrow> set (faults s') \<subseteq> set (faults s)"
  by (metis shrinks_def snd_conv)

lemma shrinks_resolve: "shrinks (resolve a)"
  by (simp add: shrinks_def resolve_def)

lemma shrinks_reject: "shrinks (reject e)"
  by (simp add: shrinks_def reject_def)

lemma shrinks_thenP:
  assumes "shrinks m" and "\<And>a. shrinks (f a)"
  shows "shrinks (thenP m f)"
  unfolding shrinks_def
proof
  fix s
  obtain r s1 where m: "m s = (r, s1)" by (cases "m s")
  from shrinksD[OF assms(1) m] have 1: "set (faults s1) \<subseteq> set (faults s)" .
  show "set (faults (snd (thenP m f s))) \<subseteq> set (faults s)"
  proof (cases r)
    case (Inl e)
    with m 1 show ?thesis by (simp add: thenP_def)
  next
    case (Inr a)
    obtain r2 s2 where f: "f a s1 = (r2, s2)" by (cases "f a s1")
    from shrinksD[OF assms(2) f] 1 m Inr f show ?thesis by (auto simp: thenP_def)
  qed
qed

lemma shrinks_catchP:
  assumes "shrinks m" and "\<And>e. shrinks (h e)"
  shows "shrinks (catchP m h)"
  unfolding shrinks_def
proof
  fix s
  obtain r s1 where m: "m s = (r, s1)" by (cases "m s")
  from shrinksD[OF assms(1) m] have 1: "set (faults s1) \<subseteq> set (faults s)" .
  show "set (faults (snd (catchP m h s))) \<subseteq> set (faults s)"
  proof (cases r)
    case (Inr a)
    with m 1 show ?thesis by (simp add: catchP_def)
  next
    case (Inl e)
    obtain r2 s2 where f: "h e s1 = (r2, s2)" by (cases "h e s1")
    from shrinksD[OF assms(2) f] 1 m Inl f show ?thesis by (auto simp: catchP_def)
  qed
qed

lemma shrinks_Promise_all_map:
  assumes "\<And>x. shrinks (f x)"
  shows "shrinks (Promise_all_map f xs)"
  unfolding shrinks_def
proof
  fix s show "set (faults (snd (Promise_all_map f xs s))) \<subseteq> set (faults s)"
  proof (induction xs arbitrary: s)
    case Nil
    then show ?case by simp
  next
    case (Cons x xs)
    from assms[of x] have "set (faults (snd (f x s))) \<subseteq> set (faults s)"
      by (simp add: shrinks_def)
    with Cons[of "snd (f x s)"] show ?case
      unfolding Promise_all_map_snd by (rule subset_trans)
  qed
qed

lemma preserves_Words_prim:
  "preserves Words (commit)"
  "preserves Words (newObjectId)"
  "preserves Words (Word_findById i1)"
  "preserves Words (findExampleSuggestionById i2)"
  "preserves Words (findWordsWithMatch i3)"
  "preserves Words (findUser u4)"
  "preserves Words (ExampleSuggestion_find i5)"
  "preserves Words (findExampleByAssociatedWordId i6)"
  "preserves Words (Example_insert d11)"
  "preserves Words (Example_save d12)"
  "preserves Words (Example_findOneAndUpdate i13 dat13)"
  "preserves Words (ExampleSuggestion_save d14)"
  "preserves Words (WordSuggestion_save d15)"
  "preserves Words (deleteWordSuggestionsByOriginalWordId i16)"
  "preserves Words (sendMergedEmail m17)"
  by (auto simp: preserves_def shrinks_def thenP_def commit_def newObjectId_def Word_findById_def findExampleSuggestionById_def findWordsWithMatch_def findUser_def ExampleSuggestion_find_def findExampleByAssociatedWordId_def Word_insert_def Word_save_def Word_findOneAndUpdate_def Word_deleteOne_def Example_insert_def Example_save_def Example_findOneAndUpdate_def ExampleSuggestion_save_def WordSuggestion_save_def deleteWordSuggestionsByOriginalWordId_def sendMergedEmail_def
        split: list.splits option.splits sum.splits if_splits)

lemma preserves_Examples_prim:
  "preserves Examples (commit)"
  "preserves Examples (newObjectId)"
  "preserves Examples (Word_findById i1)"
  "preserves Examples (findExampleSuggestionById i2)"
  "preserves Examples (findWordsWithMatch i3)"
  "preserves Examples (findUser u4)"
  "preserves Examples (ExampleSuggestion_find i5)"
  "preserves Examples (findExampleByAssociatedWordId i6)"
  "preserves Examples (Word_insert d7)"
  "preserves Examples (Word_save d8)"
  "preserves Examples (Word_findOneAndUpdate i9 sug9)"
  "preserves Examples (Word_deleteOne i10)"
  "preserves Examples (ExampleSuggestion_save d14)"
  "preserves Examples (WordSuggestion_save d15)"
  "preserves Examples (deleteWordSuggestionsByOriginalWordId i16)"
  "preserves Examples (sendMergedEmail m17)"
  by (auto simp: preserves_def shrinks_def thenP_def commit_def newObjectId_def Word_findById_def findExampleSuggestionById_def findWordsWithMatch_def findUser_def ExampleSuggestion_find_def findExampleByAssociatedWordId_def Word_insert_def Word_save_def Word_findOneAndUpdate_def Word_deleteOne_def Example_insert_def Example_save_def Example_findOneAndUpdate_def ExampleSuggestion_save_def WordSuggestion_save_def deleteWordSuggestionsByOriginalWordId_def sendMergedEmail_def
        split: list.splits option.splits sum.splits if_splits)

lemma preserves_ExampleSuggestions_prim:
  "preserves ExampleSuggestions (commit)"
  "preserves ExampleSuggestions (newObjectId)"
  "preserves ExampleSuggestions (Word_findById i1)"
  "preserves ExampleSuggestions (findExampleSuggestionById i2)"
  "preserves ExampleSuggestions (findWordsWithMatch i3)"
  "preserves ExampleSuggestions (findUser u4)"
  "preserves ExampleSuggestions (ExampleSuggestion_find i5)"
  "preserves ExampleSuggestions (findExampleByAssociatedWordId i6)"
  "preserves ExampleSuggestions (Word_insert d7)"
  "preserves ExampleSuggestions (Word_save d8)"
  "preserves ExampleSuggestions (Word_findOneAndUpdate i9 sug9)"
  "preserves ExampleSuggestions (Word_deleteOne i10)"
  "preserves ExampleSuggestions (Example_insert d11)"
  "preserves ExampleSuggestions (Example_save d12)"
  "preserves ExampleSuggestions (Example_findOneAndUpdate i13 dat13)"
  "preserves ExampleSuggestions (WordSuggestion_save d15)"
  "preserves ExampleSuggestions (deleteWordSuggestionsByOriginalWordId i16)"
  "preserves ExampleSuggestions (sendMergedEmail m17)"
  by (auto simp: preserves_def shrinks_def thenP_def commit_def newObjectId_def Word_findById_def findExampleSuggestionById_def findWordsWithMatch_def findUser_def ExampleSuggestion_find_def findExampleByAssociatedWordId_def Word_insert_def Word_save_def Word_findOneAndUpdate_def Word_deleteOne_def Example_insert_def Example_save_def Example_findOneAndUpdate_def ExampleSuggestion_save_def WordSuggestion_save_def deleteWordSuggestionsByOriginalWordId_def sendMergedEmail_def
        split: list.splits option.splits sum.splits if_splits)

lemma preserves_WordSuggestions_prim:
  "preserves WordSuggestions (commit)"
  "preserves WordSuggestions (newObjectId)"
  "preserves WordSuggestions (Word_findById i1)"
  "preserves WordSuggestions (findExampleSuggestionById i2)"
  "preserves WordSuggestions (findWordsWithMatch i3)"
  "preserves WordSuggestions (findUser u4)"
  "preserves WordSuggestions (ExampleSuggestion_find i5)"
  "preserves WordSuggestions (findExampleByAssociatedWordId i6)"
  "preserves WordSuggestions (Word_insert d7)"
  "preserves WordSuggestions (Word_save d8)"
  "preserves WordSuggestions (Word_findOneAndUpdate i9 sug9)"
  "preserves WordSuggestions (Word_deleteOne i10)"
  "preserves WordSuggestions (Example_insert d11)"
  "preserves WordSuggestions (Example_save d12)"
  "preserves WordSuggestions (Example_findOneAndUpdate i13 dat13)"
  "preserves WordSuggestions (ExampleSuggestion_save d14)"
  "preserves WordSuggestions (sendMergedEmail m17)"
  by (auto simp: preserves_def shrinks_def thenP_def commit_def newObjectId_def Word_findById_def findExampleSuggestionById_def findWordsWithMatch_def findUser_def ExampleSuggestion_find_def findExampleByAssociatedWordId_def Word_insert_def Word_save_def Word_findOneAndUpdate_def Word_deleteOne_def Example_insert_def Example_save_def Example_findOneAndUpdate_def ExampleSuggestion_save_def WordSuggestion_save_def deleteWordSuggestionsByOriginalWordId_def sendMergedEmail_def
        split: list.splits option.splits sum.splits if_splits)

lemma shrinks_prim:
  "shrinks (commit)"
  "shrinks (newObjectId)"
  "shrinks (Word_findById i1)"
  "shrinks (findExampleSuggestionById i2)"
  "shrinks (findWordsWithMatch i3)"
  "shrinks (findUser u4)"
  "shrinks (ExampleSuggestion_find i5)"
  "shrinks (findExampleByAssociatedWordId i6)"
  "shrinks (Word_insert d7)"
  "shrinks (Word_save d8)"
  "shrinks (Word_findOneAndUpdate i9 sug9)"
  "shrinks (Word_deleteOne i10)"
  "shrinks (Example_insert d11)"
  "shrinks (Example_save d12)"
  "shrinks (Example_findOneAndUpdate i13 dat13)"
  "shrinks (ExampleSuggestion_save d14)"
  "shrinks (WordSuggestion_save d15)"
  "shrinks (deleteWordSuggestionsByOriginalWordId i16)"
  "shrinks (sendMergedEmail m17)"
  by (auto simp: preserves_def shrinks_def thenP_def commit_def newObjectId_def Word_findById_def findExampleSuggestionById_def findWordsWithMatch_def findUser_def ExampleSuggestion_find_def findExampleByAssociatedWordId_def Word_insert_def Word_save_def Word_findOneAndUpdate_def Word_deleteOne_def Example_insert_def Example_save_def Example_findOneAndUpdate_def ExampleSuggestion_save_def WordSuggestion_save_def deleteWordSuggestionsByOriginalWordId_def sendMergedEmail_def
        split: list.splits option.splits sum.splits if_splits)

lemma preserves_Words_createExample: "preserves Words (createExample dat)"
  unfolding createExample_def Let_def
  by (intro preserves_thenP preserves_catchP preserves_resolve preserves_reject
        preserves_Promise_all_map preserves_Words_prim 
      | simp split: option.split
      | intro conjI impI allI)+

lemma preserves_Words_updateDocumentMerge_example: "preserves Words (updateDocumentMerge_example d i u)"
  unfolding updateDocumentMerge_example_def Let_def
  by (intro preserves_thenP preserves_catchP preserves_resolve preserves_reject
        preserves_Promise_all_map preserves_Words_prim preserves_Words_createExample
      | simp split: option.split
      | intro conjI impI allI)+

lemma preserves_Words_updateDocumentMerge_word: "preserves Words (updateDocumentMerge_word d i u)"
  unfolding updateDocumentMerge_word_def Let_def
  by (intro preserves_thenP preserves_catchP preserves_resolve preserves_reject
        preserves_Promise_all_map preserves_Words_prim preserves_Words_createExample preserves_Words_updateDocumentMerge_example
      | simp split: option.split
      | intro conjI impI allI)+

lemma preserves_Words_mergeIntoExample: "preserves Words (mergeIntoExample d u)"
  unfolding mergeIntoExample_def Let_def
  by (intro preserves_thenP preserves_catchP preserves_resolve preserves_reject
        preserves_Promise_all_map preserves_Words_prim preserves_Words_createExample preserves_Words_updateDocumentMerge_example preserves_Words_updateDocumentMerge_word
      | simp split: option.split
      | intro conjI impI allI)+

lemma preserves_Words_createExampleFromSuggestion: "preserves Words (createExampleFromSuggestion d u)"
  unfolding createExampleFromSuggestion_def Let_def
  by (intro preserves_thenP preserves_catchP preserves_resolve preserves_reject
        preserves_Promise_all_map preserves_Words_prim preserves_Words_createExample preserves_Words_updateDocumentMerge_example preserves_Words_updateDocumentMerge_word preserves_Words_mergeIntoExample
      | simp split: option.split
      | intro conjI impI allI)+

lemma preserves_Words_executeMergeExample: "preserves Words (executeMergeExample i u)"
  unfolding executeMergeExample_def Let_def
  by (intro preserves_thenP preserves_catchP preserves_resolve preserves_reject
        preserves_Promise_all_map preserves_Words_prim preserves_Words_createExample preserves_Words_updateDocumentMerge_example preserves_Words_updateDocumentMerge_word preserves_Words_mergeIntoExample preserves_Words_createExampleFromSuggestion
      | simp split: option.split
      | intro conjI impI allI)+

lemma preserves_Words_cascadeExampleSuggestion: "preserves Words (cascadeExampleSuggestion sd w u d)"
  unfolding cascadeExampleSuggestion_def Let_def
  by (intro preserves_thenP preserves_catchP preserves_resolve preserves_reject
        preserves_Promise_all_map preserves_Words_prim preserves_Words_createExample preserves_Words_updateDocumentMerge_example preserves_Words_updateDocumentMerge_word preserves_Words_mergeIntoExample preserves_Words_createExampleFromSuggestion preserves_Words_executeMergeExample
      | simp split: option.split
      | intro conjI impI allI)+

lemma preserves_Words_updateSuggestionAfterMerge: "preserves Words (updateSuggestionAfterMerge sd w u)"
  unfolding updateSuggestionAfterMerge_def Let_def
  by (intro preserves_thenP preserves_catchP preserves_resolve preserves_reject
        preserves_Promise_all_map preserves_Words_prim preserves_Words_createExample preserves_Words_updateDocumentMerge_example preserves_Words_updateDocumentMerge_word preserves_Words_mergeIntoExample preserves_Words_createExampleFromSuggestion preserves_Words_executeMergeExample preserves_Words_cascadeExampleSuggestion
      | simp split: option.split
      | intro conjI impI allI)+

lemma preserves_Words_replaceWordIdsFromExampleAssociatedWords: "preserves Words (replaceWordIdsFromExampleAssociatedWords exs a b)"
  unfolding replaceWordIdsFromExampleAssociatedWords_def Let_def
  by (intro preserves_thenP preserves_catchP preserves_resolve preserves_reject
        preserves_Promise_all_map preserves_Words_prim preserves_Words_createExample preserves_Words_updateDocumentMerge_example preserves_Words_updateDocumentMerge_word preserves_Words_mergeIntoExample preserves_Words_createExampleFromSuggestion preserves_Words_executeMergeExample preserves_Words_cascadeExampleSuggestion preserves_Words_updateSuggestionAfterMerge
      | simp split: option.split
      | intro conjI impI allI)+

lemma preserves_Examples_updateDocumentMerge_example: "preserves Examples (updateDocumentMerge_example d i u)"
  unfolding updateDocumentMerge_example_def Let_def
  by (intro preserves_thenP preserves_catchP preserves_resolve preserves_reject
        preserves_Promise_all_map preserves_Examples_prim 
      | simp split: option.split
      | intro conjI impI allI)+

lemma preserves_ExampleSuggestions_createExample: "preserves ExampleSuggestions (createExample dat)"
  unfolding createExample_def Let_def
  by (intro preserves_thenP preserves_catchP preserves_resolve preserves_reject
        preserves_Promise_all_map preserves_ExampleSuggestions_prim 
      | simp split: option.split
      | intro conjI impI allI)+

lemma preserves_ExampleSuggestions_updateDocumentMerge_word: "preserves ExampleSuggestions (updateDocumentMerge_word d i u)"
  unfolding updateDocumentMerge_word_def Let_def
  by (intro preserves_thenP preserves_catchP preserves_resolve preserves_reject
        preserves_Promise_all_map preserves_ExampleSuggestions_prim preserves_ExampleSuggestions_createExample
      | simp split: option.split
      | intro conjI impI allI)+

lemma preserves_ExampleSuggestions_replaceWordIdsFromExampleAssociatedWords: "preserves ExampleSuggestions (replaceWordIdsFromExampleAssociatedWords exs a b)"
  unfolding replaceWordIdsFromExampleAssociatedWords_def Let_def
  by (intro preserves_thenP preserves_catchP preserves_resolve preserves_reject
        preserves_Promise_all_map preserves_ExampleSuggestions_prim preserves_ExampleSuggestions_createExample preserves_ExampleSuggestions_updateDocumentMerge_word
      | simp split: option.split
      | intro conjI impI allI)+

lemma preserves_ExampleSuggestions_createWord: "preserves ExampleSuggestions (createWord dat exs)"
  unfolding createWord_def Let_def
  by (intro preserves_thenP preserves_catchP preserves_resolve preserves_reject
        preserves_Promise_all_map preserves_ExampleSuggestions_prim preserves_ExampleSuggestions_createExample preserves_ExampleSuggestions_updateDocumentMerge_word preserves_ExampleSuggestions_replaceWordIdsFromExampleAssociatedWords
      | simp split: option.split
      | intro conjI impI allI)+

lemma preserves_WordSuggestions_createExample: "preserves WordSuggestions (createExample dat)"
  unfolding createExample_def Let_def
  by (intro preserves_thenP preserves_catchP preserves_resolve preserves_reject
        preserves_Promise_all_map preserves_WordSuggestions_prim 
      | simp split: option.split
      | intro conjI impI allI)+

lemma preserves_WordSuggestions_updateDocumentMerge_example: "preserves WordSuggestions (updateDocumentMerge_example d i u)"
  unfolding updateDocumentMerge_example_def Let_def
  by (intro preserves_thenP preserves_catchP preserves_resolve preserves_reject
        preserves_Promise_all_map preserves_WordSuggestions_prim preserves_WordSuggestions_createExample
      | simp split: option.split
      | intro conjI impI allI)+

lemma preserves_WordSuggestions_updateDocumentMerge_word: "preserves WordSuggestions (updateDocumentMerge_word d i u)"
  unfolding updateDocumentMerge_word_def Let_def
  by (intro preserves_thenP preserves_catchP preserves_resolve preserves_reject
        preserves_Promise_all_map preserves_WordSuggestions_prim preserves_WordSuggestions_createExample preserves_WordSuggestions_updateDocumentMerge_example
      | simp split: option.split
      | intro conjI impI allI)+

lemma preserves_WordSuggestions_mergeIntoExample: "preserves WordSuggestions (mergeIntoExample d u)"
  unfolding mergeIntoExample_def Let_def
  by (intro preserves_thenP preserves_catchP preserves_resolve preserves_reject
        preserves_Promise_all_map preserves_WordSuggestions_prim preserves_WordSuggestions_createExample preserves_WordSuggestions_updateDocumentMerge_example preserves_WordSuggestions_updateDocumentMerge_word
      | simp split: option.split
      | intro conjI impI allI)+

lemma preserves_WordSuggestions_createExampleFromSuggestion: "preserves WordSuggestions (createExampleFromSuggestion d u)"
  unfolding createExampleFromSuggestion_def Let_def
  by (intro preserves_thenP preserves_catchP preserves_resolve preserves_reject
        preserves_Promise_all_map preserves_WordSuggestions_prim preserves_WordSuggestions_createExample preserves_WordSuggestions_updateDocumentMerge_example preserves_WordSuggestions_updateDocumentMerge_word preserves_WordSuggestions_mergeIntoExample
      | simp split: option.split
      | intro conjI impI allI)+

lemma preserves_WordSuggestions_executeMergeExample: "preserves WordSuggestions (executeMergeExample i u)"
  unfolding executeMergeExample_def Let_def
  by (intro preserves_thenP preserves_catchP preserves_resolve preserves_reject
        preserves_Promise_all_map preserves_WordSuggestions_prim preserves_WordSuggestions_createExample preserves_WordSuggestions_updateDocumentMerge_example preserves_WordSuggestions_updateDocumentMerge_word preserves_WordSuggestions_mergeIntoExample preserves_WordSuggestions_createExampleFromSuggestion
      | simp split: option.split
      | intro conjI impI allI)+

lemma preserves_WordSuggestions_cascadeExampleSuggestion: "preserves WordSuggestions (cascadeExampleSuggestion sd w u d)"
  unfolding cascadeExampleSuggestion_def Let_def
  by (intro preserves_thenP preserves_catchP preserves_resolve preserves_reject
        preserves_Promise_all_map preserves_WordSuggestions_prim preserves_WordSuggestions_createExample preserves_WordSuggestions_updateDocumentMerge_example preserves_WordSuggestions_updateDocumentMerge_word preserves_WordSuggestions_mergeIntoExample preserves_WordSuggestions_createExampleFromSuggestion preserves_WordSuggestions_executeMergeExample
      | simp split: option.split
      | intro conjI impI allI)+

lemma preserves_WordSuggestions_replaceWordIdsFromExampleAssociatedWords: "preserves WordSuggestions (replaceWordIdsFromExampleAssociatedWords exs a b)"
  unfolding replaceWordIdsFromExampleAssociatedWords_def Let_def
  by (intro preserves_thenP preserves_catchP preserves_resolve preserves_reject
        preserves_Promise_all_map preserves_WordSuggestions_prim preserves_WordSuggestions_createExample preserves_WordSuggestions_updateDocumentMerge_example preserves_WordSuggestions_updateDocumentMerge_word preserves_WordSuggestions_mergeIntoExample preserves_WordSuggestions_createExampleFromSuggestion preserves_WordSuggestions_executeMergeExample preserves_WordSuggestions_cascadeExampleSuggestion
      | simp split: option.split
      | intro conjI impI allI)+

lemma shrinks_createExample: "shrinks (createExample dat)"
  unfolding createExample_def Let_def
  by (intro shrinks_thenP shrinks_catchP shrinks_resolve shrinks_reject
        shrinks_Promise_all_map shrinks_prim 
      | simp split: option.split
      | intro conjI impI allI)+

lemma shrinks_updateDocumentMerge_example: "shrinks (updateDocumentMerge_example d i u)"
  unfolding updateDocumentMerge_example_def Let_def
  by (intro shrinks_thenP shrinks_catchP shrinks_resolve shrinks_reject
        shrinks_Promise_all_map shrinks_prim shrinks_createExample
      | simp split: option.split
      | intro conjI impI allI)+

lemma shrinks_updateDocumentMerge_word: "shrinks (updateDocumentMerge_word d i u)"
  unfolding updateDocumentMerge_word_def Let_def
  by (intro shrinks_thenP shrinks_catchP shrinks_resolve shrinks_reject
        shrinks_Promise_all_map shrinks_prim shrinks_createExample shrinks_updateDocumentMerge_example
      | simp split: option.split
      | intro conjI impI allI)+

lemma shrinks_mergeIntoExample: "shrinks (mergeIntoExample d u)"
  unfolding mergeIntoExample_def Let_def
  by (intro shrinks_thenP shrinks_catchP shrinks_resolve shrinks_reject
        shrinks_Promise_all_map shrinks_prim shrinks_createExample shrinks_updateDocumentMerge_example shrinks_updateDocumentMerge_word
      | simp split: option.split
      | intro conjI impI allI)+

lemma shrinks_createExampleFromSuggestion: "shrinks (createExampleFromSuggestion d u)"
  unfolding createExampleFromSuggestion_def Let_def
  by (intro shrinks_thenP shrinks_catchP shrinks_resolve shrinks_reject
        shrinks_Promise_all_map shrinks_prim shrinks_createExample shrinks_updateDocumentMerge_example shrinks_updateDocumentMerge_word shrinks_mergeIntoExample
      | simp split: option.split
      | intro conjI impI allI)+

lemma shrinks_executeMergeExample: "shrinks (executeMergeExample i u)"
  unfolding executeMergeExample_def Let_def
  by (intro shrinks_thenP shrinks_catchP shrinks_resolve shrinks_reject
        shrinks_Promise_all_map shrinks_prim shrinks_createExample shrinks_updateDocumentMerge_example shrinks_updateDocumentMerge_word shrinks_mergeIntoExample shrinks_createExampleFromSuggestion
      | simp split: option.split
      | intro conjI impI allI)+

lemma shrinks_cascadeExampleSuggestion: "shrinks (cascadeExampleSuggestion sd w u d)"
  unfolding cascadeExampleSuggestion_def Let_def
  by (intro shrinks_thenP shrinks_catchP shrinks_resolve shrinks_reject
        shrinks_Promise_all_map shrinks_prim shrinks_createExample shrinks_updateDocumentMerge_example shrinks_updateDocumentMerge_word shrinks_mergeIntoExample shrinks_createExampleFromSuggestion shrinks_executeMergeExample
      | simp split: option.split
      | intro conjI impI allI)+

lemma shrinks_updateSuggestionAfterMerge: "shrinks (updateSuggestionAfterMerge sd w u)"
  unfolding updateSuggestionAfterMerge_def Let_def
  by (intro shrinks_thenP shrinks_catchP shrinks_resolve shrinks_reject
        shrinks_Promise_all_map shrinks_prim shrinks_createExample shrinks_updateDocumentMerge_example shrinks_updateDocumentMerge_word shrinks_mergeIntoExample shrinks_createExampleFromSuggestion shrinks_executeMergeExample shrinks_cascadeExampleSuggestion
      | simp split: option.split
      | intro conjI impI allI)+

lemma shrinks_replaceWordIdsFromExampleAssociatedWords: "shrinks (replaceWordIdsFromExampleAssociatedWords exs a b)"
  unfolding replaceWordIdsFromExampleAssociatedWords_def Let_def
  by (intro shrinks_thenP shrinks_catchP shrinks_resolve shrinks_reject
        shrinks_Promise_all_map shrinks_prim shrinks_createExample shrinks_updateDocumentMerge_example shrinks_updateDocumentMerge_word shrinks_mergeIntoExample shrinks_createExampleFromSuggestion shrinks_executeMergeExample shrinks_cascadeExampleSuggestion shrinks_updateSuggestionAfterMerge
      | simp split: option.split
      | intro conjI impI allI)+
lemma commit_cases:
  "commit s = (r, s') \<Longrightarrow>
     \<exists>fs. s' = s\<lparr>faults := fs\<rparr> \<and> set fs \<subseteq> set (faults s) \<and>
          (r = Inr () \<or> (\<exists>e. r = Inl e \<and> Some e \<in> set (faults s)))"
  by (auto simp: commit_def split: list.splits option.splits intro: exI[of _ "faults s"])

lemma ExampleSuggestion_save_cases:
  "ExampleSuggestion_save d s = (r, s') \<Longrightarrow>
     \<exists>fs. set fs \<subseteq> set (faults s) \<and>
       ((r = Inr d \<and> findDoc es_id (ExampleSuggestions s) (es_id d) \<noteq> None \<and>
         s' = s\<lparr>faults := fs, ExampleSuggestions := replaceDoc es_id d (ExampleSuggestions s)\<rparr>) \<or>
        (\<exists>e. r = Inl e \<and> s' = s\<lparr>faults := fs\<rparr> \<and>
             (e = documentNotFound \<or> Some e \<in> set (faults s))))"
  unfolding ExampleSuggestion_save_def thenP_def
  by (auto split: prod.splits sum.splits if_splits dest!: commit_cases)

lemma WordSuggestion_save_cases:
  "WordSuggestion_save d s = (r, s') \<Longrightarrow>
     \<exists>fs. set fs \<subseteq> set (faults s) \<and>
       ((r = Inr d \<and> findDoc ws_id (WordSuggestions s) (ws_id d) \<noteq> None \<and>
         s' = s\<lparr>faults := fs, WordSuggestions := replaceDoc ws_id d (WordSuggestions s)\<rparr>) \<or>
        (\<exists>e. r = Inl e \<and> s' = s\<lparr>faults := fs\<rparr> \<and>
             (e = documentNotFound \<or> Some e \<in> set (faults s))))"
  unfolding WordSuggestion_save_def thenP_def
  by (auto split: prod.splits sum.splits if_splits dest!: commit_cases)

lemma Word_save_cases:
  "Word_save d s = (r, s') \<Longrightarrow>
     \<exists>fs. set fs \<subseteq> set (faults s) \<and>
       ((r = Inr d \<and> findDoc word_id (Words s) (word_id d) \<noteq> None \<and>
         s' = s\<lparr>faults := fs, Words := replaceDoc word_id d (Words s)\<rparr>) \<or>
        (\<exists>e. r = Inl e \<and> s' = s\<lparr>faults := fs\<rparr> \<and>
             (e = documentNotFound \<or> Some e \<in> set (faults s))))"
  unfolding Word_save_def thenP_def
  by (auto split: prod.splits sum.splits if_splits dest!: commit_cases)

lemma Example_insert_cases:
  "Example_insert d s = (r, s') \<Longrightarrow>
     \<exists>fs. set fs \<subseteq> set (faults s) \<and>
       ((r = Inr d \<and> findDoc example_id (Examples s) (example_id d) = None \<and>
         s' = s\<lparr>faults := fs, Examples := Examples s @ [d]\<rparr>) \<or>
        (\<exists>e. r = Inl e \<and> s' = s\<lparr>faults := fs\<rparr> \<and>
             (e = duplicateKey \<or> Some e \<in> set (faults s))))"
  unfolding Example_insert_def thenP_def
  by (auto split: prod.splits sum.splits if_splits dest!: commit_cases)

lemma Word_insert_cases:
  "Word_insert d s = (r, s') \<Longrightarrow>
     \<exists>fs. set fs \<subseteq> set (faults s) \<and>
       ((r = Inr d \<and> findDoc word_id (Words s) (word_id d) = None \<and>
         s' = s\<lparr>faults := fs, Words := Words s @ [d]\<rparr>) \<or>
        (\<exists>e. r = Inl e \<and> s' = s\<lparr>faults := fs\<rparr> \<and>
             (e = duplicateKey \<or> Some e \<in> set (faults s))))"
  unfolding Word_insert_def thenP_def
  by (auto split: prod.splits sum.splits if_splits dest!: commit_cases)

lemma Example_findOneAndUpdate_cases:
  "Example_findOneAndUpdate i dat s = (r, s') \<Longrightarrow>
     \<exists>fs. set fs \<subseteq> set (faults s) \<and>
       ((\<exists>c. castObjectId i = Some c \<and> r = Inr None \<and>
             findDoc example_id (Examples s) c = None \<and> s' = s\<lparr>faults := fs\<rparr>) \<or>
        (\<exists>c ex. castObjectId i = Some c \<and> r = Inr (Some ex) \<and>
           findDoc example_id (Examples s) c = Some ex \<and>
           s' = s\<lparr>faults := fs,
                  Examples := replaceDoc example_id (ex\<lparr>example_data := dat\<rparr>) (Examples s)\<rparr>) \<or>
        (\<exists>e. r = Inl e \<and> s' = s\<lparr>faults := fs\<rparr> \<and> (e = castError \<or> Some e \<in> set (faults s))))"
  unfolding Example_findOneAndUpdate_def thenP_def
  by (auto split: prod.splits sum.splits option.splits dest!: commit_cases
        intro: exI[of _ "faults s"])

lemma Word_findOneAndUpdate_cases:
  "Word_findOneAndUpdate i sug s = (r, s') \<Longrightarrow>
     \<exists>fs. set fs \<subseteq> set (faults s) \<and>
       ((\<exists>c refs. castObjectId i = Some c \<and> castExampleRefs s (ws_examples sug) = Inr refs \<and>
             r = Inr None \<and> findDoc word_id (Words s) c = None \<and> s' = s\<lparr>faults := fs\<rparr>) \<or>
        (\<exists>c refs w. castObjectId i = Some c \<and> castExampleRefs s (ws_examples sug) = Inr refs \<and>
           r = Inr (Some w) \<and> findDoc word_id (Words s) c = Some w \<and>
           s' = s\<lparr>faults := fs,
                  Words := replaceDoc word_id
                    (w\<lparr>word_data := ws_data sug, word_examples := refs\<rparr>) (Words s)\<rparr>) \<or>
        (\<exists>e. r = Inl e \<and> s' = s\<lparr>faults := fs\<rparr> \<and>
             (e = castError \<or> castExampleRefs s (ws_examples sug) = Inl e \<or>
              Some e \<in> set (faults s))))"
  unfolding Word_findOneAndUpdate_def thenP_def
  by (auto split: prod.splits sum.splits option.splits dest!: commit_cases
        intro: exI[of _ "faults s"])

lemma Word_deleteOne_cases:
  "Word_deleteOne i s = (r, s') \<Longrightarrow>
     \<exists>fs. set fs \<subseteq> set (faults s) \<and>
       ((\<exists>c. castObjectId i = Some c \<and> r = Inr () \<and>
             s' = s\<lparr>faults := fs, Words := removeDoc word_id c (Words s)\<rparr>) \<or>
        (\<exists>e. r = Inl e \<and> s' = s\<lparr>faults := fs\<rparr> \<and> (e = castError \<or> Some e \<in> set (faults s))))"
  unfolding Word_deleteOne_def thenP_def
  by (auto split: prod.splits sum.splits option.splits dest!: commit_cases
        intro: exI[of _ "faults s"])

lemma deleteWordSuggestionsByOriginalWordId_cases:
  "deleteWordSuggestionsByOriginalWordId i s = (r, s') \<Longrightarrow>
     \<exists>fs. set fs \<subseteq> set (faults s) \<and>
       ((\<exists>c. castObjectId i = Some c \<and> r = Inr () \<and>
         s' = s\<lparr>faults := fs,
                WordSuggestions := filter (\<lambda>d. originalWordId d \<noteq> Some c) (WordSuggestions s)\<rparr>) \<or>
        (\<exists>e. r = Inl e \<and> s' = s\<lparr>faults := fs\<rparr> \<and> (e = castError \<or> Some e \<in> set (faults s))))"
  unfolding deleteWordSuggestionsByOriginalWordId_def thenP_def
  by (auto split: prod.splits sum.splits option.splits dest!: commit_cases
        intro: exI[of _ "faults s"])


lemma catchP_Inr:
  "catchP m h s = (Inr a, s') \<longleftrightarrow>
     m s = (Inr a, s') \<or> (\<exists>e s1. m s = (Inl e, s1) \<and> h e s1 = (Inr a, s'))"
  by (auto simp: catchP_def split: prod.splits sum.splits)

lemma thenP_cases:
  "thenP m f s = (r, s') \<Longrightarrow>
     (\<exists>e. m s = (Inl e, s') \<and> r = Inl e) \<or> (\<exists>a s1. m s = (Inr a, s1) \<and> f a s1 = (r, s'))"
  by (auto simp: thenP_def split: prod.splits sum.splits)

lemma catchP_cases:
  "catchP m h s = (r, s') \<Longrightarrow>
     (\<exists>a. m s = (Inr a, s') \<and> r = Inr a) \<or> (\<exists>e s1. m s = (Inl e, s1) \<and> h e s1 = (r, s'))"
  by (auto simp: catchP_def split: prod.splits sum.splits)

lemma thenP_resolved: "m s = (Inr a, s1) \<Longrightarrow> thenP m f s = f a s1"
  by (simp add: thenP_def)

lemma newObjectId_Inr:
  "newObjectId s = (r, s') \<Longrightarrow> r = Inr (newObjectIds s (idCount s)) \<and> s' = s\<lparr>idCount := Suc (idCount s)\<rparr>"
  by (auto simp: newObjectId_def)

lemma replaceDoc_snoc_new:
  "findDoc key c (key d) = None \<Longrightarrow> key d0 = key d \<Longrightarrow> replaceDoc key d (c @ [d0]) = c @ [d]"
  by (induction c) (auto simp: findDoc_def split: if_splits)

lemma take1_filter_findDoc:
  "(case take (Suc 0) (filter (\<lambda>w. key w = i) c) of [] \<Rightarrow> None | w # _ \<Rightarrow> Some w)
     = findDoc key c i"
  by (induction c) (auto simp: findDoc_def)

lemma updateDocumentMerge_example_cases:
  "updateDocumentMerge_example d i u s = (r, s') \<Longrightarrow>
     \<exists>fs. set fs \<subseteq> set (faults s) \<and>
       ((r = Inr (d\<lparr>es_merged := Some i, es_mergedBy := Some u\<rparr>) \<and>
         findDoc es_id (ExampleSuggestions s) (es_id d) \<noteq> None \<and>
         s' = s\<lparr>faults := fs, ExampleSuggestions :=
                replaceDoc es_id (d\<lparr>es_merged := Some i, es_mergedBy := Some u\<rparr>)
                  (ExampleSuggestions s)\<rparr>) \<or>
        (\<exists>e. r = Inl e \<and> s' = s\<lparr>faults := fs\<rparr> \<and>
             (e = documentNotFound \<or> Some e \<in> set (faults s))))"
  unfolding updateDocumentMerge_example_def
  by (drule ExampleSuggestion_save_cases) simp

lemma check_words:
  assumes "\<forall>a \<in> set L. ObjectId_isValid a"
  shows "Promise_all_map
     (\<lambda>associatedWordId. thenP (Word_findById associatedWordId)
        (\<lambda>w. if w = None then reject e else resolve ())) L s
   = (if \<forall>a \<in> set L. findDoc word_id (Words s) (the (castIdent a)) \<noteq> None
      then (Inr (map (\<lambda>_. ()) L), s) else (Inl e, s))"
  using assms
proof (induction L)
  case Nil
  then show ?case by simp
next
  case (Cons a L)
  define cb where "cb = (\<lambda>associatedWordId. thenP (Word_findById associatedWordId)
        (\<lambda>w. if w = None then reject e else resolve ()))"
  from Cons.prems have "ObjectId_isValid a" by simp
  with castIdent_valid[of a] obtain c where c: "castIdent a = Some c" by blast
  have one: "cb a s = (if findDoc word_id (Words s) c \<noteq> None then (Inr (), s) else (Inl e, s))"
    by (simp add: cb_def c thenP_def Word_findById_def resolve_def reject_def)
  from Cons.prems have "\<forall>a \<in> set L. ObjectId_isValid a" by simp
  from Cons.IH[OF this]
  have IH: "Promise_all_map cb L s
   = (if \<forall>a \<in> set L. findDoc word_id (Words s) (the (castIdent a)) \<noteq> None
      then (Inr (map (\<lambda>_. ()) L), s) else (Inl e, s))"
    unfolding cb_def .
  have "Promise_all_map cb (a # L) s
   = (if \<forall>a \<in> set (a # L). findDoc word_id (Words s) (the (castIdent a)) \<noteq> None
      then (Inr (map (\<lambda>_. ()) (a # L)), s) else (Inl e, s))"
    by (simp add: one IH c)
  then show ?case unfolding cb_def .
qed

section \<open>Validation and failures of the merge engines\<close>

lemma executeMergeExample_fetched:
  assumes f: "findDoc es_id (ExampleSuggestions s) i = Some E"
  shows "executeMergeExample i u s =
     (if igbo (es_data E) = [] \<and> english (es_data E) = []
      then (Inl (Error ''Required information is missing, double check your provided data''), s)
      else if list_ex (\<lambda>a. \<not> ObjectId_isValid a) (associatedWords (es_data E))
      then (Inl (Error ''Invalid id found in associatedWords''), s)
      else if list_ex (\<lambda>a. findDoc word_id (Words s) (the (castIdent a)) = None)
                (associatedWords (es_data E))
      then (Inl (Error
             ''Example suggestion associated words can only contain Word ids before merging''), s)
      else if \<not> distinct (associatedWords (es_data E))
      then (Inl (Error ''Duplicates are not allows in associated words''), s)
      else if truthy (originalExampleId E) then mergeIntoExample E u s
      else createExampleFromSuggestion E u s)"
proof -
  let ?L = "associatedWords (es_data E)"
  have "findExampleSuggestionById i s = (Inr (Some E), s)"
    by (simp add: findExampleSuggestionById_def f)
  note fetch = thenP_resolved[of "findExampleSuggestionById i" s "Some E" s, OF this]
  show ?thesis
  proof (cases "igbo (es_data E) = [] \<and> english (es_data E) = []")
    case True
    then show ?thesis
      unfolding executeMergeExample_def fetch
      by (simp add: reject_def)
  next
    case nonempty: False
    show ?thesis
    proof (cases "list_ex (\<lambda>a. \<not> ObjectId_isValid a) ?L")
      case True
      with nonempty show ?thesis
        unfolding executeMergeExample_def fetch
        by (auto simp: reject_def)
    next
      case False
      then have valid: "\<forall>a \<in> set ?L. ObjectId_isValid a"
        by (simp add: list_ex_iff)
      note cw = check_words[OF valid, of
          "Error ''Example suggestion associated words can only contain Word ids before merging''" s]
      show ?thesis
      proof (cases "\<forall>a \<in> set ?L. findDoc word_id (Words s) (the (castIdent a)) \<noteq> None")
        case True
        then have nl: "\<not> list_ex (\<lambda>a. findDoc word_id (Words s) (the (castIdent a)) = None) ?L"
          by (simp add: list_ex_iff)
        from True cw nonempty False nl show ?thesis
          unfolding executeMergeExample_def fetch
          by (auto simp: thenP_def reject_def uniq_length_distinct)
      next
        case miss: False
        then have l: "list_ex (\<lambda>a. findDoc word_id (Words s) (the (castIdent a)) = None) ?L"
          by (simp add: list_ex_iff)
        from miss cw nonempty False l show ?thesis
          unfolding executeMergeExample_def fetch
          by (auto simp: thenP_def)
      qed
    qed
  qed
qed

lemma executeMergeExample_cases:
  assumes "executeMergeExample i u s = (r, s')"
  shows "(\<exists>e. r = Inl e \<and> s' = s \<and> e \<in> set validationErrors) \<or>
         (\<exists>E. findDoc es_id (ExampleSuggestions s) i = Some E \<and>
              (if truthy (originalExampleId E) then mergeIntoExample E u s
               else createExampleFromSuggestion E u s) = (r, s'))"
proof (cases "findDoc es_id (ExampleSuggestions s) i")
  case None
  with assms show ?thesis
    by (auto simp: executeMergeExample_def thenP_def findExampleSuggestionById_def reject_def
          validationErrors_def)
next
  case (Some E)
  from assms[unfolded executeMergeExample_fetched[OF Some]] Some show ?thesis
    by (auto simp: validationErrors_def split: if_splits)
qed

text \<open>
  What \<^verbatim>\<open>executeMergeExample\<close> refuses before it merges, with the store left exactly as
  it was: a suggestion without text, with an entry that is no valid id, with an entry
  that refers to no Word, or with the same entry twice.
\<close>

lemma executeMergeExample_rejects:
  assumes "findExampleSuggestionById i s = (Inr (Some E), s)"
    and "(igbo (es_data E) = [] \<and> english (es_data E) = [])
         \<or> list_ex (\<lambda>a. \<not> ObjectId_isValid a) (associatedWords (es_data E))
         \<or> list_ex (\<lambda>a. findDoc word_id (Words s) (the (castIdent a)) = None)
              (associatedWords (es_data E))
         \<or> \<not> distinct (associatedWords (es_data E))"
  shows "executeMergeExample i mergedBy s =
     (Inl (if igbo (es_data E) = [] \<and> english (es_data E) = []
           then Error ''Required information is missing, double check your provided data''
           else if list_ex (\<lambda>a. \<not> ObjectId_isValid a) (associatedWords (es_data E))
           then Error ''Invalid id found in associatedWords''
           else if list_ex (\<lambda>a. findDoc word_id (Words s) (the (castIdent a)) = None)
                     (associatedWords (es_data E))
           then Error ''Example suggestion associated words can only contain Word ids before merging''
           else Error ''Duplicates are not allows in associated words''), s)"
proof -
  from assms(1) have f: "findDoc es_id (ExampleSuggestions s) i = Some E"
    by (simp add: findExampleSuggestionById_def)
  from assms(2) show ?thesis
    unfolding executeMergeExample_fetched[OF f] by auto
qed

text \<open>
  Claim C3, at the input on which the code departs from it. The Example Suggestion
  \<open>esuggestion_e7\<close> lists the id of the word \<^verbatim>\<open>ede\<close> twice, as two ObjectId objects.
  \<^verbatim>\<open>uniq\<close> compares the objects, keeps both, and \<^verbatim>\<open>executeMergeExample\<close> raises no
  duplicate error: it resolves, a new Example with both entries is stored and the
  suggestion is stamped as merged.
\<close>

theorem mergeExample_accepts_repeated_id:
  "fst (findExampleSuggestionById id_e7 dictionary) = Inr (Some esuggestion_e7) \<and>
   associatedWords (es_data esuggestion_e7) = [ObjectId 6 id_ede, ObjectId 7 id_ede] \<and>
   toString (ObjectId 6 id_ede) = toString (ObjectId 7 id_ede) \<and>
   fst (executeMergeExample id_e7 ''U1'' dictionary)
     = Inr \<lparr>example_id = id_n0, example_data = es_data esuggestion_e7\<rparr> \<and>
   Examples (snd (executeMergeExample id_e7 ''U1'' dictionary))
     = [example_x1, example_x2, \<lparr>example_id = id_n0, example_data = es_data esuggestion_e7\<rparr>] \<and>
   findDoc es_id (ExampleSuggestions (snd (executeMergeExample id_e7 ''U1'' dictionary))) id_e7
     = Some (esuggestion_e7\<lparr>es_merged := Some id_n0, es_mergedBy := Some ''U1''\<rparr>)"
  by code_simp













section \<open>The word merge engine\<close>

lemma preserves_handleSendingMergedEmail:
  "preserves Words (handleSendingMergedEmail result)"
  "preserves Examples (handleSendingMergedEmail result)"
  "preserves ExampleSuggestions (handleSendingMergedEmail result)"
  "preserves WordSuggestions (handleSendingMergedEmail result)"
  by (auto simp: preserves_def handleSendingMergedEmail_def thenP_def findUser_def reject_def
        resolve_def notAwaited_def sendMergedEmail_def split: option.splits sum.splits)

lemma createWord_Inr:
  assumes "createWord dat exs s = (Inr w, s')"
  shows "findDoc word_id (Words s) (word_id w) = None \<and> Words s' = Words s @ [w] \<and>
         word_data w = dat \<and> word_authorId w = None"
proof -
  from assms obtain i s0 nw s1 rs s2 where
    n: "newObjectId s = (Inr i, s0)"
    and ins: "Word_insert \<lparr>word_id = i, word_data = dat, word_examples = [], word_authorId = None\<rparr> s0
              = (Inr nw, s1)"
    and ex: "Promise_all_map
               (\<lambda>ex. createExample (ex\<lparr>associatedWords := [IdString (word_id nw)]\<rparr>)) exs s1
              = (Inr rs, s2)"
    and sv: "Word_save (nw\<lparr>word_examples := getDocumentsIds rs\<rparr>) s2 = (Inr w, s')"
    unfolding createWord_def thenP_Inr by blast
  from newObjectId_Inr[OF n] have w0: "Words s0 = Words s" by simp
  from Word_insert_cases[OF ins]
  have nw: "nw = \<lparr>word_id = i, word_data = dat, word_examples = [], word_authorId = None\<rparr>"
    and fresh: "findDoc word_id (Words s0) i = None"
    and w1: "Words s1 = Words s0 @ [nw]"
    by auto
  have "preserves Words (Promise_all_map
               (\<lambda>ex. createExample (ex\<lparr>associatedWords := [IdString (word_id nw)]\<rparr>)) exs)"
    by (intro preserves_Promise_all_map preserves_Words_createExample)
  from preservesD[OF this ex] have w2: "Words s2 = Words s1" .
  from Word_save_cases[OF sv]
  have w: "w = nw\<lparr>word_examples := getDocumentsIds rs\<rparr>"
    and w3: "Words s' = replaceDoc word_id w (Words s2)"
    by auto
  have id: "word_id w = i" and dat: "word_data w = dat" and au: "word_authorId w = None"
    by (simp_all add: w nw)
  have "replaceDoc word_id w (Words s @ [nw]) = Words s @ [w]"
    using fresh by (intro replaceDoc_snoc_new) (simp_all add: w0 id nw)
  then show ?thesis
    using fresh by (simp add: w3 w2 w1 w0 id dat au)
qed

lemma createWordFromSuggestion_Inr:
  assumes "createWordFromSuggestion S uid s = (Inr r, s')"
  shows "\<exists>w. r = Some w \<and> findDoc word_id (Words s) (word_id w) = None \<and>
             Words s' = Words s @ [w] \<and> word_data w = ws_data S \<and> word_authorId w = None"
proof -
  from assms obtain w s1 u where
    c: "createWord (ws_data S) (ws_examples S) s = (Inr w, s1)"
    and u: "updateSuggestionAfterMerge S w uid s1 = (Inr u, s')"
    and r: "r = Some w"
    unfolding createWordFromSuggestion_def catchP_Inr thenP_Inr
    by (auto simp: reject_def resolve_def)
  from preservesD[OF preserves_Words_updateSuggestionAfterMerge u]
  have "Words s' = Words s1" .
  with createWord_Inr[OF c] r show ?thesis by simp
qed

lemma mergeIntoWord_Inr:
  assumes "mergeIntoWord S uid s = (Inr r, s')"
  shows "\<exists>c refs w0. castObjectId (idOf (originalWordId S)) = Some c \<and>
           castExampleRefs s (ws_examples S) = Inr refs \<and>
           findDoc word_id (Words s) c = Some w0 \<and>
           r = Some (w0\<lparr>word_data := ws_data S, word_examples := refs\<rparr>) \<and>
           Words s' = replaceDoc word_id
             (w0\<lparr>word_data := ws_data S, word_examples := refs\<rparr>) (Words s)"
proof -
  let ?i = "idOf (originalWordId S)"
  from assms have "mergeIntoWord_chain S uid s = (Inr r, s')"
    by (auto simp: mergeIntoWord_def catchP_Inr reject_def)
  then obtain found s1 where
    f: "Word_findOneAndUpdate ?i S s = (Inr found, s1)"
    and k: "(case found of None \<Rightarrow> reject (Error ''Word doesn't exist'')
         | Some originalWord \<Rightarrow>
             thenP (updateSuggestionAfterMerge S originalWord uid) (\<lambda>_.
               thenP (findWordsWithMatch ?i) (\<lambda>ws.
                 resolve (case ws of [] \<Rightarrow> None | w # _ \<Rightarrow> Some w)))) s1 = (Inr r, s')"
    unfolding mergeIntoWord_chain_def thenP_Inr by blast
  from k obtain w0 where found: "found = Some w0"
    by (cases found) (auto simp: reject_def)
  from Word_findOneAndUpdate_cases[OF f] found obtain c refs where
    c: "castObjectId ?i = Some c" and refs: "castExampleRefs s (ws_examples S) = Inr refs"
    and was: "findDoc word_id (Words s) c = Some w0"
    and w1: "Words s1 = replaceDoc word_id
               (w0\<lparr>word_data := ws_data S, word_examples := refs\<rparr>) (Words s)"
    by auto
  let ?w = "w0\<lparr>word_data := ws_data S, word_examples := refs\<rparr>"
  from k found obtain u s2 where
    u: "updateSuggestionAfterMerge S w0 uid s1 = (Inr u, s2)"
    and m: "thenP (findWordsWithMatch ?i) (\<lambda>ws.
                 resolve (case ws of [] \<Rightarrow> None | w # _ \<Rightarrow> Some w)) s2 = (Inr r, s')"
    by (auto simp: thenP_Inr)
  from preservesD[OF preserves_Words_updateSuggestionAfterMerge u]
  have w2: "Words s2 = Words s1" .
  from m have s': "s' = s2" and r: "r = findDoc word_id (Words s2) c"
    by (auto simp: thenP_Inr findWordsWithMatch_def resolve_def c take1_filter_findDoc)
  from findDoc_Some_key[OF was] have "word_id ?w = c" by simp
  with was have "findDoc word_id (replaceDoc word_id ?w (Words s)) c = Some ?w"
    by (simp add: findDoc_replaceDoc)
  with was c refs have "castObjectId ?i = Some c \<and>
           castExampleRefs s (ws_examples S) = Inr refs \<and>
           findDoc word_id (Words s) c = Some w0 \<and>
           r = Some ?w \<and> Words s' = replaceDoc word_id ?w (Words s)"
    by (simp add: r s' w2 w1)
  then show ?thesis by (intro exI)
qed

text \<open>
  Claim C5. When \<^verbatim>\<open>mergeWord\<close> resolves for a Word Suggestion whose \<^verbatim>\<open>originalWordId\<close>
  is absent, the result is a Word whose id is the id of no Word that existed, and the
  Words afterwards are the Words before, untouched, followed by the new one. When it
  resolves for a suggestion whose \<^verbatim>\<open>originalWordId\<close> is set, a Word was stored under the
  id that it denotes, the result is that Word with the word fields and the examples of
  the suggestion, it replaces the old one at its place, and the Word stored under any
  other id is the same as before.
\<close>

theorem mergeWord_creates_or_updates:
  assumes "mergeWord uid suggestionDoc s = (Inr r, s')"
  shows "(\<not> truthy (originalWordId suggestionDoc) \<longrightarrow>
            (\<exists>w. r = Some w \<and> word_id w \<notin> word_id ` set (Words s) \<and>
                 Words s' = Words s @ [w] \<and> word_data w = ws_data suggestionDoc)) \<and>
         (truthy (originalWordId suggestionDoc) \<longrightarrow>
            (\<exists>c refs w0.
               castObjectId (idOf (originalWordId suggestionDoc)) = Some c \<and>
               castExampleRefs s (ws_examples suggestionDoc) = Inr refs \<and>
               findDoc word_id (Words s) c = Some w0 \<and>
               r = Some (w0\<lparr>word_data := ws_data suggestionDoc, word_examples := refs\<rparr>) \<and>
               Words s' = replaceDoc word_id
                 (w0\<lparr>word_data := ws_data suggestionDoc, word_examples := refs\<rparr>) (Words s) \<and>
               (\<forall>i. i \<noteq> c \<longrightarrow> findDoc word_id (Words s') i = findDoc word_id (Words s) i)))"
proof -
  from assms obtain s1 u where
    b: "(if truthy (originalWordId suggestionDoc) then mergeIntoWord suggestionDoc uid
         else createWordFromSuggestion suggestionDoc uid) s = (Inr r, s1)"
    and h: "handleSendingMergedEmail r s1 = (Inr u, s')"
    unfolding mergeWord_def thenP_Inr by (auto simp: resolve_def)
  from preservesD[OF preserves_handleSendingMergedEmail(1) h]
  have w: "Words s' = Words s1" .
  show ?thesis
  proof (intro conjI impI)
    assume n: "\<not> truthy (originalWordId suggestionDoc)"
    with b have "createWordFromSuggestion suggestionDoc uid s = (Inr r, s1)" by simp
    from createWordFromSuggestion_Inr[OF this]
    show "\<exists>w. r = Some w \<and> word_id w \<notin> word_id ` set (Words s) \<and>
                 Words s' = Words s @ [w] \<and> word_data w = ws_data suggestionDoc"
      by (auto simp: w findDoc_None_iff)
  next
    assume t: "truthy (originalWordId suggestionDoc)"
    with b have "mergeIntoWord suggestionDoc uid s = (Inr r, s1)" by simp
    from mergeIntoWord_Inr[OF this] obtain c refs w0 where
      0: "castObjectId (idOf (originalWordId suggestionDoc)) = Some c"
         "castExampleRefs s (ws_examples suggestionDoc) = Inr refs"
      and 1: "findDoc word_id (Words s) c = Some w0"
      and 2: "r = Some (w0\<lparr>word_data := ws_data suggestionDoc, word_examples := refs\<rparr>)"
      and 3: "Words s1 = replaceDoc word_id
                    (w0\<lparr>word_data := ws_data suggestionDoc, word_examples := refs\<rparr>) (Words s)"
      by blast
    from findDoc_Some_key[OF 1] have k: "word_id w0 = c"
      by simp
    have 4: "\<forall>i. i \<noteq> c \<longrightarrow> findDoc word_id (Words s') i = findDoc word_id (Words s) i"
      by (simp add: w 3 findDoc_replaceDoc k)
    from 0 1 2 3 4 w
    have "castObjectId (idOf (originalWordId suggestionDoc)) = Some c \<and>
               castExampleRefs s (ws_examples suggestionDoc) = Inr refs \<and>
               findDoc word_id (Words s) c = Some w0 \<and>
               r = Some (w0\<lparr>word_data := ws_data suggestionDoc, word_examples := refs\<rparr>) \<and>
               Words s' = replaceDoc word_id
                 (w0\<lparr>word_data := ws_data suggestionDoc, word_examples := refs\<rparr>) (Words s) \<and>
               (\<forall>i. i \<noteq> c \<longrightarrow> findDoc word_id (Words s') i = findDoc word_id (Words s) i)"
      by simp
    then show "\<exists>c refs w0.
               castObjectId (idOf (originalWordId suggestionDoc)) = Some c \<and>
               castExampleRefs s (ws_examples suggestionDoc) = Inr refs \<and>
               findDoc word_id (Words s) c = Some w0 \<and>
               r = Some (w0\<lparr>word_data := ws_data suggestionDoc, word_examples := refs\<rparr>) \<and>
               Words s' = replaceDoc word_id
                 (w0\<lparr>word_data := ws_data suggestionDoc, word_examples := refs\<rparr>) (Words s) \<and>
               (\<forall>i. i \<noteq> c \<longrightarrow> findDoc word_id (Words s') i = findDoc word_id (Words s) i)"
      by (intro exI)
  qed
qed

theorem mergeWord_creates_or_updates_witness:
  "\<not> truthy (originalWordId suggestion_s1) \<and>
   (\<exists>w s'. mergeWord ''U1'' suggestion_s1 dictionary = (Inr (Some w), s') \<and>
            word_id w = id_n0 \<and> Words s' = [word_ji, word_ede, word_oke, w]) \<and>
   truthy (originalWordId suggestion_s2) \<and>
   (\<exists>w s'. mergeWord ''U1'' suggestion_s2 dictionary = (Inr (Some w), s') \<and>
            w = word_ji\<lparr>word_data := ws_data suggestion_s2, word_examples := []\<rparr> \<and>
            Words s' = [w, word_ede, word_oke])"
proof -
  let ?w1 = "\<lparr>word_id = id_n0, word_data = ws_data suggestion_s1, word_examples = [id_n1],
              word_authorId = None\<rparr>"
  let ?run1 = "mergeWord ''U1'' suggestion_s1 dictionary"
  let ?w2 = "word_ji\<lparr>word_data := ws_data suggestion_s2, word_examples := []\<rparr>"
  let ?run2 = "mergeWord ''U1'' suggestion_s2 dictionary"
  have n1: "\<not> truthy (originalWordId suggestion_s1)"
    by (simp add: suggestion_s1_def)
  have "fst ?run1 = Inr (Some ?w1)"
    by code_simp
  then have run1: "?run1 = (Inr (Some ?w1), snd ?run1)"
    by (rule settled)
  from mergeWord_creates_or_updates[OF run1, THEN conjunct1, THEN mp, OF n1]
  obtain w where "Some ?w1 = Some w" and "Words (snd ?run1) = Words dictionary @ [w]"
    by blast
  then have words1: "Words (snd ?run1) = [word_ji, word_ede, word_oke, ?w1]"
    by (simp add: dictionary_def)
  have id1: "word_id ?w1 = id_n0" by simp
  have t2: "truthy (originalWordId suggestion_s2)"
    by (simp add: suggestion_s2_def id_ji_def)
  have "fst ?run2 = Inr (Some ?w2)"
    by code_simp
  then have run2: "?run2 = (Inr (Some ?w2), snd ?run2)"
    by (rule settled)
  from mergeWord_creates_or_updates[OF run2, THEN conjunct2, THEN mp, OF t2]
  obtain c refs w0 where
    r: "Some ?w2 = Some (w0\<lparr>word_data := ws_data suggestion_s2, word_examples := refs\<rparr>)"
    and "Words (snd ?run2) = replaceDoc word_id
           (w0\<lparr>word_data := ws_data suggestion_s2, word_examples := refs\<rparr>) (Words dictionary)"
    by blast
  then have "Words (snd ?run2) = replaceDoc word_id ?w2 (Words dictionary)"
    by simp
  also have "\<dots> = [?w2, word_ede, word_oke]"
    by (simp add: dictionary_def word_ji_def)
  finally have words2: "Words (snd ?run2) = [?w2, word_ede, word_oke]" .
  have a: "\<exists>w s'. mergeWord ''U1'' suggestion_s1 dictionary = (Inr (Some w), s') \<and>
            word_id w = id_n0 \<and> Words s' = [word_ji, word_ede, word_oke, w]"
    by (rule exI[of _ ?w1], rule exI[of _ "snd ?run1"]) (intro conjI run1 id1 words1)
  have b: "\<exists>w s'. mergeWord ''U1'' suggestion_s2 dictionary = (Inr (Some w), s') \<and>
            w = word_ji\<lparr>word_data := ws_data suggestion_s2, word_examples := []\<rparr> \<and>
            Words s' = [w, word_ede, word_oke]"
    by (rule exI[of _ ?w2], rule exI[of _ "snd ?run2"]) (intro conjI run2 refl words2)
  show ?thesis
    by (intro conjI n1 a t2 b)
qed



section \<open>The post-merge cascade\<close>

lemma touches_same:
  "ExampleSuggestions s' = ExampleSuggestions s \<Longrightarrow> Examples s' = Examples s \<Longrightarrow> touches i dat s s'"
  by (simp add: touches_def)

lemma touches_trans: "touches i dat s s1 \<Longrightarrow> touches i dat s1 s2 \<Longrightarrow> touches i dat s s2"
  unfolding touches_def by (metis (no_types, lifting))

lemma touches_newObjectId: "newObjectId s = (r, s') \<Longrightarrow> touches i dat s s'"
  by (auto dest!: newObjectId_Inr intro!: touches_same)

lemma touches_Example_findOneAndUpdate:
  "Example_findOneAndUpdate j dat s = (r, s') \<Longrightarrow> touches i dat s s'"
  by (drule Example_findOneAndUpdate_cases)
     (auto simp: touches_def findDoc_replaceDoc dest: findDoc_Some_key)

lemma touches_Example_insert:
  "Example_insert d s = (r, s') \<Longrightarrow> touches i dat s s'"
  by (drule Example_insert_cases) (auto simp: touches_def findDoc_append)

lemma touches_ExampleSuggestion_save:
  "ExampleSuggestion_save d s = (r, s') \<Longrightarrow> touches (es_id d) dat s s'"
  by (drule ExampleSuggestion_save_cases) (auto simp: touches_def findDoc_replaceDoc)

lemma touches_updateDocumentMerge_example:
  "updateDocumentMerge_example d exid u s = (r, s') \<Longrightarrow> touches (es_id d) dat s s'"
  unfolding updateDocumentMerge_example_def
  by (drule touches_ExampleSuggestion_save) simp

lemma touches_mergeIntoExample:
  assumes "mergeIntoExample E u s = (r, s')"
  shows "touches (es_id E) (es_data E) s s'"
proof -
  let ?upd = "Example_findOneAndUpdate (idOf (originalExampleId E)) (es_data E)"
  from assms[unfolded mergeIntoExample_def, THEN thenP_cases]
  show ?thesis
  proof (elim disjE exE conjE)
    fix e assume "?upd s = (Inl e, s')"
    then show ?thesis by (rule touches_Example_findOneAndUpdate)
  next
    fix a s1
    assume u: "?upd s = (Inr a, s1)"
      and k: "(case a of None \<Rightarrow> reject (Error ''Example doesn't exist'')
          | Some ex \<Rightarrow> thenP (updateDocumentMerge_example E (example_id ex) u)
                        (\<lambda>_. resolve ex)) s1 = (r, s')"
    note t1 = touches_Example_findOneAndUpdate[OF u, of "es_id E"]
    show ?thesis
    proof (cases a)
      case None
      with k have "s' = s1" by (simp add: reject_def)
      with t1 show ?thesis by simp
    next
      case (Some ex)
      with k have "thenP (updateDocumentMerge_example E (example_id ex) u) (\<lambda>_. resolve ex) s1 = (r, s')"
        by simp
      then obtain r' where "updateDocumentMerge_example E (example_id ex) u s1 = (r', s')"
        by (auto dest!: thenP_cases simp: resolve_def)
      from touches_trans[OF t1 touches_updateDocumentMerge_example[OF this]]
      show ?thesis .
    qed
  qed
qed

lemma touches_createExample: "createExample d s = (r, s') \<Longrightarrow> touches i dat s s'"
  unfolding createExample_def
  by (auto dest!: thenP_cases intro: touches_newObjectId touches_Example_insert touches_trans)

lemma touches_createExampleFromSuggestion:
  assumes "createExampleFromSuggestion E u s = (r, s')"
  shows "touches (es_id E) (es_data E) s s'"
proof -
  let ?m = "thenP (createExample (es_data E)) (\<lambda>ex.
          thenP (updateDocumentMerge_example E (example_id ex) u) (\<lambda>_. resolve ex))"
  have inner: "touches (es_id E) (es_data E) s t" if m: "?m s = (q, t)" for q t
    using thenP_cases[OF m]
  proof (elim disjE exE conjE)
    fix e assume "createExample (es_data E) s = (Inl e, t)"
    then show ?thesis by (rule touches_createExample)
  next
    fix ex s1
    assume c: "createExample (es_data E) s = (Inr ex, s1)"
      and k: "thenP (updateDocumentMerge_example E (example_id ex) u) (\<lambda>_. resolve ex) s1 = (q, t)"
    from k obtain r' where "updateDocumentMerge_example E (example_id ex) u s1 = (r', t)"
      by (auto dest!: thenP_cases simp: resolve_def)
    from touches_trans[OF touches_createExample[OF c] touches_updateDocumentMerge_example[OF this]]
    show ?thesis .
  qed
  from assms[unfolded createExampleFromSuggestion_def, THEN catchP_cases]
  show ?thesis
    by (auto simp: reject_def intro: inner)
qed

lemma touches_executeMergeExample:
  assumes "executeMergeExample i u s = (r, s')"
    and "findDoc es_id (ExampleSuggestions s) i = Some E"
  shows "touches i (es_data E) s s'"
proof -
  from findDoc_Some_key[OF assms(2)] have k: "es_id E = i" by simp
  from executeMergeExample_cases[OF assms(1)] assms(2)
  have "s' = s \<or> mergeIntoExample E u s = (r, s') \<or> createExampleFromSuggestion E u s = (r, s')"
    by (auto split: if_splits)
  then show ?thesis
    using touches_mergeIntoExample[of E u s r s'] touches_createExampleFromSuggestion[of E u s r s']
    by (auto simp: k intro: touches_same)
qed

lemma removeSuggestionAssociatedIds_id:
  "es_id (removeSuggestionAssociatedIds S W E) = es_id E"
  by (simp add: removeSuggestionAssociatedIds_def Let_def)

lemma touches_cascadeExampleSuggestion:
  assumes "cascadeExampleSuggestion S W u E s = (r, s')"
  shows "touches (es_id E) (es_data (removeSuggestionAssociatedIds S W E)) s s'"
proof -
  let ?E1 = "removeSuggestionAssociatedIds S W E"
  from assms[unfolded cascadeExampleSuggestion_def, THEN thenP_cases]
  show ?thesis
  proof (elim disjE exE conjE)
    fix e assume "ExampleSuggestion_save ?E1 s = (Inl e, s')"
    from touches_ExampleSuggestion_save[OF this] show ?thesis
      by (simp add: removeSuggestionAssociatedIds_id)
  next
    fix d s1
    assume sv: "ExampleSuggestion_save ?E1 s = (Inr d, s1)"
      and ex: "executeMergeExample (es_id d) u s1 = (r, s')"
    from ExampleSuggestion_save_cases[OF sv]
    have d: "d = ?E1" and f: "findDoc es_id (ExampleSuggestions s1) (es_id ?E1) = Some ?E1"
      by (auto simp: findDoc_replaceDoc)
    from touches_ExampleSuggestion_save[OF sv]
    have t1: "touches (es_id E) (es_data ?E1) s s1"
      by (simp add: removeSuggestionAssociatedIds_id)
    from touches_executeMergeExample[OF ex[unfolded d] f]
    have "touches (es_id E) (es_data ?E1) s1 s'"
      by (simp add: removeSuggestionAssociatedIds_id)
    with t1 show ?thesis by (rule touches_trans)
  qed
qed

lemma updateDocumentMerge_example_Inr:
  assumes "updateDocumentMerge_example E exid u s = (Inr d, s')"
  shows "findDoc es_id (ExampleSuggestions s') (es_id E)
           = Some (E\<lparr>es_merged := Some exid, es_mergedBy := Some u\<rparr>)"
    and "Examples s' = Examples s"
  using updateDocumentMerge_example_cases[OF assms]
  by (auto simp: findDoc_replaceDoc)

lemma mergeIntoExample_Inr:
  assumes "mergeIntoExample E u s = (Inr ex, s')"
  shows "findDoc es_id (ExampleSuggestions s') (es_id E)
           = Some (E\<lparr>es_merged := Some (example_id ex), es_mergedBy := Some u\<rparr>) \<and>
         (\<exists>ex'. findDoc example_id (Examples s') (example_id ex) = Some ex' \<and>
                example_data ex' = es_data E)"
proof -
  let ?upd = "Example_findOneAndUpdate (idOf (originalExampleId E)) (es_data E)"
  from assms[unfolded mergeIntoExample_def thenP_Inr] obtain a s1 where u: "?upd s = (Inr a, s1)"
    and k: "(case a of None \<Rightarrow> reject (Error ''Example doesn't exist'')
          | Some ex \<Rightarrow> thenP (updateDocumentMerge_example E (example_id ex) u)
                        (\<lambda>_. resolve ex)) s1 = (Inr ex, s')"
    by (elim exE conjE)
  show ?thesis
  proof (cases a)
    case None
    with k show ?thesis by (simp add: reject_def)
  next
    case (Some ex0)
    with k have "thenP (updateDocumentMerge_example E (example_id ex0) u) (\<lambda>_. resolve ex0) s1
        = (Inr ex, s')"
      by simp
    then obtain d where m: "updateDocumentMerge_example E (example_id ex0) u s1 = (Inr d, s')"
      and e: "ex = ex0"
      unfolding thenP_Inr resolve_def by (elim exE conjE) simp
    from Example_findOneAndUpdate_cases[OF u] Some obtain c where
      was: "findDoc example_id (Examples s) c = Some ex0"
      and x1: "Examples s1 = replaceDoc example_id (ex0\<lparr>example_data := es_data E\<rparr>) (Examples s)"
      by auto
    from findDoc_Some_key[OF was] have key: "c = example_id ex0" by simp
    from was have x: "findDoc example_id (Examples s1) (example_id ex0)
         = Some (ex0\<lparr>example_data := es_data E\<rparr>)"
      unfolding x1 findDoc_replaceDoc key by simp
    note st = updateDocumentMerge_example_Inr[OF m]
    have "findDoc example_id (Examples s') (example_id ex) = Some (ex0\<lparr>example_data := es_data E\<rparr>)"
      unfolding st(2) e by (rule x)
    moreover have "example_data (ex0\<lparr>example_data := es_data E\<rparr>) = es_data E" by simp
    ultimately have "\<exists>ex'. findDoc example_id (Examples s') (example_id ex) = Some ex' \<and>
                example_data ex' = es_data E"
      by (intro exI conjI)
    with st(1) show ?thesis unfolding e by (intro conjI)
  qed
qed

lemma createExample_Inr:
  assumes "createExample dat s = (Inr ex, s')"
  shows "findDoc example_id (Examples s') (example_id ex) = Some ex \<and> example_data ex = dat \<and>
         ExampleSuggestions s' = ExampleSuggestions s"
proof -
  from assms obtain n s0 where n: "newObjectId s = (Inr n, s0)"
    and i: "Example_insert \<lparr>example_id = n, example_data = dat\<rparr> s0 = (Inr ex, s')"
    unfolding createExample_def thenP_Inr by blast
  from newObjectId_Inr[OF n] have "ExampleSuggestions s0 = ExampleSuggestions s" by simp
  with Example_insert_cases[OF i] show ?thesis
    by (auto simp: findDoc_append)
qed

lemma createExampleFromSuggestion_Inr:
  assumes "createExampleFromSuggestion E u s = (Inr ex, s')"
  shows "findDoc es_id (ExampleSuggestions s') (es_id E)
           = Some (E\<lparr>es_merged := Some (example_id ex), es_mergedBy := Some u\<rparr>) \<and>
         (\<exists>ex'. findDoc example_id (Examples s') (example_id ex) = Some ex' \<and>
                example_data ex' = es_data E)"
proof -
  from assms obtain s1 d where c: "createExample (es_data E) s = (Inr ex, s1)"
    and m: "updateDocumentMerge_example E (example_id ex) u s1 = (Inr d, s')"
    unfolding createExampleFromSuggestion_def catchP_Inr thenP_Inr
    by (auto simp: reject_def resolve_def)
  from createExample_Inr[OF c] updateDocumentMerge_example_Inr[OF m]
  show ?thesis by simp
qed

lemma executeMergeExample_Inr:
  assumes "executeMergeExample i u s = (Inr ex, s')"
  shows "\<exists>E. findDoc es_id (ExampleSuggestions s) i = Some E \<and>
           findDoc es_id (ExampleSuggestions s') i
             = Some (E\<lparr>es_merged := Some (example_id ex), es_mergedBy := Some u\<rparr>) \<and>
           (\<exists>ex'. findDoc example_id (Examples s') (example_id ex) = Some ex' \<and>
                  example_data ex' = es_data E)"
proof -
  from executeMergeExample_cases[OF assms] obtain E where
    f: "findDoc es_id (ExampleSuggestions s) i = Some E"
    and b: "(if truthy (originalExampleId E) then mergeIntoExample E u s
               else createExampleFromSuggestion E u s) = (Inr ex, s')"
    by auto
  from findDoc_Some_key[OF f] have k: "es_id E = i" by simp
  from b mergeIntoExample_Inr[of E u s ex s'] createExampleFromSuggestion_Inr[of E u s ex s']
  have "findDoc es_id (ExampleSuggestions s') (es_id E)
           = Some (E\<lparr>es_merged := Some (example_id ex), es_mergedBy := Some u\<rparr>) \<and>
         (\<exists>ex'. findDoc example_id (Examples s') (example_id ex) = Some ex' \<and>
                example_data ex' = es_data E)"
    by (auto split: if_splits)
  with f show ?thesis by (simp add: k)
qed

lemma cascadeExampleSuggestion_Inr:
  assumes "cascadeExampleSuggestion S W u E s = (Inr ex, s')"
  shows "findDoc es_id (ExampleSuggestions s') (es_id E)
           = Some ((removeSuggestionAssociatedIds S W E)
                     \<lparr>es_merged := Some (example_id ex), es_mergedBy := Some u\<rparr>) \<and>
         (\<exists>ex'. findDoc example_id (Examples s') (example_id ex) = Some ex' \<and>
                example_data ex' = es_data (removeSuggestionAssociatedIds S W E))"
proof -
  let ?E1 = "removeSuggestionAssociatedIds S W E"
  from assms obtain d s1 where sv: "ExampleSuggestion_save ?E1 s = (Inr d, s1)"
    and ex: "executeMergeExample (es_id d) u s1 = (Inr ex, s')"
    unfolding cascadeExampleSuggestion_def thenP_Inr by blast
  from ExampleSuggestion_save_cases[OF sv]
  have d: "d = ?E1" and f: "findDoc es_id (ExampleSuggestions s1) (es_id ?E1) = Some ?E1"
    by (auto simp: findDoc_replaceDoc)
  from executeMergeExample_Inr[OF ex[unfolded d]] f
  show ?thesis by (simp add: removeSuggestionAssociatedIds_id)
qed

lemma relinked_removeSuggestionAssociatedIds:
  assumes "word_id W \<noteq> ws_id S"
  shows "relinked S W (es_data (removeSuggestionAssociatedIds S W E))"
  using assms by (auto simp: relinked_def removeSuggestionAssociatedIds_def Let_def)

lemma cascaded_kept:
  assumes t: "touches i' dat s s'" and ne: "i \<noteq> i'" and g: "relinked S W dat"
    and c: "cascaded S W u F s i"
  shows "cascaded S W u F s' i"
proof -
  from c obtain E exid ex where E: "E \<in> set F" "es_id E = i"
    and st: "findDoc es_id (ExampleSuggestions s) i =
          Some ((removeSuggestionAssociatedIds S W E)\<lparr>es_merged := Some exid, es_mergedBy := Some u\<rparr>)"
    and x: "findDoc example_id (Examples s) exid = Some ex"
    and r: "relinked S W (example_data ex)"
    unfolding cascaded_def by blast
  from t ne have "findDoc es_id (ExampleSuggestions s') i = findDoc es_id (ExampleSuggestions s) i"
    by (simp add: touches_def)
  moreover from t x obtain ex' where "findDoc example_id (Examples s') exid = Some ex'"
    and "ex' = ex \<or> example_data ex' = dat"
    unfolding touches_def by blast
  moreover from this r g have "relinked S W (example_data ex')" by auto
  ultimately have "E \<in> set F \<and> es_id E = i \<and>
        findDoc es_id (ExampleSuggestions s') i =
          Some ((removeSuggestionAssociatedIds S W E)\<lparr>es_merged := Some exid, es_mergedBy := Some u\<rparr>) \<and>
        findDoc example_id (Examples s') exid = Some ex' \<and>
        relinked S W (example_data ex')"
    using E st by simp
  then show ?thesis
    unfolding cascaded_def by (intro exI)
qed

lemma cascaded_step:
  assumes run: "cascadeExampleSuggestion S W u E s = (Inr ex, s')"
    and E: "E \<in> set F" and ne: "word_id W \<noteq> ws_id S"
  shows "cascaded S W u F s' (es_id E)"
    and "cascaded S W u F s i \<Longrightarrow> cascaded S W u F s' i"
proof -
  note g = relinked_removeSuggestionAssociatedIds[OF ne, of E]
  from cascadeExampleSuggestion_Inr[OF run] obtain ex' where
    "findDoc es_id (ExampleSuggestions s') (es_id E)
           = Some ((removeSuggestionAssociatedIds S W E)
                     \<lparr>es_merged := Some (example_id ex), es_mergedBy := Some u\<rparr>)"
    and "findDoc example_id (Examples s') (example_id ex) = Some ex'"
    and "example_data ex' = es_data (removeSuggestionAssociatedIds S W E)"
    by blast
  with g E have "E \<in> set F \<and> es_id E = es_id E \<and>
        findDoc es_id (ExampleSuggestions s') (es_id E) =
          Some ((removeSuggestionAssociatedIds S W E)
                  \<lparr>es_merged := Some (example_id ex), es_mergedBy := Some u\<rparr>) \<and>
        findDoc example_id (Examples s') (example_id ex) = Some ex' \<and>
        relinked S W (example_data ex')"
    by simp
  then show 1: "cascaded S W u F s' (es_id E)"
    unfolding cascaded_def by (intro exI)
  show "cascaded S W u F s' i" if c: "cascaded S W u F s i"
  proof (cases "i = es_id E")
    case True
    with 1 show ?thesis by simp
  next
    case False
    from cascaded_kept[OF touches_cascadeExampleSuggestion[OF run] False g c]
    show ?thesis .
  qed
qed

lemma cascaded_all:
  assumes "Promise_all_map (cascadeExampleSuggestion S W u) Fs s = (Inr rs, s')"
    and "set Fs \<subseteq> set F" and "word_id W \<noteq> ws_id S"
  shows "(\<forall>i. cascaded S W u F s i \<longrightarrow> cascaded S W u F s' i) \<and>
         (\<forall>E \<in> set Fs. cascaded S W u F s' (es_id E))"
  using assms
proof (induction Fs arbitrary: s rs)
  case Nil
  then show ?case by simp
next
  case (Cons E Fs)
  from Cons.prems(1)[unfolded Promise_all_map_Inr] obtain ex s1 rs' where
    1: "cascadeExampleSuggestion S W u E s = (Inr ex, s1)"
    and 2: "Promise_all_map (cascadeExampleSuggestion S W u) Fs s1 = (Inr rs', s')"
    by blast
  from Cons.prems(2) have E: "E \<in> set F" and sub: "set Fs \<subseteq> set F" by auto
  note step = cascaded_step[OF 1 E Cons.prems(3)]
  from Cons.IH[OF 2 sub Cons.prems(3)]
  have keep: "\<And>i. cascaded S W u F s1 i \<Longrightarrow> cascaded S W u F s' i"
    and rest: "\<And>D. D \<in> set Fs \<Longrightarrow> cascaded S W u F s' (es_id D)"
    by auto
  show ?case
    using step keep rest by auto
qed

lemma cascaded_cong_state:
  "ExampleSuggestions s' = ExampleSuggestions s \<Longrightarrow> Examples s' = Examples s \<Longrightarrow>
     cascaded S W u F s' i = cascaded S W u F s i"
  by (simp add: cascaded_def)

lemma removeSuggestionAssociatedIds_cong_word:
  "word_id W' = word_id W \<Longrightarrow>
     removeSuggestionAssociatedIds S W' E = removeSuggestionAssociatedIds S W E"
  by (simp only: removeSuggestionAssociatedIds_def)

lemma relinked_cong_word:
  "word_id W' = word_id W \<Longrightarrow> relinked S W' dat = relinked S W dat"
  by (simp only: relinked_def)

lemma cascaded_cong_word:
  "word_id W' = word_id W \<Longrightarrow> cascaded S W' u F s i = cascaded S W u F s i"
proof -
  assume w: "word_id W' = word_id W"
  show ?thesis
    unfolding cascaded_def
      removeSuggestionAssociatedIds_cong_word[OF w] relinked_cong_word[OF w] ..
qed

lemma ExampleSuggestion_find_cases:
  "ExampleSuggestion_find i s = (r, s') \<Longrightarrow>
     s' = s \<and>
     (r = Inl castError \<and> castObjectId i = None \<or>
      (\<exists>c. castObjectId i = Some c \<and>
         r = Inr (filter (\<lambda>d. c \<in> set (map toString (associatedWords (es_data d))))
                    (ExampleSuggestions s))))"
  by (auto simp: ExampleSuggestion_find_def split: option.splits)


lemma updateSuggestionAfterMerge_Inr:
  assumes "updateSuggestionAfterMerge S W u s = (Inr r, s')"
  shows "\<exists>c rs s2.
           castObjectId (ws_id S) = Some c \<and>
           Promise_all_map (cascadeExampleSuggestion S W u)
             (filter (\<lambda>d. c \<in> set (map toString (associatedWords (es_data d))))
                (ExampleSuggestions s)) s = (Inr rs, s2) \<and>
           WordSuggestion_save (S\<lparr>ws_merged := Some (word_id W), ws_mergedBy := Some u\<rparr>) s2
             = (Inr r, s')"
proof -
  let ?S1 = "S\<lparr>ws_merged := Some (word_id W), ws_mergedBy := Some u\<rparr>"
  from assms have a: "thenP (ExampleSuggestion_find (ws_id S)) (\<lambda>exampleSuggestions.
           thenP (Promise_all_map (cascadeExampleSuggestion S W u) exampleSuggestions)
             (\<lambda>_. WordSuggestion_save ?S1)) s = (Inr r, s')"
    by (simp add: updateSuggestionAfterMerge_def updateDocumentMerge_word_def thenP_def
          resolve_def)
  from a[unfolded thenP_Inr] obtain F s1 rs s2 where
    2: "ExampleSuggestion_find (ws_id S) s = (Inr F, s1)"
    and 3: "Promise_all_map (cascadeExampleSuggestion S W u) F s1 = (Inr rs, s2)"
    and 4: "WordSuggestion_save ?S1 s2 = (Inr r, s')"
    by (elim exE conjE)
  from ExampleSuggestion_find_cases[OF 2] obtain c where "s1 = s"
    and "castObjectId (ws_id S) = Some c"
    and "F = filter (\<lambda>d. c \<in> set (map toString (associatedWords (es_data d))))
                (ExampleSuggestions s)"
    by auto
  with 3 4 show ?thesis
    by (intro exI[of _ c] exI[of _ rs] exI[of _ s2]) simp
qed

lemma updateSuggestionAfterMerge_cascaded:
  assumes run: "updateSuggestionAfterMerge S W u s = (Inr r, s')"
    and ne: "word_id W \<noteq> ws_id S"
    and canon: "castObjectId (ws_id S) = Some (ws_id S)"
    and E: "E \<in> set (ExampleSuggestions s)"
           "ws_id S \<in> toString ` set (associatedWords (es_data E))"
  shows "cascaded S W u
           (filter (\<lambda>d. ws_id S \<in> set (map toString (associatedWords (es_data d))))
              (ExampleSuggestions s)) s' (es_id E)"
proof -
  let ?F = "filter (\<lambda>d. ws_id S \<in> set (map toString (associatedWords (es_data d))))
              (ExampleSuggestions s)"
  let ?S1 = "S\<lparr>ws_merged := Some (word_id W), ws_mergedBy := Some u\<rparr>"
  from updateSuggestionAfterMerge_Inr[OF run] canon obtain rs s2 where
    c: "Promise_all_map (cascadeExampleSuggestion S W u) ?F s = (Inr rs, s2)"
    and sv: "WordSuggestion_save ?S1 s2 = (Inr r, s')"
    by auto
  from E have mem: "E \<in> set ?F" by simp
  from cascaded_all[OF c subset_refl ne, THEN conjunct2, rule_format, OF mem]
  have at2: "cascaded S W u ?F s2 (es_id E)" .
  from WordSuggestion_save_cases[OF sv]
  have "ExampleSuggestions s' = ExampleSuggestions s2" "Examples s' = Examples s2"
    by auto
  from cascaded_cong_state[OF this] at2 show ?thesis
    by simp
qed

lemma mergeWord_cascaded:
  assumes run: "mergeWord uid S s = (Inr (Some w), s')"
    and ne: "word_id w \<noteq> ws_id S"
    and canon: "castObjectId (ws_id S) = Some (ws_id S)"
    and E: "E \<in> set (ExampleSuggestions s)"
           "ws_id S \<in> toString ` set (associatedWords (es_data E))"
  shows "cascaded S w uid
           (filter (\<lambda>d. ws_id S \<in> set (map toString (associatedWords (es_data d))))
              (ExampleSuggestions s)) s' (es_id E)"
proof -
  let ?F = "filter (\<lambda>d. ws_id S \<in> set (map toString (associatedWords (es_data d))))
              (ExampleSuggestions s)"
  from run obtain s1 u0 where
    b: "(if truthy (originalWordId S) then mergeIntoWord S uid
         else createWordFromSuggestion S uid) s = (Inr (Some w), s1)"
    and h: "handleSendingMergedEmail (Some w) s1 = (Inr u0, s')"
    unfolding mergeWord_def thenP_Inr by (auto simp: resolve_def)
  have fin: "cascaded S w uid ?F s' (es_id E) = cascaded S w uid ?F s1 (es_id E)"
    by (intro cascaded_cong_state
          preservesD[OF preserves_handleSendingMergedEmail(3) h]
          preservesD[OF preserves_handleSendingMergedEmail(2) h])
  have "cascaded S w uid ?F s1 (es_id E)"
  proof (cases "truthy (originalWordId S)")
    case False
    with b have "createWordFromSuggestion S uid s = (Inr (Some w), s1)" by simp
    then obtain s0 r0 where
      c: "createWord (ws_data S) (ws_examples S) s = (Inr w, s0)"
      and u: "updateSuggestionAfterMerge S w uid s0 = (Inr r0, s1)"
      unfolding createWordFromSuggestion_def catchP_Inr thenP_Inr
      by (auto simp: reject_def resolve_def)
    from preservesD[OF preserves_ExampleSuggestions_createWord c]
    have es0: "ExampleSuggestions s0 = ExampleSuggestions s" .
    from updateSuggestionAfterMerge_cascaded[OF u ne canon, unfolded es0, OF E] show ?thesis .
  next
    case True
    with b have m: "mergeIntoWord S uid s = (Inr (Some w), s1)" by simp
    then have "mergeIntoWord_chain S uid s = (Inr (Some w), s1)"
      by (auto simp: mergeIntoWord_def catchP_Inr reject_def)
    from this[unfolded mergeIntoWord_chain_def thenP_Inr] obtain found s0 where
      f: "Word_findOneAndUpdate (idOf (originalWordId S)) S s = (Inr found, s0)"
      and k: "(case found of None \<Rightarrow> reject (Error ''Word doesn't exist'')
         | Some originalWord \<Rightarrow>
             thenP (updateSuggestionAfterMerge S originalWord uid) (\<lambda>_.
               thenP (findWordsWithMatch (idOf (originalWordId S))) (\<lambda>ws.
                 resolve (case ws of [] \<Rightarrow> None | w # _ \<Rightarrow> Some w)))) s0 = (Inr (Some w), s1)"
      by (elim exE conjE)
    from k obtain w0 where found: "found = Some w0"
      by (cases found) (auto simp: reject_def)
    from k[unfolded found] obtain r0 s2 where
      u: "updateSuggestionAfterMerge S w0 uid s0 = (Inr r0, s2)"
      and m2: "thenP (findWordsWithMatch (idOf (originalWordId S))) (\<lambda>ws.
                 resolve (case ws of [] \<Rightarrow> None | w # _ \<Rightarrow> Some w)) s2 = (Inr (Some w), s1)"
      by (auto simp: thenP_Inr)
    from m2 have s12: "s1 = s2"
      by (auto simp: thenP_Inr findWordsWithMatch_def resolve_def)
    from Word_findOneAndUpdate_cases[OF f] found obtain c where
      was: "findDoc word_id (Words s) c = Some w0"
      and cc: "castObjectId (idOf (originalWordId S)) = Some c"
      and es0: "ExampleSuggestions s0 = ExampleSuggestions s"
      by auto
    from mergeIntoWord_Inr[OF m] was cc
    have id: "word_id w = word_id w0"
      by auto
    from ne id have ne0: "word_id w0 \<noteq> ws_id S" by simp
    from updateSuggestionAfterMerge_cascaded[OF u ne0 canon, unfolded es0, OF E]
    have "cascaded S w0 uid ?F s2 (es_id E)" .
    then show ?thesis
      unfolding s12 cascaded_cong_word[OF id] .
  qed
  with fin show ?thesis by simp
qed

text \<open>
  Claim C1. Let \<^verbatim>\<open>mergeWord\<close> resolve with the canonical Word \<open>w\<close> (by either branch)
  for the Word Suggestion \<open>S\<close>, whose id is the text of an ObjectId, the two being
  different documents with different ids. Then for every Example Suggestion that
  listed the id of \<open>S\<close>: the Example Suggestion stored afterwards under its id is a
  suggestion found under that id (itself, when ids are unique in the collection) with
  every entry of the text of \<open>S\<close>'s id removed and the id of \<open>w\<close> included, pushed only
  when no entry had its text; it is stamped with the same merger and with the id of a
  canonical Example; and that Example is stored with a list that has an entry for the
  id of \<open>w\<close> and no entry of the text of \<open>S\<close>'s id.
\<close>

theorem cascade_relinks_nested_examples:
  assumes run: "mergeWord uid suggestionDoc s = (Inr (Some w), s')"
    and ne: "word_id w \<noteq> ws_id suggestionDoc"
    and canon: "castObjectId (ws_id suggestionDoc) = Some (ws_id suggestionDoc)"
  shows "\<forall>E \<in> set (ExampleSuggestions s).
           ws_id suggestionDoc \<in> toString ` set (associatedWords (es_data E)) \<longrightarrow>
           (\<exists>E0 exid ex.
              E0 \<in> set (ExampleSuggestions s) \<and> es_id E0 = es_id E \<and>
              ws_id suggestionDoc \<in> toString ` set (associatedWords (es_data E0)) \<and>
              (distinct (map es_id (ExampleSuggestions s)) \<longrightarrow> E0 = E) \<and>
              findDoc es_id (ExampleSuggestions s') (es_id E) =
                Some ((removeSuggestionAssociatedIds suggestionDoc w E0)
                        \<lparr>es_merged := Some exid, es_mergedBy := Some uid\<rparr>) \<and>
              associatedWords (es_data (removeSuggestionAssociatedIds suggestionDoc w E0)) =
                (if word_id w \<in> toString ` set (associatedWords (es_data E0))
                 then filter (\<lambda>a. toString a \<noteq> ws_id suggestionDoc) (associatedWords (es_data E0))
                 else filter (\<lambda>a. toString a \<noteq> ws_id suggestionDoc) (associatedWords (es_data E0))
                        @ [IdString (word_id w)]) \<and>
              ws_id suggestionDoc \<notin> toString `
                set (associatedWords (es_data (removeSuggestionAssociatedIds suggestionDoc w E0))) \<and>
              word_id w \<in> toString `
                set (associatedWords (es_data (removeSuggestionAssociatedIds suggestionDoc w E0))) \<and>
              findDoc example_id (Examples s') exid = Some ex \<and>
              ws_id suggestionDoc \<notin> toString ` set (associatedWords (example_data ex)) \<and>
              word_id w \<in> toString ` set (associatedWords (example_data ex)))"
proof (intro ballI impI)
  fix E
  assume E: "E \<in> set (ExampleSuggestions s)"
    and ref: "ws_id suggestionDoc \<in> toString ` set (associatedWords (es_data E))"
  let ?S = suggestionDoc
  from mergeWord_cascaded[OF run ne canon E ref, unfolded cascaded_def]
  obtain E0 exid ex where
    m: "E0 \<in> set (filter (\<lambda>d. ws_id ?S \<in> set (map toString (associatedWords (es_data d))))
              (ExampleSuggestions s))"
    and k: "es_id E0 = es_id E"
    and st: "findDoc es_id (ExampleSuggestions s') (es_id E) =
                Some ((removeSuggestionAssociatedIds ?S w E0)
                        \<lparr>es_merged := Some exid, es_mergedBy := Some uid\<rparr>)"
    and x: "findDoc example_id (Examples s') exid = Some ex"
    and r: "relinked ?S w (example_data ex)"
    by (elim exE conjE)
  from m have m1: "E0 \<in> set (ExampleSuggestions s)"
    and m2: "ws_id ?S \<in> toString ` set (associatedWords (es_data E0))"
    by simp_all
  have d: "distinct (map es_id (ExampleSuggestions s)) \<longrightarrow> E0 = E"
    using distinct_map_same_key[OF _ m1 E k] by blast
  have l: "associatedWords (es_data (removeSuggestionAssociatedIds ?S w E0)) =
                (if word_id w \<in> toString ` set (associatedWords (es_data E0))
                 then filter (\<lambda>a. toString a \<noteq> ws_id ?S) (associatedWords (es_data E0))
                 else filter (\<lambda>a. toString a \<noteq> ws_id ?S) (associatedWords (es_data E0))
                        @ [IdString (word_id w)])"
    using ne by (auto simp: removeSuggestionAssociatedIds_def Let_def)
  from relinked_removeSuggestionAssociatedIds[OF ne, of E0, unfolded relinked_def]
  have g1: "ws_id ?S \<notin> toString `
                set (associatedWords (es_data (removeSuggestionAssociatedIds ?S w E0)))"
    and g2: "word_id w \<in> toString `
                set (associatedWords (es_data (removeSuggestionAssociatedIds ?S w E0)))"
    by simp_all
  from r[unfolded relinked_def]
  have r1: "ws_id ?S \<notin> toString ` set (associatedWords (example_data ex))"
    and r2: "word_id w \<in> toString ` set (associatedWords (example_data ex))"
    by simp_all
  show "\<exists>E0 exid ex.
              E0 \<in> set (ExampleSuggestions s) \<and> es_id E0 = es_id E \<and>
              ws_id ?S \<in> toString ` set (associatedWords (es_data E0)) \<and>
              (distinct (map es_id (ExampleSuggestions s)) \<longrightarrow> E0 = E) \<and>
              findDoc es_id (ExampleSuggestions s') (es_id E) =
                Some ((removeSuggestionAssociatedIds ?S w E0)
                        \<lparr>es_merged := Some exid, es_mergedBy := Some uid\<rparr>) \<and>
              associatedWords (es_data (removeSuggestionAssociatedIds ?S w E0)) =
                (if word_id w \<in> toString ` set (associatedWords (es_data E0))
                 then filter (\<lambda>a. toString a \<noteq> ws_id ?S) (associatedWords (es_data E0))
                 else filter (\<lambda>a. toString a \<noteq> ws_id ?S) (associatedWords (es_data E0))
                        @ [IdString (word_id w)]) \<and>
              ws_id ?S \<notin> toString `
                set (associatedWords (es_data (removeSuggestionAssociatedIds ?S w E0))) \<and>
              word_id w \<in> toString `
                set (associatedWords (es_data (removeSuggestionAssociatedIds ?S w E0))) \<and>
              findDoc example_id (Examples s') exid = Some ex \<and>
              ws_id ?S \<notin> toString ` set (associatedWords (example_data ex)) \<and>
              word_id w \<in> toString ` set (associatedWords (example_data ex))"
    by (rule exI[of _ E0], rule exI[of _ exid], rule exI[of _ ex])
       (intro conjI m1 k m2 d st l g1 g2 x r1 r2)
qed

theorem cascade_relinks_nested_examples_witness:
  "(\<exists>w s' stored ex.
      mergeWord ''U1'' suggestion_s1 dictionary = (Inr (Some w), s') \<and>
      word_id w = id_n0 \<and> word_id w \<noteq> ws_id suggestion_s1 \<and>
      castObjectId (ws_id suggestion_s1) = Some (ws_id suggestion_s1) \<and>
      esuggestion_e1 \<in> set (ExampleSuggestions dictionary) \<and>
      associatedWords (es_data esuggestion_e1) = [IdString id_s1, ObjectId 3 id_ede] \<and>
      findDoc es_id (ExampleSuggestions s') id_e1 = Some stored \<and>
      associatedWords (es_data stored) = [ObjectId 3 id_ede, IdString id_n0] \<and>
      es_merged stored = Some id_n2 \<and> es_mergedBy stored = Some ''U1'' \<and>
      findDoc example_id (Examples s') id_n2 = Some ex \<and>
      associatedWords (example_data ex) = [ObjectId 3 id_ede, IdString id_n0]) \<and>
   (\<exists>w s' stored ex.
      mergeWord ''U1'' suggestion_s2 dictionary = (Inr (Some w), s') \<and>
      word_id w = id_ji \<and> word_id w \<noteq> ws_id suggestion_s2 \<and>
      castObjectId (ws_id suggestion_s2) = Some (ws_id suggestion_s2) \<and>
      esuggestion_e2 \<in> set (ExampleSuggestions dictionary) \<and>
      associatedWords (es_data esuggestion_e2) = [ObjectId 4 id_ji, IdString id_s2] \<and>
      findDoc es_id (ExampleSuggestions s') id_e2 = Some stored \<and>
      associatedWords (es_data stored) = [ObjectId 4 id_ji] \<and>
      es_merged stored = Some id_x1 \<and> es_mergedBy stored = Some ''U1'' \<and>
      findDoc example_id (Examples s') id_x1 = Some ex \<and>
      associatedWords (example_data ex) = [ObjectId 4 id_ji])"
proof -
  have dist: "distinct (map es_id (ExampleSuggestions dictionary))"
    by code_simp
  have A: "\<exists>w s' stored ex.
      mergeWord ''U1'' suggestion_s1 dictionary = (Inr (Some w), s') \<and>
      word_id w = id_n0 \<and> word_id w \<noteq> ws_id suggestion_s1 \<and>
      castObjectId (ws_id suggestion_s1) = Some (ws_id suggestion_s1) \<and>
      esuggestion_e1 \<in> set (ExampleSuggestions dictionary) \<and>
      associatedWords (es_data esuggestion_e1) = [IdString id_s1, ObjectId 3 id_ede] \<and>
      findDoc es_id (ExampleSuggestions s') id_e1 = Some stored \<and>
      associatedWords (es_data stored) = [ObjectId 3 id_ede, IdString id_n0] \<and>
      es_merged stored = Some id_n2 \<and> es_mergedBy stored = Some ''U1'' \<and>
      findDoc example_id (Examples s') id_n2 = Some ex \<and>
      associatedWords (example_data ex) = [ObjectId 3 id_ede, IdString id_n0]"
  proof -
    let ?run = "mergeWord ''U1'' suggestion_s1 dictionary"
    let ?w = "\<lparr>word_id = id_n0, word_data = ws_data suggestion_s1, word_examples = [id_n1],
                word_authorId = None\<rparr>"
    have "fst ?run = Inr (Some ?w)"
      by code_simp
    then have run: "?run = (Inr (Some ?w), snd ?run)"
      by (rule settled)
    have idw: "word_id ?w = id_n0" by simp
    have ne: "word_id ?w \<noteq> ws_id suggestion_s1"
      by (simp add: suggestion_s1_def id_n0_def id_s1_def)
    have canon: "castObjectId (ws_id suggestion_s1) = Some (ws_id suggestion_s1)"
      by code_simp
    have mem: "esuggestion_e1 \<in> set (ExampleSuggestions dictionary)"
      by (simp add: dictionary_def)
    have list: "associatedWords (es_data esuggestion_e1) = [IdString id_s1, ObjectId 3 id_ede]"
      by (simp add: esuggestion_e1_def)
    have ref: "ws_id suggestion_s1 \<in> toString ` set (associatedWords (es_data esuggestion_e1))"
      by (simp add: list suggestion_s1_def)
    from cascade_relinks_nested_examples[OF run ne canon, rule_format, OF mem ref]
    obtain E0 exid ex where
      same: "distinct (map es_id (ExampleSuggestions dictionary)) \<longrightarrow> E0 = esuggestion_e1"
      and st: "findDoc es_id (ExampleSuggestions (snd ?run)) (es_id esuggestion_e1) =
                  Some ((removeSuggestionAssociatedIds suggestion_s1 ?w E0)
                          \<lparr>es_merged := Some exid, es_mergedBy := Some ''U1''\<rparr>)"
      and x: "findDoc example_id (Examples (snd ?run)) exid = Some ex"
      by (elim exE conjE)
    from same dist have E0: "E0 = esuggestion_e1" by simp
    let ?stored = "(removeSuggestionAssociatedIds suggestion_s1 ?w esuggestion_e1)
                          \<lparr>es_merged := Some exid, es_mergedBy := Some ''U1''\<rparr>"
    have k: "es_id esuggestion_e1 = id_e1" by (simp add: esuggestion_e1_def)
    have "findDoc es_id (ExampleSuggestions (snd ?run)) id_e1 \<noteq> None \<and>
          es_merged (the (findDoc es_id (ExampleSuggestions (snd ?run)) id_e1)) = Some id_n2"
      by code_simp
    with st[unfolded E0 k] have exid: "exid = id_n2" by simp
    have st': "findDoc es_id (ExampleSuggestions (snd ?run)) id_e1 = Some ?stored"
      using st[unfolded E0 k] .
    have "associatedWords (es_data (removeSuggestionAssociatedIds suggestion_s1 ?w esuggestion_e1))
            = [ObjectId 3 id_ede, IdString id_n0]"
      by code_simp
    then have sl: "associatedWords (es_data ?stored) = [ObjectId 3 id_ede, IdString id_n0]"
      by simp
    have sm: "es_merged ?stored = Some id_n2" and sb: "es_mergedBy ?stored = Some ''U1''"
      by (simp_all add: exid)
    have x': "findDoc example_id (Examples (snd ?run)) id_n2 = Some ex"
      using x[unfolded exid] .
    have "associatedWords (example_data (the (findDoc example_id (Examples (snd ?run)) id_n2)))
            = [ObjectId 3 id_ede, IdString id_n0]"
      by code_simp
    then have xl: "associatedWords (example_data ex) = [ObjectId 3 id_ede, IdString id_n0]"
      unfolding x' by simp
    show ?thesis
      by (rule exI[of _ ?w], rule exI[of _ "snd ?run"], rule exI[of _ ?stored], rule exI[of _ ex])
         (intro conjI run idw ne canon mem list st' sl sm sb x' xl)
  qed
  have B: "\<exists>w s' stored ex.
      mergeWord ''U1'' suggestion_s2 dictionary = (Inr (Some w), s') \<and>
      word_id w = id_ji \<and> word_id w \<noteq> ws_id suggestion_s2 \<and>
      castObjectId (ws_id suggestion_s2) = Some (ws_id suggestion_s2) \<and>
      esuggestion_e2 \<in> set (ExampleSuggestions dictionary) \<and>
      associatedWords (es_data esuggestion_e2) = [ObjectId 4 id_ji, IdString id_s2] \<and>
      findDoc es_id (ExampleSuggestions s') id_e2 = Some stored \<and>
      associatedWords (es_data stored) = [ObjectId 4 id_ji] \<and>
      es_merged stored = Some id_x1 \<and> es_mergedBy stored = Some ''U1'' \<and>
      findDoc example_id (Examples s') id_x1 = Some ex \<and>
      associatedWords (example_data ex) = [ObjectId 4 id_ji]"
  proof -
    let ?run = "mergeWord ''U1'' suggestion_s2 dictionary"
    let ?w = "word_ji\<lparr>word_data := ws_data suggestion_s2, word_examples := []\<rparr>"
    have "fst ?run = Inr (Some ?w)"
      by code_simp
    then have run: "?run = (Inr (Some ?w), snd ?run)"
      by (rule settled)
    have idw: "word_id ?w = id_ji" by (simp add: word_ji_def)
    have ne: "word_id ?w \<noteq> ws_id suggestion_s2"
      by (simp add: word_ji_def suggestion_s2_def id_ji_def id_s2_def)
    have canon: "castObjectId (ws_id suggestion_s2) = Some (ws_id suggestion_s2)"
      by code_simp
    have mem: "esuggestion_e2 \<in> set (ExampleSuggestions dictionary)"
      by (simp add: dictionary_def)
    have list: "associatedWords (es_data esuggestion_e2) = [ObjectId 4 id_ji, IdString id_s2]"
      by (simp add: esuggestion_e2_def)
    have ref: "ws_id suggestion_s2 \<in> toString ` set (associatedWords (es_data esuggestion_e2))"
      by (simp add: list suggestion_s2_def)
    from cascade_relinks_nested_examples[OF run ne canon, rule_format, OF mem ref]
    obtain E0 exid ex where
      same: "distinct (map es_id (ExampleSuggestions dictionary)) \<longrightarrow> E0 = esuggestion_e2"
      and st: "findDoc es_id (ExampleSuggestions (snd ?run)) (es_id esuggestion_e2) =
                  Some ((removeSuggestionAssociatedIds suggestion_s2 ?w E0)
                          \<lparr>es_merged := Some exid, es_mergedBy := Some ''U1''\<rparr>)"
      and x: "findDoc example_id (Examples (snd ?run)) exid = Some ex"
      by (elim exE conjE)
    from same dist have E0: "E0 = esuggestion_e2" by simp
    let ?stored = "(removeSuggestionAssociatedIds suggestion_s2 ?w esuggestion_e2)
                          \<lparr>es_merged := Some exid, es_mergedBy := Some ''U1''\<rparr>"
    have k: "es_id esuggestion_e2 = id_e2" by (simp add: esuggestion_e2_def)
    have "findDoc es_id (ExampleSuggestions (snd ?run)) id_e2 \<noteq> None \<and>
          es_merged (the (findDoc es_id (ExampleSuggestions (snd ?run)) id_e2)) = Some id_x1"
      by code_simp
    with st[unfolded E0 k] have exid: "exid = id_x1" by simp
    have st': "findDoc es_id (ExampleSuggestions (snd ?run)) id_e2 = Some ?stored"
      using st[unfolded E0 k] .
    have "associatedWords (es_data (removeSuggestionAssociatedIds suggestion_s2 ?w esuggestion_e2))
            = [ObjectId 4 id_ji]"
      by code_simp
    then have sl: "associatedWords (es_data ?stored) = [ObjectId 4 id_ji]"
      by simp
    have sm: "es_merged ?stored = Some id_x1" and sb: "es_mergedBy ?stored = Some ''U1''"
      by (simp_all add: exid)
    have x': "findDoc example_id (Examples (snd ?run)) id_x1 = Some ex"
      using x[unfolded exid] .
    have "associatedWords (example_data (the (findDoc example_id (Examples (snd ?run)) id_x1)))
            = [ObjectId 4 id_ji]"
      by code_simp
    then have xl: "associatedWords (example_data ex) = [ObjectId 4 id_ji]"
      unfolding x' by simp
    show ?thesis
      by (rule exI[of _ ?w], rule exI[of _ "snd ?run"], rule exI[of _ ?stored], rule exI[of _ ex])
         (intro conjI run idw ne canon mem list st' sl sm sb x' xl)
  qed
  show ?thesis
    by (intro conjI A B)
qed




section \<open>Deleting a word into another\<close>

lemma cleanedWordExample_texts:
  "toString ` set (associatedWords (example_data (cleanedWordExample oldId newId ex)))
     = toString ` set (filter (\<lambda>a. toString a \<noteq> toString oldId)
                         (associatedWords (example_data ex) @ [newId]))"
  unfolding cleanedWordExample_def uniqBy_def
  using uniqBy_seen_keys[of toString "[]"] by simp

lemma cleanedWordExample_no_old:
  "toString oldId \<notin> toString ` set (associatedWords (example_data (cleanedWordExample oldId newId ex)))"
  unfolding cleanedWordExample_texts by auto

lemma cleanedWordExample_has_new:
  "toString newId \<noteq> toString oldId \<Longrightarrow>
     toString newId \<in> toString ` set (associatedWords (example_data (cleanedWordExample oldId newId ex)))"
  unfolding cleanedWordExample_texts by auto

lemma findAndUpdateWord_Inr:
  assumes "findAndUpdateWord i cb s = (Inr r, s')"
  shows "\<exists>c w. castObjectId i = Some c \<and> findDoc word_id (Words s) c = Some w \<and>
               cb w s = (Inr r, s')"
proof -
  from assms have v: "ObjectId_isValid (IdString i)"
    unfolding findAndUpdateWord_def
    by (auto simp del: ObjectId_isValid.simps simp add: reject_def split: if_splits)
  with assms have "thenP (Word_findById (IdString i)) (\<lambda>found.
             case found of None \<Rightarrow> reject (Error ''Word doesn't exist'') | Some w \<Rightarrow> cb w) s
           = (Inr r, s')"
    unfolding findAndUpdateWord_def by (simp del: ObjectId_isValid.simps)
  then show ?thesis
    by (auto simp: thenP_Inr Word_findById_def reject_def split: option.splits)
qed

lemma relinked_examples:
  assumes run: "replaceWordIdsFromExampleAssociatedWords
                  (filter (\<lambda>d. toString oldId \<in> set (map toString (associatedWords (example_data d))))
                     (Examples s))
                  oldId newId s = (Inr saved, s')"
  shows "\<forall>i ex. findDoc example_id (Examples s') i = Some ex \<longrightarrow>
           toString oldId \<notin> toString ` set (associatedWords (example_data ex))"
    and "toString newId \<noteq> toString oldId \<Longrightarrow>
         \<forall>ex \<in> set (Examples s).
           toString oldId \<in> toString ` set (associatedWords (example_data ex)) \<longrightarrow>
           (\<exists>ex'. findDoc example_id (Examples s') (example_id ex) = Some ex' \<and>
                  toString newId \<in> toString ` set (associatedWords (example_data ex')))"
proof -
  let ?es = "filter (\<lambda>d. toString oldId \<in> set (map toString (associatedWords (example_data d))))
                     (Examples s)"
  let ?c = "cleanedWordExample oldId newId"
  note saved = relinker_saved(1)[OF run] and look = relinker_saved(2)[OF run]
  show "\<forall>i ex. findDoc example_id (Examples s') i = Some ex \<longrightarrow>
           toString oldId \<notin> toString ` set (associatedWords (example_data ex))"
  proof (intro allI impI)
    fix i ex
    assume f: "findDoc example_id (Examples s') i = Some ex"
    show "toString oldId \<notin> toString ` set (associatedWords (example_data ex))"
    proof (cases "find (\<lambda>d. example_id d = i) (rev saved)")
      case (Some d)
      with f have "ex = d" by (simp add: look)
      moreover from find_Some_set[OF Some] have "d \<in> set saved" by simp
      ultimately obtain ex0 where "ex = ?c ex0" by (auto simp: saved)
      then show ?thesis by (simp add: cleanedWordExample_no_old)
    next
      case None
      with f have old: "findDoc example_id (Examples s) i = Some ex" by (simp add: look)
      from findDoc_Some_key[OF old] have k: "example_id ex = i" and m: "ex \<in> set (Examples s)"
        by auto
      show ?thesis
      proof
        assume "toString oldId \<in> toString ` set (associatedWords (example_data ex))"
        with m have "ex \<in> set ?es" by simp
        then have "?c ex \<in> set saved" by (simp add: saved)
        from find_rev_member[OF this, of example_id]
        have "find (\<lambda>x. example_id x = i) (rev saved) \<noteq> None"
          by (auto simp: cleanedWordExample_id k)
        with None show False by simp
      qed
    qed
  qed
  show "\<forall>ex \<in> set (Examples s).
           toString oldId \<in> toString ` set (associatedWords (example_data ex)) \<longrightarrow>
           (\<exists>ex'. findDoc example_id (Examples s') (example_id ex) = Some ex' \<and>
                  toString newId \<in> toString ` set (associatedWords (example_data ex')))"
    if ne: "toString newId \<noteq> toString oldId"
  proof (intro ballI impI)
    fix ex
    assume m: "ex \<in> set (Examples s)"
      and r: "toString oldId \<in> toString ` set (associatedWords (example_data ex))"
    then have "ex \<in> set ?es" by simp
    then have "?c ex \<in> set saved" by (simp add: saved)
    from find_rev_member[OF this, of example_id]
    obtain d where d: "d \<in> set saved"
      and f: "find (\<lambda>x. example_id x = example_id ex) (rev saved) = Some d"
      by (auto simp: cleanedWordExample_id)
    from d obtain ex0 where "d = ?c ex0" by (auto simp: saved)
    with ne have "toString newId \<in> toString ` set (associatedWords (example_data d))"
      by (simp add: cleanedWordExample_has_new)
    moreover from f have "findDoc example_id (Examples s') (example_id ex) = Some d"
      by (simp add: look)
    ultimately show "\<exists>ex'. findDoc example_id (Examples s') (example_id ex) = Some ex' \<and>
                  toString newId \<in> toString ` set (associatedWords (example_data ex'))"
      by blast
  qed
qed

text \<open>
  What \<^verbatim>\<open>deleteWord\<close> does when both ids are given as the texts of their ObjectIds and it
  resolves: it returns the primary Word, stored under the primary id, with its
  definitions the first-seen union of the primary's and the deleted word's definitions,
  its variations the union of both variation lists and the deleted word's headword,
  and its stems the union of both stem lists; the deleted Word is gone, no example of
  the store lists the deleted id any more, and every example that listed it lists the
  primary id.
\<close>

lemma deleteWord_consolidates:
  assumes "deleteWord toBeDeletedWordId primaryWordId s = (Inr w, s')"
    and cX: "castObjectId toBeDeletedWordId = Some toBeDeletedWordId"
    and cY: "castObjectId primaryWordId = Some primaryWordId"
  shows "\<exists>deleted primary.
           findDoc word_id (Words s) toBeDeletedWordId = Some deleted \<and>
           findDoc word_id (Words s) primaryWordId = Some primary \<and>
           word_id w = primaryWordId \<and>
           definitions (word_data w) =
             Some (first_seen_union (orEmpty (definitions (word_data primary)))
                     (orEmpty (definitions (word_data deleted)))) \<and>
           variations (word_data w) =
             Some (first_seen_union (orEmpty (variations (word_data primary)))
                     (orEmpty (variations (word_data deleted)) @ [word (word_data deleted)])) \<and>
           stems (word_data w) =
             Some (first_seen_union (orEmpty (stems (word_data primary)))
                     (orEmpty (stems (word_data deleted)))) \<and>
           findDoc word_id (Words s') primaryWordId = Some w \<and>
           findDoc word_id (Words s') toBeDeletedWordId = None \<and>
           (\<forall>i ex. findDoc example_id (Examples s') i = Some ex \<longrightarrow>
              toBeDeletedWordId \<notin> toString ` set (associatedWords (example_data ex))) \<and>
           (\<forall>ex \<in> set (Examples s).
              toBeDeletedWordId \<in> toString ` set (associatedWords (example_data ex)) \<longrightarrow>
              (\<exists>ex'. findDoc example_id (Examples s') (example_id ex) = Some ex' \<and>
                     primaryWordId \<in> toString ` set (associatedWords (example_data ex'))))"
proof -
  let ?X = toBeDeletedWordId and ?Y = primaryWordId
  let ?es = "filter (\<lambda>d. ?X \<in> set (map toString (associatedWords (example_data d)))) (Examples s)"
  from assms(1) obtain deleted where
    del: "findDoc word_id (Words s) ?X = Some deleted"
    and rest: "findAndUpdateWord ?Y (\<lambda>combineWord.
               let updatedWord = combineWord\<lparr>word_data := (word_data combineWord)
                     \<lparr>definitions := Some (uniqBy
                        (orEmpty (definitions (word_data combineWord))
                           @ orEmpty (definitions (word_data deleted))) (\<lambda>definition. definition)),
                      variations := Some (uniqBy
                        (orEmpty (variations (word_data combineWord))
                           @ orEmpty (variations (word_data deleted))
                           @ [word (word_data deleted)]) (\<lambda>variation. variation)),
                      stems := Some (uniqBy
                        (orEmpty (stems (word_data combineWord))
                           @ orEmpty (stems (word_data deleted))) (\<lambda>stem. stem))\<rparr>\<rparr>
               in thenP (Word_deleteOne ?X) (\<lambda>_.
                    thenP (deleteWordSuggestionsByOriginalWordId ?X) (\<lambda>_.
                      thenP (replaceWordIdsFromExampleAssociatedWords ?es
                               (IdString ?X) (IdString ?Y)) (\<lambda>_.
                        Word_save updatedWord)))) s = (Inr w, s')"
    unfolding deleteWord_def
    by (auto simp: thenP_Inr Word_findById_def findExampleByAssociatedWordId_def reject_def cX
          split: option.splits)
  from findAndUpdateWord_Inr[OF rest] cY obtain primary where
    prim: "findDoc word_id (Words s) ?Y = Some primary"
    and cb: "(let updatedWord = primary\<lparr>word_data := (word_data primary)
                     \<lparr>definitions := Some (uniqBy
                        (orEmpty (definitions (word_data primary))
                           @ orEmpty (definitions (word_data deleted))) (\<lambda>definition. definition)),
                      variations := Some (uniqBy
                        (orEmpty (variations (word_data primary))
                           @ orEmpty (variations (word_data deleted))
                           @ [word (word_data deleted)]) (\<lambda>variation. variation)),
                      stems := Some (uniqBy
                        (orEmpty (stems (word_data primary))
                           @ orEmpty (stems (word_data deleted))) (\<lambda>stem. stem))\<rparr>\<rparr>
               in thenP (Word_deleteOne ?X) (\<lambda>_.
                    thenP (deleteWordSuggestionsByOriginalWordId ?X) (\<lambda>_.
                      thenP (replaceWordIdsFromExampleAssociatedWords ?es
                               (IdString ?X) (IdString ?Y)) (\<lambda>_.
                        Word_save updatedWord)))) s = (Inr w, s')"
    by auto
  define updatedWord where "updatedWord = primary\<lparr>word_data := (word_data primary)
                     \<lparr>definitions := Some (uniqBy
                        (orEmpty (definitions (word_data primary))
                           @ orEmpty (definitions (word_data deleted))) (\<lambda>definition. definition)),
                      variations := Some (uniqBy
                        (orEmpty (variations (word_data primary))
                           @ orEmpty (variations (word_data deleted))
                           @ [word (word_data deleted)]) (\<lambda>variation. variation)),
                      stems := Some (uniqBy
                        (orEmpty (stems (word_data primary))
                           @ orEmpty (stems (word_data deleted))) (\<lambda>stem. stem))\<rparr>\<rparr>"
  from cb obtain u1 s1 u2 s2 saved s3 where
    d1: "Word_deleteOne ?X s = (Inr u1, s1)"
    and d2: "deleteWordSuggestionsByOriginalWordId ?X s1 = (Inr u2, s2)"
    and rl: "replaceWordIdsFromExampleAssociatedWords ?es (IdString ?X) (IdString ?Y) s2
               = (Inr saved, s3)"
    and sv: "Word_save updatedWord s3 = (Inr w, s')"
    unfolding Let_def updatedWord_def[symmetric] thenP_Inr by blast
  from Word_deleteOne_cases[OF d1] cX
  have w1: "Words s1 = removeDoc word_id ?X (Words s)" and e1: "Examples s1 = Examples s"
    by auto
  from deleteWordSuggestionsByOriginalWordId_cases[OF d2]
  have w2: "Words s2 = Words s1" and e2: "Examples s2 = Examples s1"
    by auto
  from preservesD[OF preserves_Words_replaceWordIdsFromExampleAssociatedWords rl]
  have w3: "Words s3 = Words s2" .
  from Word_save_cases[OF sv]
  have w: "w = updatedWord"
    and there: "findDoc word_id (Words s3) (word_id updatedWord) \<noteq> None"
    and w4: "Words s' = replaceDoc word_id updatedWord (Words s3)"
    and e4: "Examples s' = Examples s3"
    by auto
  from findDoc_Some_key[OF prim] have idY: "word_id updatedWord = ?Y"
    by (simp add: updatedWord_def)
  from there have ne: "?Y \<noteq> ?X"
    by (auto simp: w3 w2 w1 idY findDoc_removeDoc split: if_splits)
  have stored: "findDoc word_id (Words s') ?Y = Some w"
    using there by (simp add: w4 w findDoc_replaceDoc idY)
  have gone: "findDoc word_id (Words s') ?X = None"
    using ne by (simp add: w4 w3 w2 w1 findDoc_replaceDoc findDoc_removeDoc idY)
  have es: "?es = filter (\<lambda>d. toString (IdString ?X)
                \<in> set (map toString (associatedWords (example_data d)))) (Examples s2)"
    by (simp add: e2 e1)
  note rl' = rl[unfolded es]
  from relinked_examples(1)[OF rl']
  have none: "\<forall>i ex. findDoc example_id (Examples s') i = Some ex \<longrightarrow>
              ?X \<notin> toString ` set (associatedWords (example_data ex))"
    by (simp add: e4)
  have "toString (IdString ?Y) \<noteq> toString (IdString ?X)"
    using ne by simp
  from relinked_examples(2)[OF rl' this]
  have moved: "\<forall>ex \<in> set (Examples s).
              ?X \<in> toString ` set (associatedWords (example_data ex)) \<longrightarrow>
              (\<exists>ex'. findDoc example_id (Examples s') (example_id ex) = Some ex' \<and>
                     ?Y \<in> toString ` set (associatedWords (example_data ex')))"
    by (simp add: e4 e2 e1)
  have defs: "definitions (word_data w) =
             Some (first_seen_union (orEmpty (definitions (word_data primary)))
                     (orEmpty (definitions (word_data deleted))))"
    by (simp add: w updatedWord_def uniqBy_first_seen_union)
  have vars: "variations (word_data w) =
             Some (first_seen_union (orEmpty (variations (word_data primary)))
                     (orEmpty (variations (word_data deleted)) @ [word (word_data deleted)]))"
    by (simp add: w updatedWord_def uniqBy_first_seen_union)
  have stms: "stems (word_data w) =
             Some (first_seen_union (orEmpty (stems (word_data primary)))
                     (orEmpty (stems (word_data deleted))))"
    by (simp add: w updatedWord_def uniqBy_first_seen_union)
  have idw: "word_id w = ?Y" by (simp add: w idY)
  show ?thesis
    by (rule exI[of _ deleted], rule exI[of _ primary])
       (intro conjI del prim idw defs vars stms stored gone none moved)
qed

text \<open>
  Claim C2, at the input on which the code departs from it. \<open>id_JI\<close> is the id of the
  word \<^verbatim>\<open>ji\<close> written in upper case: the queries cast it to the ObjectId of \<^verbatim>\<open>ji\<close>, so
  the word is found and deleted and its examples are fetched, but the relinker compares
  the texts of the entries with the id as it was given and removes nothing.
  \<^verbatim>\<open>deleteWord\<close> resolves with the primary Word, and both examples still list the id of
  the deleted Word.
\<close>

theorem deleteWord_other_spelling_keeps_references:
  "castObjectId id_JI = Some id_ji \<and>
   findDoc word_id (Words dictionary) id_ji = Some word_ji \<and>
   map (\<lambda>ex. associatedWords (example_data ex)) (Examples dictionary)
     = [[ObjectId 0 id_ji, ObjectId 1 id_ede], [ObjectId 2 id_ji]] \<and>
   fst (deleteWord id_JI id_ede dictionary)
     = Inr (word_ede\<lparr>word_data := (word_data word_ede)
              \<lparr>definitions := Some [''cocoyam'', ''yam''], variations := Some [''jii'', ''ji''],
               stems := Some [''ede'']\<rparr>\<rparr>) \<and>
   findDoc word_id (Words (snd (deleteWord id_JI id_ede dictionary))) id_ji = None \<and>
   map (\<lambda>ex. associatedWords (example_data ex)) (Examples (snd (deleteWord id_JI id_ede dictionary)))
     = [[ObjectId 0 id_ji, ObjectId 1 id_ede], [ObjectId 2 id_ji, IdString id_ede]] \<and>
   fst (deleteWord id_ji id_ede dictionary) = fst (deleteWord id_JI id_ede dictionary) \<and>
   map (\<lambda>ex. associatedWords (example_data ex)) (Examples (snd (deleteWord id_ji id_ede dictionary)))
     = [[ObjectId 1 id_ede], [IdString id_ede]]"
  by code_simp

end
